(* ===== verification/Prelude.thy ===== *)
theory Prelude
  imports Main "HOL-Library.Word" "HOL-Library.List_Lexorder" "HOL-Library.Char_ord"
    "HOL-Library.Multiset"
begin

text \<open>
  Shared vocabulary of the development: Go's fixed-width integers, the outcome of a Go
  call (a value, an error, a fatal log that ends the process, a panic, a call that never
  returns), the unspecified order of \<open>range\<close> over a map, and the generic lemmas on
  lists, maps and words that several components use.
\<close>

section \<open>Machine integers\<close>

type_synonym u8 = "8 word"
type_synonym u16 = "16 word"
type_synonym u32 = "32 word"
type_synonym u64 = "64 word"
type_synonym i64 = "64 word"  \<comment> \<open>two's complement, read with \<open>sint\<close>\<close>

lemma unat_word_of_nat_small: "n < 2 ^ LENGTH('a) \<Longrightarrow> unat (word_of_nat n :: 'a::len word) = n"
  by (simp add: unat_of_nat)

text \<open>Go's integer division truncates towards zero.\<close>

definition go_quot :: "int \<Rightarrow> int \<Rightarrow> int" where
  "go_quot a b = sgn a * sgn b * (\<bar>a\<bar> div \<bar>b\<bar>)"

lemma go_quot_nonneg: "0 \<le> a \<Longrightarrow> 0 < b \<Longrightarrow> go_quot a b = a div b"
  by (cases "a = 0") (simp_all add: go_quot_def)

text \<open>A float64 that is only stored and passed on, as its IEEE bits.\<close>

datatype f64 = F64 (f64_bits: u64)

section \<open>Outcomes of a call\<close>

text \<open>
  \<open>Err\<close> carries the text of the returned error. \<open>Fatal\<close> is \<open>log.Fatal\<close> and its kin,
  \<open>Panic\<close> a run-time panic; both end the program. \<open>Blocked\<close> is a call that waits for
  input that never comes.
\<close>

datatype 'a outcome = Ok 'a | Err string | Fatal string | Panic string | Blocked

primrec is_ok :: "'a outcome \<Rightarrow> bool" where
  "is_ok (Ok _) = True"
| "is_ok (Err _) = False"
| "is_ok (Fatal _) = False"
| "is_ok (Panic _) = False"
| "is_ok Blocked = False"

primrec bind_outcome :: "'a outcome \<Rightarrow> ('a \<Rightarrow> 'b outcome) \<Rightarrow> 'b outcome" where
  "bind_outcome (Ok a) f = f a"
| "bind_outcome (Err e) f = Err e"
| "bind_outcome (Fatal e) f = Fatal e"
| "bind_outcome (Panic e) f = Panic e"
| "bind_outcome Blocked f = Blocked"

lemma bind_outcome_assoc:
  "bind_outcome (bind_outcome m f) g = bind_outcome m (\<lambda>x. bind_outcome (f x) g)"
  by (cases m) simp_all

lemma bind_outcome_Ok_iff:
  "bind_outcome m f = Ok b \<longleftrightarrow> (\<exists>a. m = Ok a \<and> f a = Ok b)"
  by (cases m) auto

text \<open>Sequencing of steps on a state: anything but a normal result ends the sequence.\<close>

definition bind_state ::
    "('s \<Rightarrow> 'a outcome \<times> 's) \<Rightarrow> ('a \<Rightarrow> 's \<Rightarrow> 'b outcome \<times> 's) \<Rightarrow> 's \<Rightarrow> 'b outcome \<times> 's" where
  "bind_state m f s =
     (case m s of (r, s') \<Rightarrow>
        (case r of Ok a \<Rightarrow> f a s' | Err e \<Rightarrow> (Err e, s') | Fatal e \<Rightarrow> (Fatal e, s')
                 | Panic e \<Rightarrow> (Panic e, s') | Blocked \<Rightarrow> (Blocked, s')))"

lemma bind_state_Ok:
  "bind_state m f s = (Ok b, s'') \<longleftrightarrow> (\<exists>a s'. m s = (Ok a, s') \<and> f a s' = (Ok b, s''))"
  by (auto simp: bind_state_def split: prod.splits outcome.splits)

text \<open>A step that never changes some aspect of the state, whatever its result.\<close>

lemma bind_state_keeps:
  assumes "bind_state m f s = (r, s'')"
    and "\<And>a s'. m s = (a, s') \<Longrightarrow> g s' = g s"
    and "\<And>a s'. m s = (Ok a, s') \<Longrightarrow> f a s' = (r, s'') \<Longrightarrow> g s'' = g s'"
  shows "g s'' = g s"
  using assms by (cases "m s") (auto simp: bind_state_def split: outcome.splits)

text \<open>\<open>if err != nil { panic(err) }\<close>\<close>

definition panic_on_err :: "('s \<Rightarrow> 'a outcome \<times> 's) \<Rightarrow> 's \<Rightarrow> 'a outcome \<times> 's" where
  "panic_on_err m s = (case m s of (Err e, s') \<Rightarrow> (Panic e, s') | rs \<Rightarrow> rs)"

text \<open>Go's \<open>int\<close>: 64 bits, wrapping.\<close>

definition go_int :: "int \<Rightarrow> int" where
  "go_int n = (n + 2 ^ 63) mod 2 ^ 64 - 2 ^ 63"

lemma go_int_id: "- (2 ^ 63) \<le> n \<Longrightarrow> n < 2 ^ 63 \<Longrightarrow> go_int n = n"
  by (simp add: go_int_def)

lemma is_ok_iff: "is_ok m \<longleftrightarrow> (\<exists>a. m = Ok a)"
  by (cases m) auto

text \<open>\<open>time.Time.Sub\<close> of two times in nanoseconds saturates.\<close>

definition Time_Sub :: "int \<Rightarrow> int \<Rightarrow> i64" where
  "Time_Sub t u = word_of_int (max (- (2 ^ 63)) (min (2 ^ 63 - 1) (t - u)))"

lemma Time_Sub_exact:
  "- (2 ^ 63) \<le> t - u \<Longrightarrow> t - u < 2 ^ 63 \<Longrightarrow> sint (Time_Sub t u) = t - u"
proof -
  assume d: "- (2 ^ 63) \<le> t - u" "t - u < 2 ^ 63"
  define n where "n = t - u"
  have "Time_Sub t u = word_of_int n" using d by (simp add: Time_Sub_def n_def)
  moreover have "signed_take_bit 63 n = n" using d by (intro signed_take_bit_int_eq_self) (simp_all add: n_def)
  ultimately show ?thesis by (simp add: sint_sbintrunc' n_def [symmetric])
qed

section \<open>Ranging over a map\<close>

text \<open>
  \<open>for k, v := range m\<close> visits every key of the map once, in an order the language leaves
  open. A loop over a map takes the enumeration as an argument; \<open>range_order m ks\<close> says
  that \<open>ks\<close> is one the language allows.
\<close>

definition range_order :: "('k \<rightharpoonup> 'v) \<Rightarrow> 'k list \<Rightarrow> bool" where
  "range_order m ks \<longleftrightarrow> distinct ks \<and> set ks = dom m"

lemma range_order_distinct: "range_order m ks \<Longrightarrow> distinct ks"
  by (simp add: range_order_def)

lemma range_order_set: "range_order m ks \<Longrightarrow> set ks = dom m"
  by (simp add: range_order_def)

lemma range_order_finite: "range_order m ks \<Longrightarrow> finite (dom m)"
  by (metis List.finite_set range_order_set)

lemma range_order_empty [simp]: "range_order Map.empty ks \<longleftrightarrow> ks = []"
  by (auto simp: range_order_def)

lemma range_order_exists: "finite (dom m) \<Longrightarrow> \<exists>ks. range_order m ks"
  by (metis finite_distinct_list range_order_def)

text \<open>The first key, in the order of the range, that holds a given value.\<close>

definition find_key :: "('k \<rightharpoonup> 'v) \<Rightarrow> 'k list \<Rightarrow> 'v \<Rightarrow> 'k option" where
  "find_key m ks v = List.find (\<lambda>k. m k = Some v) ks"

lemma find_key_Some: "find_key m ks v = Some k \<Longrightarrow> m k = Some v"
  by (auto simp: find_key_def find_Some_iff)

lemma find_key_None:
  assumes "range_order m ks"
  shows "find_key m ks v = None \<longleftrightarrow> v \<notin> ran m"
  using assms by (force simp: find_key_def find_None_iff range_order_def ran_def dom_def)

text \<open>Deleting a list of keys, as a loop of \<open>delete\<close> does.\<close>

lemma foldl_delete:
  "foldl (\<lambda>m k. m(k := None)) m ks = (\<lambda>k. if k \<in> set ks then None else m k)"
  by (induction ks arbitrary: m) auto

lemma map_filter_set: "set (List.map_filter f xs) = {y. \<exists>x\<in>set xs. f x = Some y}"
  by (induction xs) (auto simp: List.map_filter_def)

section \<open>Sorted lists without duplicates\<close>

lemma sorted_insort_distinct:
  "x \<notin> set xs \<Longrightarrow> sorted xs \<Longrightarrow> distinct xs \<Longrightarrow>
   sorted (sort (xs @ [x])) \<and> distinct (sort (xs @ [x]))"
  by simp

lemma sort_append_single:
  "sorted xs \<Longrightarrow> sort (xs @ [x]) = insort x xs"
proof -
  assume s: "sorted xs"
  have "mset (sort (xs @ [x])) = mset (insort x xs)"
    by simp
  moreover have "sorted (insort x xs)"
    using s by (simp add: sorted_insort)
  ultimately show ?thesis
    by (metis mset_sort sorted_sort_id properties_for_sort)
qed

section \<open>Splitting at a separator\<close>

lemma split_at_sep:
  assumes "a @ c # b = a' @ c # b'" and "c \<notin> set a" and "c \<notin> set a'"
  shows "a = a' \<and> b = b'"
  using assms
proof (induction a arbitrary: a')
  case Nil
  then show ?case by (cases a') auto
next
  case (Cons x a)
  then show ?case by (cases a') auto
qed

end
