(* ===== verification/GoStrings.thy ===== *)
theory GoStrings
  imports Prelude
begin

text \<open>
  The parts of Go's \<open>strconv\<close>, \<open>strings\<close> and \<open>fmt\<close> the program uses: decimal printing
  (\<open>utoa\<close>, which is \<open>%d\<close> on an unsigned value), the prefix scanner \<open>dtoi\<close> of package
  \<open>net\<close>, \<open>ParseUint\<close> in base 10, \<open>Split\<close> at a one-byte separator, \<open>Contains\<close> and
  \<open>ReplaceAll\<close> of one byte. The main facts are that printing is injective and that both
  scanners read back what was printed.
\<close>

section \<open>Digits\<close>

definition digit_char :: "nat \<Rightarrow> char" where
  "digit_char d = ''0123456789'' ! d"

definition is_digit :: "char \<Rightarrow> bool" where
  "is_digit c \<longleftrightarrow> 48 \<le> (of_char c :: nat) \<and> (of_char c :: nat) \<le> 57"

definition digit_val :: "char \<Rightarrow> nat" where
  "digit_val c = of_char c - 48"

lemma less_10_cases: "(d :: nat) < 10 \<Longrightarrow> d \<in> {0, 1, 2, 3, 4, 5, 6, 7, 8, 9}"
  by auto

lemma of_char_digit_char: "d < 10 \<Longrightarrow> (of_char (digit_char d) :: nat) = 48 + d"
  by (drule less_10_cases) (auto simp: digit_char_def)

lemma digit_val_char: "d < 10 \<Longrightarrow> digit_val (digit_char d) = d"
  by (simp add: digit_val_def of_char_digit_char)

lemma is_digit_char: "d < 10 \<Longrightarrow> is_digit (digit_char d)"
  by (simp add: is_digit_def of_char_digit_char)

lemma digit_val_less: "is_digit c \<Longrightarrow> digit_val c < 10"
  by (auto simp: is_digit_def digit_val_def)

section \<open>Printing a natural number in decimal\<close>

fun utoa :: "nat \<Rightarrow> string" where
  "utoa n = (if n < 10 then [digit_char n] else utoa (n div 10) @ [digit_char (n mod 10)])"

declare utoa.simps [simp del]

lemma utoa_small: "n < 10 \<Longrightarrow> utoa n = [digit_char n]"
  by (simp add: utoa.simps)

lemma utoa_step: "\<not> n < 10 \<Longrightarrow> utoa n = utoa (n div 10) @ [digit_char (n mod 10)]"
  by (simp add: utoa.simps [of n])

text \<open>Printing a numeral, digit by digit.\<close>

lemmas utoa_eval = utoa_small utoa_step digit_char_def

lemma utoa_nonempty [simp]: "utoa n \<noteq> []"
  by (cases "n < 10") (simp_all add: utoa_small utoa_step)

lemma utoa_digits: "c \<in> set (utoa n) \<Longrightarrow> is_digit c"
proof (induction n rule: utoa.induct)
  case (1 n)
  then show ?case
    by (cases "n < 10") (auto simp: utoa_small utoa_step is_digit_char)
qed

lemma utoa_no_sep: "\<not> is_digit c \<Longrightarrow> c \<notin> set (utoa n)"
  using utoa_digits by blast

text \<open>\<open>strconv.Itoa\<close>\<close>

definition itoa :: "int \<Rightarrow> string" where
  "itoa n = (if n < 0 then CHR ''-'' # utoa (nat (- n)) else utoa (nat n))"

text \<open>The value of a digit string, continued from \<open>n\<close>.\<close>

definition digits_val :: "nat \<Rightarrow> string \<Rightarrow> nat" where
  "digits_val n s = foldl (\<lambda>n c. n * 10 + digit_val c) n s"

lemma digits_val_Nil [simp]: "digits_val n [] = n"
  by (simp add: digits_val_def)

lemma digits_val_Cons [simp]: "digits_val n (c # s) = digits_val (n * 10 + digit_val c) s"
  by (simp add: digits_val_def)

lemma digits_val_append: "digits_val n (s @ t) = digits_val (digits_val n s) t"
  by (simp add: digits_val_def)

lemma digits_val_mono: "n \<le> digits_val n s"
proof (induction s arbitrary: n)
  case Nil
  then show ?case by simp
next
  case (Cons c s)
  have "n \<le> n * 10 + digit_val c" by simp
  also have "\<dots> \<le> digits_val (n * 10 + digit_val c) s" by (rule Cons.IH)
  finally show ?case by simp
qed

lemma digits_val_utoa: "digits_val 0 (utoa n) = n"
proof (induction n rule: utoa.induct)
  case (1 n)
  show ?case
  proof (cases "n < 10")
    case True
    then show ?thesis by (simp add: utoa_small digit_val_char)
  next
    case False
    with 1 have "digits_val 0 (utoa (n div 10)) = n div 10" by simp
    with False show ?thesis
      by (simp add: utoa_step digits_val_append digit_val_char)
  qed
qed

lemma utoa_inj [simp]: "utoa m = utoa n \<longleftrightarrow> m = n"
  by (metis digits_val_utoa)

section \<open>Scanning a decimal prefix: \<open>net.dtoi\<close>\<close>

definition dtoi_big :: nat where
  "dtoi_big = 16777215"

fun dtoi_loop :: "nat \<Rightarrow> nat \<Rightarrow> string \<Rightarrow> nat \<times> nat \<times> bool" where
  "dtoi_loop n i [] = (n, i, True)"
| "dtoi_loop n i (c # s) =
     (if is_digit c
      then (let n' = n * 10 + digit_val c
            in if dtoi_big \<le> n' then (dtoi_big, i, False) else dtoi_loop n' (Suc i) s)
      else (n, i, True))"

definition dtoi :: "string \<Rightarrow> nat \<times> nat \<times> bool" where
  "dtoi s = (case dtoi_loop 0 0 s of
      (n, i, ok) \<Rightarrow> if ok \<and> i = 0 then (0, 0, False) else (n, i, ok))"

definition no_digit_first :: "string \<Rightarrow> bool" where
  "no_digit_first s \<longleftrightarrow> (case s of [] \<Rightarrow> True | c # _ \<Rightarrow> \<not> is_digit c)"

lemma no_digit_first_simps [simp]:
  "no_digit_first []" "no_digit_first (c # s) \<longleftrightarrow> \<not> is_digit c"
  by (simp_all add: no_digit_first_def)

lemma dtoi_loop_digits:
  assumes "\<forall>c \<in> set ds. is_digit c" and "digits_val n ds < dtoi_big" and "no_digit_first rest"
  shows "dtoi_loop n i (ds @ rest) = (digits_val n ds, i + length ds, True)"
  using assms
proof (induction ds arbitrary: n i)
  case Nil
  then show ?case by (cases rest) auto
next
  case (Cons c ds)
  have "n * 10 + digit_val c \<le> digits_val n (c # ds)"
    using digits_val_mono by simp
  with Cons.prems have small: "n * 10 + digit_val c < dtoi_big" by linarith
  have "dtoi_loop (n * 10 + digit_val c) (Suc i) (ds @ rest) =
      (digits_val (n * 10 + digit_val c) ds, Suc i + length ds, True)"
    using Cons.prems by (intro Cons.IH) auto
  then show ?case using Cons.prems small by (simp add: Let_def)
qed

lemma dtoi_utoa:
  assumes "n < dtoi_big" and "no_digit_first rest"
  shows "dtoi (utoa n @ rest) = (n, length (utoa n), True)"
proof -
  have "dtoi_loop 0 0 (utoa n @ rest) = (digits_val 0 (utoa n), 0 + length (utoa n), True)"
    by (rule dtoi_loop_digits) (use assms utoa_digits in \<open>auto simp: digits_val_utoa\<close>)
  then show ?thesis by (simp add: dtoi_def digits_val_utoa)
qed

section \<open>\<open>strconv.ParseUint(s, 10, bits)\<close>\<close>

text \<open>
  The returned \<open>NumError\<close> wraps one of two causes, a syntax or a range error; the model
  keeps the cause. The scan stops at the first offending byte, as the library's does.
\<close>

fun ParseUint_loop :: "nat \<Rightarrow> nat \<Rightarrow> string \<Rightarrow> nat outcome" where
  "ParseUint_loop bits n [] = Ok n"
| "ParseUint_loop bits n (c # s) =
     (if \<not> is_digit c then Err ''invalid syntax''
      else (let n' = n * 10 + digit_val c
            in if 2 ^ bits \<le> n' then Err ''value out of range'' else ParseUint_loop bits n' s))"

definition ParseUint :: "string \<Rightarrow> nat \<Rightarrow> nat outcome" where
  "ParseUint s bits = (if s = [] then Err ''invalid syntax'' else ParseUint_loop bits 0 s)"

lemma ParseUint_loop_digits:
  "\<forall>c \<in> set s. is_digit c \<Longrightarrow> digits_val n s < 2 ^ bits \<Longrightarrow>
   ParseUint_loop bits n s = Ok (digits_val n s)"
proof (induction s arbitrary: n)
  case Nil
  then show ?case by simp
next
  case (Cons c s)
  have "n * 10 + digit_val c \<le> digits_val n (c # s)"
    using digits_val_mono by simp
  with Cons.prems have "n * 10 + digit_val c < 2 ^ bits" by linarith
  with Cons show ?case by (simp add: Let_def)
qed

lemma ParseUint_utoa: "n < 2 ^ bits \<Longrightarrow> ParseUint (utoa n) bits = Ok n"
  by (simp add: ParseUint_def ParseUint_loop_digits digits_val_utoa utoa_digits)

lemma ParseUint_loop_Ok:
  "ParseUint_loop bits n s = Ok m \<Longrightarrow> n < 2 ^ bits \<Longrightarrow>
   m < 2 ^ bits \<and> m = digits_val n s \<and> list_all is_digit s"
proof (induction s arbitrary: n)
  case Nil
  then show ?case by simp
next
  case (Cons c s)
  from Cons.prems have d: "is_digit c" and lt: "n * 10 + digit_val c < 2 ^ bits"
    and "ParseUint_loop bits (n * 10 + digit_val c) s = Ok m"
    by (auto simp: Let_def not_le split: if_splits)
  with Cons.IH show ?case by auto
qed

lemma ParseUint_bound: "ParseUint s bits = Ok n \<Longrightarrow> n < 2 ^ bits"
  using ParseUint_loop_Ok [of bits 0 s n] by (simp add: ParseUint_def split: if_splits)

lemma ParseUint_loop_cases:
  "(\<exists>m. ParseUint_loop bits n s = Ok m) \<or> (\<exists>e. ParseUint_loop bits n s = Err e)"
  by (induction s arbitrary: n) (auto simp: Let_def)

lemma ParseUint_cases: "(\<exists>n. ParseUint s bits = Ok n) \<or> (\<exists>e. ParseUint s bits = Err e)"
  using ParseUint_loop_cases by (auto simp: ParseUint_def)

section \<open>\<open>strings.Split\<close> at a one-byte separator\<close>

fun split_at_char :: "char \<Rightarrow> string \<Rightarrow> string list" where
  "split_at_char c [] = [[]]"
| "split_at_char c (x # s) =
     (if x = c then [] # split_at_char c s
      else case split_at_char c s of
             [] \<Rightarrow> [[x]]
           | t # ts \<Rightarrow> (x # t) # ts)"

lemma split_at_char_nonempty [simp]: "split_at_char c s \<noteq> []"
  by (induction s) (auto split: list.splits)

lemma split_at_char_absent: "c \<notin> set s \<Longrightarrow> split_at_char c s = [s]"
  by (induction s) auto

lemma split_at_char_sep:
  "c \<notin> set s \<Longrightarrow> split_at_char c (s @ c # t) = s # split_at_char c t"
  by (induction s) auto

lemma length_split_at_char: "length (split_at_char c s) = Suc (count_list s c)"
  by (induction s) (auto split: list.splits)

section \<open>\<open>strings.Contains\<close> and \<open>strings.ReplaceAll\<close> of one byte\<close>

fun has_prefix :: "string \<Rightarrow> string \<Rightarrow> bool" where
  "has_prefix [] s = True"
| "has_prefix (p # ps) [] = False"
| "has_prefix (p # ps) (x # s) = (p = x \<and> has_prefix ps s)"

fun contains :: "string \<Rightarrow> string \<Rightarrow> bool" where
  "contains [] sub = has_prefix sub []"
| "contains (x # s) sub = (has_prefix sub (x # s) \<or> contains s sub)"

lemma has_prefix_iff: "has_prefix p s \<longleftrightarrow> (\<exists>t. s = p @ t)"
  by (induction p s rule: has_prefix.induct) auto

lemma contains_iff: "contains s sub \<longleftrightarrow> (\<exists>a b. s = a @ sub @ b)"
proof (induction s)
  case Nil
  then show ?case by (auto simp: has_prefix_iff)
next
  case (Cons x s)
  have "(\<exists>a b. x # s = a @ sub @ b) \<longleftrightarrow>
      (\<exists>b. x # s = sub @ b) \<or> (\<exists>a b. s = a @ sub @ b)"
    by (metis append_Cons append_Nil append_eq_Cons_conv)
  with Cons show ?case by (simp add: has_prefix_iff)
qed

definition replace_char :: "char \<Rightarrow> char \<Rightarrow> string \<Rightarrow> string" where
  "replace_char a b s = map (\<lambda>c. if c = a then b else c) s"

lemma replace_char_absent: "a \<noteq> b \<Longrightarrow> a \<notin> set (replace_char a b s)"
  by (auto simp: replace_char_def)

lemma replace_char_id: "a \<notin> set s \<Longrightarrow> replace_char a b s = s"
  by (auto simp: replace_char_def intro: map_idI)

end
