(* ===== verification/NetIP.thy ===== *)
theory NetIP
  imports GoStrings
begin

text \<open>
  Package \<open>net\<close> as the program uses it: an address is a byte slice (\<open>nil\<close> is the empty
  one), printed by \<open>String\<close>, read by \<open>ParseIP\<close> and \<open>ParseCIDR\<close>, compared by \<open>Equal\<close>. The
  model follows the library of Go 1.16, the version \<open>go.mod\<close> names. The main facts are that
  printing an IPv4 address is injective up to its 4-byte and 16-byte forms, never prints a
  colon, and is read back by \<open>ParseIP\<close> and \<open>ParseCIDR\<close>.
\<close>

section \<open>Addresses\<close>

type_synonym ip = "u8 list"

definition v4InV6Prefix :: "u8 list" where
  "v4InV6Prefix = [0, 0, 0, 0, 0, 0, 0, 0, 0, 0, 255, 255]"

definition IPv4 :: "u8 \<Rightarrow> u8 \<Rightarrow> u8 \<Rightarrow> u8 \<Rightarrow> ip" where
  "IPv4 a b c d = v4InV6Prefix @ [a, b, c, d]"

definition IPv4zero :: ip where
  "IPv4zero = IPv4 0 0 0 0"

definition IPv6zero :: ip where
  "IPv6zero = replicate 16 0"

definition To4 :: "ip \<Rightarrow> ip" where
  "To4 ip = (if length ip = 4 then ip
             else if length ip = 16 \<and> take 12 ip = v4InV6Prefix then drop 12 ip
             else [])"

definition IP_Equal :: "ip \<Rightarrow> ip \<Rightarrow> bool" where
  "IP_Equal ip x =
     (if length ip = length x then ip = x
      else if length ip = 4 \<and> length x = 16 then take 12 x = v4InV6Prefix \<and> ip = drop 12 x
      else if length ip = 16 \<and> length x = 4 then take 12 ip = v4InV6Prefix \<and> drop 12 ip = x
      else False)"

lemma length_v4InV6Prefix [simp]: "length v4InV6Prefix = 12"
  by (simp add: v4InV6Prefix_def)

lemma length_IPv4 [simp]: "length (IPv4 a b c d) = 16"
  by (simp add: IPv4_def)

lemma To4_IPv4 [simp]: "To4 (IPv4 a b c d) = [a, b, c, d]"
  by (simp add: To4_def IPv4_def)

lemma To4_nil [simp]: "To4 [] = []"
  by (simp add: To4_def)

lemma To4_short [simp]: "To4 [a, b, c, d] = [a, b, c, d]"
  by (simp add: To4_def)

lemma length_To4: "length (To4 ip) = 0 \<or> length (To4 ip) = 4"
  by (simp add: To4_def)

definition is_v4 :: "ip \<Rightarrow> bool" where
  "is_v4 ip \<longleftrightarrow> To4 ip \<noteq> []"

lemma is_v4_IPv4 [simp]: "is_v4 (IPv4 a b c d)"
  by (simp add: is_v4_def)

lemma is_v4_nil [simp]: "\<not> is_v4 []"
  by (simp add: is_v4_def)

lemma is_v4_obtain:
  assumes "is_v4 ip"
  obtains a b c d where "To4 ip = [a, b, c, d]"
proof -
  have "length (To4 ip) = 4"
    using assms length_To4 [of ip] by (auto simp: is_v4_def)
  then obtain a b c d where "To4 ip = [a, b, c, d]"
    by (auto simp: numeral_eq_Suc length_Suc_conv)
  then show thesis by (rule that)
qed

text \<open>The two forms of an IPv4 address are equal for \<open>Equal\<close>.\<close>

lemma IP_Equal_To4: "is_v4 ip \<Longrightarrow> is_v4 x \<Longrightarrow> IP_Equal ip x \<longleftrightarrow> To4 ip = To4 x"
  unfolding is_v4_def To4_def IP_Equal_def
  by (auto split: if_splits) (metis append_take_drop_id)+

section \<open>Printing\<close>

definition hex_char :: "nat \<Rightarrow> char" where
  "hex_char d = ''0123456789abcdef'' ! d"

definition hexString :: "u8 list \<Rightarrow> string" where
  "hexString bs = concat (map (\<lambda>b. [hex_char (unat b div 16), hex_char (unat b mod 16)]) bs)"

fun appendHex :: "nat \<Rightarrow> string" where
  "appendHex n = (if n < 16 then [hex_char n] else appendHex (n div 16) @ [hex_char (n mod 16)])"

declare appendHex.simps [simp del]

fun groups6 :: "u8 list \<Rightarrow> nat list" where
  "groups6 (a # b # bs) = (unat a * 256 + unat b) # groups6 bs"
| "groups6 _ = []"

definition zero_run :: "nat list \<Rightarrow> nat \<Rightarrow> nat" where
  "zero_run gs i = length (takeWhile (\<lambda>g. g = 0) (drop i gs))"

text \<open>The first longest run of zero groups, as the half-open interval \<open>(e0, e1)\<close>.\<close>

function longest_run :: "nat list \<Rightarrow> nat \<Rightarrow> nat \<Rightarrow> nat \<Rightarrow> nat \<times> nat" where
  "longest_run gs i e0 e1 =
     (if length gs \<le> i then (e0, e1)
      else let n = zero_run gs i
           in if e1 - e0 < n then longest_run gs (Suc (i + n)) i (i + n)
              else longest_run gs (Suc i) e0 e1)"
  by pat_completeness auto
termination
  by (relation "measure (\<lambda>(gs, i, e0, e1). length gs - i)") auto

fun join_colon :: "string list \<Rightarrow> string" where
  "join_colon [] = []"
| "join_colon [s] = s"
| "join_colon (s # t # ts) = s @ CHR '':'' # join_colon (t # ts)"

text \<open>A run is printed as \<open>::\<close> only when it covers two groups or more.\<close>

definition String6 :: "ip \<Rightarrow> string" where
  "String6 ip =
     (let gs = groups6 ip; hs = map appendHex gs; (e0, e1) = longest_run gs 0 0 0
      in if e1 - e0 \<le> 1 then join_colon hs
         else join_colon (take e0 hs) @ ''::'' @ join_colon (drop e1 hs))"

definition dotted :: "u8 list \<Rightarrow> string" where
  "dotted p = (case p of
     [a, b, c, d] \<Rightarrow> utoa (unat a) @ CHR ''.'' # utoa (unat b) @ CHR ''.'' # utoa (unat c) @ CHR ''.'' # utoa (unat d)
   | _ \<Rightarrow> [])"

definition IP_String :: "ip \<Rightarrow> string" where
  "IP_String ip =
     (if ip = [] then ''<nil>''
      else if length (To4 ip) = 4 then dotted (To4 ip)
      else if length ip \<noteq> 16 then CHR ''?'' # hexString ip
      else String6 ip)"

section \<open>Parsing\<close>

text \<open>One octet of the dotted form: the dot before it (but for the first), then digits.\<close>

fun parse_octets :: "nat \<Rightarrow> bool \<Rightarrow> string \<Rightarrow> (u8 list \<times> string) option" where
  "parse_octets 0 first s = Some ([], s)"
| "parse_octets (Suc k) first s =
     (case (if first then Some s
            else case s of c # s' \<Rightarrow> if c = CHR ''.'' then Some s' else None | [] \<Rightarrow> None) of
        None \<Rightarrow> None
      | Some s1 \<Rightarrow>
          (case dtoi s1 of (n, c, ok) \<Rightarrow>
             if \<not> ok \<or> 255 < n then None
             else (case parse_octets k False (drop c s1) of
                     None \<Rightarrow> None
                   | Some (bs, rest) \<Rightarrow> Some (word_of_nat n # bs, rest))))"

definition parseIPv4 :: "string \<Rightarrow> ip" where
  "parseIPv4 s = (case parse_octets 4 True s of
     Some (p, []) \<Rightarrow> v4InV6Prefix @ p
   | _ \<Rightarrow> [])"

definition hex_val :: "char \<Rightarrow> nat option" where
  "hex_val c = (let n = of_char c :: nat in
     if 48 \<le> n \<and> n \<le> 57 then Some (n - 48)
     else if 97 \<le> n \<and> n \<le> 102 then Some (n - 87)
     else if 65 \<le> n \<and> n \<le> 70 then Some (n - 55)
     else None)"

fun xtoi_loop :: "nat \<Rightarrow> nat \<Rightarrow> string \<Rightarrow> nat \<times> nat \<times> bool" where
  "xtoi_loop n i [] = (n, i, True)"
| "xtoi_loop n i (c # s) = (case hex_val c of
     None \<Rightarrow> (n, i, True)
   | Some d \<Rightarrow> if dtoi_big \<le> n * 16 + d then (0, i, False) else xtoi_loop (n * 16 + d) (Suc i) s)"

definition xtoi :: "string \<Rightarrow> nat \<times> nat \<times> bool" where
  "xtoi s = (case xtoi_loop 0 0 s of
      (n, i, ok) \<Rightarrow> if ok \<and> i = 0 then (0, 0, False) else (n, i, ok))"

definition finish6 :: "u8 list \<Rightarrow> nat option \<Rightarrow> string \<Rightarrow> ip" where
  "finish6 acc ell s =
     (if s \<noteq> [] then []
      else if length acc < 16 then
        (case ell of None \<Rightarrow> [] | Some e \<Rightarrow> take e acc @ replicate (16 - length acc) 0 @ drop e acc)
      else if ell \<noteq> None then []
      else acc)"

function parse6_loop :: "u8 list \<Rightarrow> nat option \<Rightarrow> string \<Rightarrow> ip" where
  "parse6_loop acc ell s =
     (if 16 \<le> length acc then finish6 acc ell s
      else case xtoi s of (n, c, ok) \<Rightarrow>
        if \<not> ok \<or> 65535 < n then []
        else if c < length s \<and> s ! c = CHR ''.'' then
          (if (ell = None \<and> length acc \<noteq> 12) \<or> 16 < length acc + 4 \<or> parseIPv4 s = [] then []
           else finish6 (acc @ drop 12 (parseIPv4 s)) ell [])
        else
          (let acc' = acc @ [word_of_nat (n div 256), word_of_nat (n mod 256)] in
           case drop c s of
             [] \<Rightarrow> finish6 acc' ell []
           | x # s' \<Rightarrow>
               if x \<noteq> CHR '':'' then []
               else (case s' of
                       [] \<Rightarrow> []
                     | y # s'' \<Rightarrow>
                         if y = CHR '':'' then
                           (if ell \<noteq> None then []
                            else if s'' = [] then finish6 acc' (Some (length acc')) []
                            else parse6_loop acc' (Some (length acc')) s'')
                         else parse6_loop acc' ell s')))"
  by pat_completeness auto
termination
  by (relation "measure (\<lambda>(acc, ell, s). 16 - length acc)") auto

definition parseIPv6 :: "string \<Rightarrow> ip" where
  "parseIPv6 s =
     (if has_prefix ''::'' s
      then (if s = ''::'' then replicate 16 0 else parse6_loop [] (Some 0) (drop 2 s))
      else parse6_loop [] None s)"

definition ParseIP :: "string \<Rightarrow> ip" where
  "ParseIP s = (case List.find (\<lambda>c. c = CHR ''.'' \<or> c = CHR '':'') s of
     None \<Rightarrow> []
   | Some c \<Rightarrow> if c = CHR ''.'' then parseIPv4 s else parseIPv6 s)"

text \<open>\<open>CIDRMask(n, 8 * len)\<close>, \<open>IP.Mask\<close> and \<open>ParseCIDR\<close>. A network is its address and its mask.\<close>

type_synonym ipnet = "ip \<times> u8 list"

definition CIDRMask :: "nat \<Rightarrow> nat \<Rightarrow> u8 list" where
  "CIDRMask n len = map (\<lambda>i. if 8 * Suc i \<le> n then 255
                              else if n \<le> 8 * i then 0
                              else word_of_nat (256 - 2 ^ (8 - (n - 8 * i)))) [0..<len]"

definition IP_Mask :: "ip \<Rightarrow> u8 list \<Rightarrow> ip" where
  "IP_Mask ip m =
     (let m' = (if length m = 16 \<and> length ip = 4 \<and> take 12 m = replicate 12 255
                   then drop 12 m else m);
          ip' = (if length m' = 4 \<and> length ip = 16 \<and> take 12 ip = v4InV6Prefix
                 then drop 12 ip else ip)
      in if length ip' \<noteq> length m' then []
         else map2 (and) ip' m')"

definition ParseCIDR :: "string \<Rightarrow> (ip \<times> ipnet) outcome" where
  "ParseCIDR s =
     (let addr = takeWhile (\<lambda>c. c \<noteq> CHR ''/'') s;
          m = drop (Suc (length addr)) s;
          ip4 = parseIPv4 addr;
          iplen = (if ip4 = [] then 16 else 4);
          ip = (if ip4 = [] then parseIPv6 addr else ip4)
      in if CHR ''/'' \<notin> set s then Err (''invalid CIDR address: '' @ s)
         else case dtoi m of (n, i, ok) \<Rightarrow>
           if ip = [] \<or> \<not> ok \<or> i \<noteq> length m \<or> 8 * iplen < n
           then Err (''invalid CIDR address: '' @ s)
           else Ok (ip, IP_Mask ip (CIDRMask n iplen), CIDRMask n iplen))"

section \<open>Facts on the dotted form\<close>

lemma dotted4 [simp]:
  "dotted [a, b, c, d] =
   utoa (unat a) @ CHR ''.'' # utoa (unat b) @ CHR ''.'' # utoa (unat c) @ CHR ''.'' # utoa (unat d)"
  by (simp add: dotted_def)

lemma unat_u8_less: "unat (b :: u8) < 256"
  using unsigned_less [of b] by simp

lemma unat_u8_le: "unat (b :: u8) \<le> 255"
  using unat_u8_less [of b] by simp

lemma not_digit_dot [simp]: "\<not> is_digit CHR ''.''"
  by (simp add: is_digit_def)

lemma not_digit_colon [simp]: "\<not> is_digit CHR '':''"
  by (simp add: is_digit_def)

lemma not_digit_slash [simp]: "\<not> is_digit CHR ''/''"
  by (simp add: is_digit_def)

lemma dotted_chars: "c \<in> set (dotted p) \<Longrightarrow> is_digit c \<or> c = CHR ''.''"
  by (auto simp: dotted_def dest: utoa_digits split: list.splits)

lemma IP_String_v4: "is_v4 ip \<Longrightarrow> IP_String ip = dotted (To4 ip)"
  using length_To4 [of ip] by (auto simp: IP_String_def is_v4_def)

lemma IP_String_v4_no_colon: "is_v4 ip \<Longrightarrow> CHR '':'' \<notin> set (IP_String ip)"
  using dotted_chars [of "CHR '':''"] by (auto simp: IP_String_v4)

lemma IP_String_nil: "IP_String [] = ''<nil>''"
  by (simp add: IP_String_def)

lemma dotted_inj:
  assumes "dotted [a, b, c, d] = dotted [a', b', c', d']"
  shows "[a, b, c, d] = [a', b', c', d']"
proof -
  note nd = utoa_no_sep [OF not_digit_dot]
  note eq = assms [unfolded dotted4]
  note s1 = split_at_sep [OF eq nd nd]
  note s2 = split_at_sep [OF conjunct2 [OF s1] nd nd]
  note s3 = split_at_sep [OF conjunct2 [OF s2] nd nd]
  from s1 s2 s3 show ?thesis by (simp add: word_unat_eq_iff)
qed

text \<open>Printing IPv4 addresses is injective up to the 4-byte and 16-byte forms.\<close>

lemma IP_String_v4_inj:
  assumes "is_v4 ip" and "is_v4 x"
  shows "IP_String ip = IP_String x \<longleftrightarrow> To4 ip = To4 x"
proof -
  obtain a b c d where ip: "To4 ip = [a, b, c, d]" using assms(1) by (rule is_v4_obtain)
  obtain a' b' c' d' where x: "To4 x = [a', b', c', d']" using assms(2) by (rule is_v4_obtain)
  show ?thesis
    using dotted_inj [of a b c d a' b' c' d'] by (auto simp: IP_String_v4 assms ip x)
qed

lemma parse_octets_first:
  assumes "parse_octets k False rest = r" and "no_digit_first rest"
  shows "parse_octets (Suc k) True (utoa (unat b) @ rest) =
    (case r of None \<Rightarrow> None | Some (bs, t) \<Rightarrow> Some ((b :: u8) # bs, t))"
  using assms dtoi_utoa [of "unat b" rest] unat_u8_less [of b]
  by (simp add: dtoi_big_def not_less unat_u8_le split: option.splits)

lemma parse_octets_next:
  assumes "parse_octets k False rest = r" and "no_digit_first rest"
  shows "parse_octets (Suc k) False (CHR ''.'' # utoa (unat b) @ rest) =
    (case r of None \<Rightarrow> None | Some (bs, t) \<Rightarrow> Some ((b :: u8) # bs, t))"
  using assms dtoi_utoa [of "unat b" rest] unat_u8_less [of b]
  by (simp add: dtoi_big_def not_less unat_u8_le split: option.splits)

lemma parse_octets_dotted: "parse_octets 4 True (dotted [a, b, c, d]) = Some ([a, b, c, d], [])"
proof -
  have 0: "parse_octets 0 False [] = Some ([], [])" by simp
  have 1: "parse_octets 1 False (CHR ''.'' # utoa (unat d)) = Some ([d], [])"
    using parse_octets_next [OF 0, of d] by simp
  have 2: "parse_octets 2 False (CHR ''.'' # utoa (unat c) @ CHR ''.'' # utoa (unat d)) = Some ([c, d], [])"
    using parse_octets_next [OF 1, of c] by (simp add: numeral_2_eq_2)
  have 3: "parse_octets 3 False (CHR ''.'' # utoa (unat b) @ CHR ''.'' # utoa (unat c) @ CHR ''.'' # utoa (unat d)) = Some ([b, c, d], [])"
    using parse_octets_next [OF 2, of b] by (simp add: numeral_3_eq_3 numeral_2_eq_2)
  show ?thesis
    using parse_octets_first [OF 3, of a] by (simp add: numeral_eq_Suc)
qed

lemma parseIPv4_dotted: "parseIPv4 (dotted [a, b, c, d]) = IPv4 a b c d"
  by (simp only: parseIPv4_def parse_octets_dotted) (simp add: IPv4_def)

lemma parseIPv4_String:
  assumes "is_v4 ip"
  shows "parseIPv4 (IP_String ip) = v4InV6Prefix @ To4 ip"
proof -
  obtain a b c d where ip: "To4 ip = [a, b, c, d]" using assms by (rule is_v4_obtain)
  show ?thesis
    using parseIPv4_dotted by (simp only: IP_String_v4 [OF assms] ip IPv4_def)
qed

lemma To4_prefix: "length p = 4 \<Longrightarrow> To4 (v4InV6Prefix @ p) = p"
  by (simp add: To4_def)

lemma length_To4_v4: "is_v4 ip \<Longrightarrow> length (To4 ip) = 4"
  using length_To4 [of ip] by (auto simp: is_v4_def)

lemma To4_canonical: "is_v4 ip \<Longrightarrow> To4 (v4InV6Prefix @ To4 ip) = To4 ip"
  by (simp add: To4_prefix length_To4_v4)

text \<open>\<open>ParseCIDR\<close> reads back a printed IPv4 address with a prefix length.\<close>

lemma takeWhile_until: "c \<notin> set s \<Longrightarrow> takeWhile (\<lambda>x. x \<noteq> c) (s @ c # t) = s"
  by (induction s) auto

lemma ParseCIDR_String:
  assumes "is_v4 ip" and "n \<le> 32"
  shows "\<exists>net. ParseCIDR (IP_String ip @ CHR ''/'' # utoa n) = Ok (v4InV6Prefix @ To4 ip, net)"
proof -
  have ns: "CHR ''/'' \<notin> set (IP_String ip)"
    using dotted_chars [of "CHR ''/''"] by (auto simp: IP_String_v4 assms)
  have "dtoi (utoa n @ []) = (n, length (utoa n), True)"
    by (rule dtoi_utoa) (use assms in \<open>auto simp: dtoi_big_def\<close>)
  moreover have "\<not> 32 < n" using assms by simp
  moreover have "v4InV6Prefix \<noteq> []" by (simp add: v4InV6Prefix_def)
  ultimately show ?thesis
    by (simp add: ParseCIDR_def takeWhile_until [OF ns] parseIPv4_String assms Let_def)
qed

lemma ParseIP_String:
  assumes "is_v4 ip"
  shows "ParseIP (IP_String ip) = v4InV6Prefix @ To4 ip"
proof -
  obtain a b c d where ip: "To4 ip = [a, b, c, d]" using assms by (rule is_v4_obtain)
  have "List.find (\<lambda>c. c = CHR ''.'' \<or> c = CHR '':'') (IP_String ip) = Some CHR ''.''"
  proof -
    have "CHR ''.'' \<in> set (IP_String ip)" by (simp add: IP_String_v4 assms ip)
    moreover have "CHR '':'' \<notin> set (IP_String ip)" by (rule IP_String_v4_no_colon [OF assms])
    ultimately obtain x where "List.find (\<lambda>c. c = CHR ''.'' \<or> c = CHR '':'') (IP_String ip) = Some x"
      by (cases "List.find (\<lambda>c. c = CHR ''.'' \<or> c = CHR '':'') (IP_String ip)") (auto simp: find_None_iff)
    then have "x \<in> set (IP_String ip)" and "x = CHR ''.'' \<or> x = CHR '':''"
      by (auto simp: find_Some_iff in_set_conv_nth)
    with \<open>CHR '':'' \<notin> set (IP_String ip)\<close> have "x = CHR ''.''" by auto
    then show ?thesis using \<open>List.find _ _ = Some x\<close> by simp
  qed
  then show ?thesis by (simp add: ParseIP_def parseIPv4_String assms)
qed

end
