(* ===== verification/KeyedMaps.thy ===== *)
theory KeyedMaps
  imports Prelude
begin

text \<open>
  Maps that are filled by key: the program stores flows and steering rules under a text key
  built from the flow. This theory holds the loop that accumulates items into such a map, and
  the interface \<open>key_encoding\<close>: what the program relies on of its keys. The lemmas about the
  accumulating loop are proved once, against the interface.
\<close>

section \<open>Accumulating into a map\<close>

definition upsert ::
    "('a \<Rightarrow> 'k) \<Rightarrow> ('a \<Rightarrow> 'v) \<Rightarrow> ('a \<Rightarrow> 'v \<Rightarrow> 'v) \<Rightarrow> ('k \<rightharpoonup> 'v) \<Rightarrow> 'a \<Rightarrow> ('k \<rightharpoonup> 'v)" where
  "upsert key new upd m x =
     m(key x \<mapsto> (case m (key x) of None \<Rightarrow> new x | Some v \<Rightarrow> upd x v))"

fun upsert_all ::
    "('a \<Rightarrow> 'k) \<Rightarrow> ('a \<Rightarrow> 'v) \<Rightarrow> ('a \<Rightarrow> 'v \<Rightarrow> 'v) \<Rightarrow> ('k \<rightharpoonup> 'v) \<Rightarrow> 'a list \<Rightarrow> ('k \<rightharpoonup> 'v)" where
  "upsert_all key new upd m [] = m"
| "upsert_all key new upd m (x # xs) = upsert_all key new upd (upsert key new upd m x) xs"

text \<open>What a weight of the values amounts to under a key, and over the whole map.\<close>

definition weight_at :: "('v \<Rightarrow> 'w::comm_monoid_add) \<Rightarrow> ('k \<rightharpoonup> 'v) \<Rightarrow> 'k \<Rightarrow> 'w" where
  "weight_at w m k = (case m k of None \<Rightarrow> 0 | Some v \<Rightarrow> w v)"

definition weight_total :: "('v \<Rightarrow> 'w::comm_monoid_add) \<Rightarrow> ('k \<rightharpoonup> 'v) \<Rightarrow> 'w" where
  "weight_total w m = (\<Sum>k\<in>dom m. weight_at w m k)"

lemma upsert_all_append:
  "upsert_all key new upd m (xs @ ys) = upsert_all key new upd (upsert_all key new upd m xs) ys"
  by (induction xs arbitrary: m) auto

lemma dom_upsert_all: "dom (upsert_all key new upd m xs) = dom m \<union> key ` set xs"
  by (induction xs arbitrary: m) (auto simp: upsert_def)

lemma finite_dom_upsert_all: "finite (dom m) \<Longrightarrow> finite (dom (upsert_all key new upd m xs))"
  by (simp add: dom_upsert_all)

lemma weight_at_empty [simp]: "weight_at w Map.empty k = 0"
  by (simp add: weight_at_def)

lemma weight_total_empty [simp]: "weight_total w Map.empty = 0"
  by (simp add: weight_total_def)

lemma weight_at_upsert:
  assumes "\<And>x. w (new x) = c x" and "\<And>x v. w (upd x v) = w v + c x"
  shows "weight_at w (upsert key new upd m x) k =
    weight_at w m k + (if key x = k then c x else 0)"
  using assms by (auto simp: weight_at_def upsert_def split: option.splits)

lemma weight_at_upsert_all:
  assumes "\<And>x. w (new x) = c x" and "\<And>x v. w (upd x v) = w v + c x"
  shows "weight_at w (upsert_all key new upd m xs) k =
    weight_at w m k + sum_list (map c (filter (\<lambda>x. key x = k) xs))"
proof (induction xs arbitrary: m)
  case Nil
  then show ?case by simp
next
  case (Cons x xs)
  show ?case
    by (simp add: Cons.IH weight_at_upsert [where c = c, OF assms] add.assoc)
qed

lemma weight_total_upsert:
  assumes "\<And>x. w (new x) = c x" and "\<And>x v. w (upd x v) = w v + c x" and "finite (dom m)"
  shows "weight_total w (upsert key new upd m x) = weight_total w m + c x"
proof -
  let ?m = "upsert key new upd m x"
  have dom: "dom ?m = insert (key x) (dom m)" by (auto simp: upsert_def)
  have "weight_total w ?m = (\<Sum>k\<in>insert (key x) (dom m). weight_at w m k + (if key x = k then c x else 0))"
    unfolding weight_total_def dom
    by (rule sum.cong) (simp_all add: weight_at_upsert [where c = c, OF assms(1,2)])
  also have "\<dots> = (\<Sum>k\<in>insert (key x) (dom m). weight_at w m k) + c x"
    using assms(3) by (simp add: sum.distrib)
  also have "(\<Sum>k\<in>insert (key x) (dom m). weight_at w m k) = weight_total w m"
    unfolding weight_total_def using assms(3)
    by (intro sum.mono_neutral_right) (auto simp: weight_at_def split: option.splits)
  finally show ?thesis .
qed

lemma weight_total_upsert_all:
  assumes "\<And>x. w (new x) = c x" and "\<And>x v. w (upd x v) = w v + c x" and "finite (dom m)"
  shows "weight_total w (upsert_all key new upd m xs) = weight_total w m + sum_list (map c xs)"
  using assms(3)
proof (induction xs arbitrary: m)
  case Nil
  then show ?case by simp
next
  case (Cons x xs)
  have "finite (dom (upsert key new upd m x))"
    using Cons.prems by (simp add: upsert_def)
  from Cons.IH [OF this] show ?case
    by (simp add: weight_total_upsert [where c = c, OF assms(1,2) Cons.prems] add.assoc)
qed

text \<open>Summing a range over the map gives the total, in whatever order the range runs.\<close>

lemma weight_total_range:
  assumes "range_order m ks"
  shows "sum_list (map (weight_at w m) ks) = weight_total w m"
  using assms by (simp add: weight_total_def range_order_def sum_list_distinct_conv_sum_set)

section \<open>The interface of a key\<close>

text \<open>
  \<open>key\<close> is the text a value is stored under, \<open>ident\<close> what the value stands for. On valid
  values the key determines, and is determined by, the identity.
\<close>

locale key_encoding =
  fixes key :: "'a \<Rightarrow> 'k" and ident :: "'a \<Rightarrow> 'i" and valid :: "'a \<Rightarrow> bool"
  assumes key_eq: "valid a \<Longrightarrow> valid b \<Longrightarrow> key a = key b \<longleftrightarrow> ident a = ident b"
begin

lemma filter_key:
  assumes "valid a" and "\<forall>x\<in>set xs. valid (f x)"
  shows "filter (\<lambda>x. key (f x) = key a) xs = filter (\<lambda>x. ident (f x) = ident a) xs"
  using assms key_eq by (intro filter_cong) auto

text \<open>What is accumulated under a valid key is what came in with its identity.\<close>

lemma accumulated_by_ident:
  assumes "\<And>x. w (new x) = c x" and "\<And>x v. w (upd x v) = w v + c x"
    and "valid a" and "\<forall>x\<in>set xs. valid (f x)"
  shows "weight_at w (upsert_all (\<lambda>x. key (f x)) new upd m xs) (key a) =
    weight_at w m (key a) + sum_list (map c (filter (\<lambda>x. ident (f x) = ident a) xs))"
  by (simp add: weight_at_upsert_all [where c = c, OF assms(1,2)] filter_key [OF assms(3,4)])

text \<open>Looking a valid key up in a list of values finds the value with the same identity.\<close>

lemma find_by_key:
  assumes "valid a" and "\<forall>x\<in>set xs. valid x"
  shows "List.find (\<lambda>x. key x = key a) xs = List.find (\<lambda>x. ident x = ident a) xs"
  using assms(2)
proof (induction xs)
  case Nil
  then show ?case by simp
next
  case (Cons x xs)
  then show ?case using key_eq [of x a] assms(1) by auto
qed

lemma distinct_keys:
  assumes "\<forall>x\<in>set xs. valid x"
  shows "distinct (map key xs) \<longleftrightarrow> distinct (map ident xs)"
  using assms
proof (induction xs)
  case Nil
  then show ?case by simp
next
  case (Cons x xs)
  have "key x \<in> key ` set xs \<longleftrightarrow> ident x \<in> ident ` set xs"
    using Cons.prems key_eq by (auto simp: image_iff)
  then show ?case using Cons by simp
qed

end

section \<open>Simulation\<close>

text \<open>
  A machine that implements an abstract one: its operations keep an invariant under which their
  effect is the abstract operation's. So do all sequences of them.
\<close>

locale simulation =
  fixes abs :: "'s \<Rightarrow> 'a" and inv :: "'s \<Rightarrow> bool" and step :: "'p \<Rightarrow> 's \<Rightarrow> 's" and astep :: "'p \<Rightarrow> 'a \<Rightarrow> 'a"
  assumes step_abs: "inv s \<Longrightarrow> abs (step p s) = astep p (abs s)" and step_inv: "inv s \<Longrightarrow> inv (step p s)"
begin

definition run :: "'p list \<Rightarrow> 's \<Rightarrow> 's" where
  "run ps s = foldl (\<lambda>s p. step p s) s ps"

definition arun :: "'p list \<Rightarrow> 'a \<Rightarrow> 'a" where
  "arun ps a = foldl (\<lambda>a p. astep p a) a ps"

lemma run_inv: "inv s \<Longrightarrow> inv (run ps s)"
  unfolding run_def by (induction ps arbitrary: s) (simp_all add: step_inv)

lemma run_abs: "inv s \<Longrightarrow> abs (run ps s) = arun ps (abs s)"
  unfolding run_def arun_def by (induction ps arbitrary: s) (simp_all add: step_inv step_abs)

end

end
