(* ===== verification/FlowKeys.thy ===== *)
theory FlowKeys
  imports NetIP KeyedMaps
begin

text \<open>
  The data of the public API (\<open>pkg/hal/api.go\<close>) and its text forms (\<open>pkg/hal/fmt.go\<close>):
  protocols, flow keys, telemetry records, the map key \<open>AsKey\<close> under which flows and
  steering rules are stored, and the debug printer of flows. The main facts: \<open>AsKey\<close>
  identifies an IPv4 flow (it does not identify an IPv6 flow), and a protocol's text is read
  back for TCP and UDP.
\<close>

section \<open>Protocols\<close>

type_synonym FlowProto = u8

definition TCP :: FlowProto where
  "TCP = 0x06"

definition UDP :: FlowProto where
  "UDP = 0x11"

definition FlowProto_String :: "FlowProto \<Rightarrow> string" where
  "FlowProto_String p =
     (case [TCP \<mapsto> ''tcp(0x06)'', UDP \<mapsto> ''udp(0x11)''] p of
        Some s \<Rightarrow> s
      | None \<Rightarrow> utoa (unat p))"

text \<open>
  The table \<open>InitNetConf\<close> and \<open>GetSteerInterface\<close> read a device's protocol text with; a
  missing key of a Go map reads as the zero value.
\<close>

definition protocols :: "string \<rightharpoonup> FlowProto" where
  "protocols = [''tcp(0x06)'' \<mapsto> TCP, ''udp(0x11)'' \<mapsto> UDP]"

definition protocol_of :: "string \<Rightarrow> FlowProto" where
  "protocol_of s = (case protocols s of Some p \<Rightarrow> p | None \<Rightarrow> 0)"

lemma TCP_neq_UDP [simp]: "TCP \<noteq> UDP" "UDP \<noteq> TCP"
  by (simp_all add: TCP_def UDP_def)

lemma utoa_no_paren: "CHR ''('' \<notin> set (utoa n)"
  by (rule utoa_no_sep) (simp add: is_digit_def)

lemma protocol_of_utoa [simp]: "protocol_of (utoa n) = 0"
  using utoa_no_paren [of n] by (auto simp: protocol_of_def protocols_def)

lemma FlowProto_String_cases:
  "FlowProto_String p =
   (if p = TCP then ''tcp(0x06)'' else if p = UDP then ''udp(0x11)'' else utoa (unat p))"
  by (simp add: FlowProto_String_def)

lemma protocol_of_String:
  "protocol_of (FlowProto_String p) = (if p = TCP \<or> p = UDP then p else 0)"
  by (simp add: FlowProto_String_cases) (auto simp: protocol_of_def protocols_def)

section \<open>Flow keys\<close>

record FlowKey =
  Protocol :: FlowProto
  SrcAddr :: ip
  DstAddr :: ip
  SrcPort :: u16
  DstPort :: u16

record SteerItem =
  Rule :: FlowKey
  NextHop :: string

text \<open>\<open>fmt.Sprintf("%d:%s:%s:%d:%d", ...)\<close>\<close>

definition AsKey :: "FlowKey \<Rightarrow> string" where
  "AsKey fk =
     utoa (unat (Protocol fk)) @ CHR '':'' #
     IP_String (SrcAddr fk) @ CHR '':'' # IP_String (DstAddr fk) @ CHR '':'' #
     utoa (unat (SrcPort fk)) @ CHR '':'' # utoa (unat (DstPort fk))"

definition FlowKey_String :: "FlowKey \<Rightarrow> string" where
  "FlowKey_String fk =
     IP_String (SrcAddr fk) @ CHR '':'' # utoa (unat (SrcPort fk)) @ '' -> '' @
     IP_String (DstAddr fk) @ CHR '':'' # utoa (unat (DstPort fk)) @
     '' ('' @ FlowProto_String (Protocol fk) @ '')''"

text \<open>A flow between IPv4 addresses, and the flow a key stands for.\<close>

definition v4_flow :: "FlowKey \<Rightarrow> bool" where
  "v4_flow fk \<longleftrightarrow> is_v4 (SrcAddr fk) \<and> is_v4 (DstAddr fk)"

definition flow_id :: "FlowKey \<Rightarrow> u8 \<times> ip \<times> ip \<times> u16 \<times> u16" where
  "flow_id fk = (Protocol fk, To4 (SrcAddr fk), To4 (DstAddr fk), SrcPort fk, DstPort fk)"

text \<open>
  Both addresses print without a colon, so the four colons of the key are the ones of the
  format and each field can be cut out again.
\<close>

lemma AsKey_inj:
  assumes "v4_flow a" and "v4_flow b"
  shows "AsKey a = AsKey b \<longleftrightarrow> flow_id a = flow_id b"
proof
  assume "AsKey a = AsKey b"
  note eq = this [unfolded AsKey_def]
  note nd = utoa_no_sep [OF not_digit_colon]
  have nc: "CHR '':'' \<notin> set (IP_String (SrcAddr a))" "CHR '':'' \<notin> set (IP_String (SrcAddr b))"
    "CHR '':'' \<notin> set (IP_String (DstAddr a))" "CHR '':'' \<notin> set (IP_String (DstAddr b))"
    using assms by (auto simp: v4_flow_def IP_String_v4_no_colon)
  note s1 = split_at_sep [OF eq nd nd]
  note s2 = split_at_sep [OF conjunct2 [OF s1] nc(1,2)]
  note s3 = split_at_sep [OF conjunct2 [OF s2] nc(3,4)]
  note s4 = split_at_sep [OF conjunct2 [OF s3] nd nd]
  from s1 s2 s3 s4 assms show "flow_id a = flow_id b"
    by (simp add: flow_id_def v4_flow_def IP_String_v4_inj word_unat_eq_iff)
next
  assume "flow_id a = flow_id b"
  with assms show "AsKey a = AsKey b"
    by (simp add: flow_id_def v4_flow_def AsKey_def IP_String_v4)
qed

text \<open>So the key is a key encoding of IPv4 flows: the component that stores under it relies on this.\<close>

interpretation flow_key: key_encoding AsKey flow_id v4_flow
  by unfold_locales (rule AsKey_inj)

section \<open>Telemetry\<close>

record InterfaceTelemetry =
  Speed :: u64
  RxBytes :: u64
  RxBps :: u64
  TxBytes :: u64
  TxBps :: u64
  LinkDelay :: f64
  LinkJitter :: f64

record FlowTelemetry =
  RxRatePps :: u64
  TxRatePps :: u64
  RxRateBps :: u64
  TxRateBps :: u64
  RxTotalPkts :: u64
  TxTotalPkts :: u64
  RxTotalBytes :: u64
  TxTotalBytes :: u64
  IngressIf :: string
  EgressIf :: string

type_synonym TunnelType = int

definition RSVP :: TunnelType where
  "RSVP = 0"

definition VXLAN :: TunnelType where
  "VXLAN = 1"

definition FlowTelemetry_String :: "FlowTelemetry \<Rightarrow> string" where
  "FlowTelemetry_String fm =
     ''stats(interfaces: in='' @ IngressIf fm @ '', out='' @ EgressIf fm @
     ''; total: rx_bytes='' @ utoa (unat (RxTotalBytes fm)) @
     '', rx_pkts='' @ utoa (unat (RxTotalPkts fm)) @
     '', tx_bytes='' @ utoa (unat (TxTotalBytes fm)) @
     '', tx_pkts='' @ utoa (unat (TxTotalPkts fm)) @
     ''; rate: rx_bps='' @ utoa (unat (RxRateBps fm)) @
     '', rx_pps='' @ utoa (unat (RxRatePps fm)) @
     '', tx_bps='' @ utoa (unat (TxRateBps fm)) @
     '', tx_pps='' @ utoa (unat (TxRatePps fm))"

section \<open>The flow debugger\<close>

record FlowsDebugger =
  dbg_flows :: "string list"

definition NewFlowsDebugger :: FlowsDebugger where
  "NewFlowsDebugger = \<lparr>dbg_flows = []\<rparr>"

definition tab :: string where
  "tab = [char_of (9 :: nat)]"

definition newline :: string where
  "newline = [char_of (10 :: nat)]"

definition Debugger_Flow :: "FlowsDebugger \<Rightarrow> FlowKey \<Rightarrow> FlowTelemetry \<Rightarrow> FlowsDebugger" where
  "Debugger_Flow dbg key stat = dbg\<lparr>dbg_flows := dbg_flows dbg @
     [IP_String (SrcAddr key) @ CHR '':'' # utoa (unat (SrcPort key)) @ tab @
      IP_String (DstAddr key) @ CHR '':'' # utoa (unat (DstPort key)) @ tab @
      FlowProto_String (Protocol key) @ tab @
      IngressIf stat @ tab @ EgressIf stat @ tab @
      utoa (unat (RxRatePps stat)) @ tab @ utoa (unat (RxTotalPkts stat)) @ tab @
      utoa (unat (RxRateBps stat)) @ tab @ utoa (unat (RxTotalBytes stat)) @ tab @ newline]\<rparr>"

text \<open>
  What \<open>Print\<close> hands to its writers: the two header lines and the rows, sorted as byte
  strings, through the tab writer, then \<open>(none)\<close> past it when there is no row. Aligning the
  columns is the tab writer's. The file that cannot be opened prints nothing.
\<close>

definition Debugger_Print :: "bool \<Rightarrow> FlowsDebugger \<Rightarrow> string list \<times> string list" where
  "Debugger_Print opened dbg =
     (if \<not> opened then ([], [])
      else
       ([''Source'' @ tab @ ''Destination'' @ tab @ ''Proto'' @ tab @ ''Ingress'' @ tab @ ''Egress'' @ tab @
         ''Pkt/sec'' @ tab @ ''Pkt/total'' @ tab @ ''Bytes/sec'' @ tab @ ''Bytes/total'' @ tab @ newline,
         ''------'' @ tab @ ''-----------'' @ tab @ ''-----'' @ tab @ ''-------'' @ tab @ ''------'' @ tab @
         ''-------'' @ tab @ ''---------'' @ tab @ ''---------'' @ tab @ ''-----------'' @ tab @ newline]
        @ sort (dbg_flows dbg),
        (if dbg_flows dbg = [] then [''(none)'' @ newline] else [])))"

end
