(* ===== verification/Gnmi.thy ===== *)
theory Gnmi
  imports FlowKeys
begin

text \<open>
  The gNMI side of the program: the credentials, the interface monitor of \<open>gnmi.go\<close> (its
  subscriptions and its handling of a notification), and \<open>getDnIfIndex\<close> and
  \<open>interfaceOperPaths\<close> of \<open>hal.go\<close>. The gNMI client library, its subscription manager, the
  path parser of ygot and the JSON decoding of a counter object are parameters.
\<close>

section \<open>Notifications and replies\<close>

text \<open>What the code reads of the protocol's messages: the path's elements and the JSON bytes.\<close>

record PathElem =
  ElemName :: string
  ElemKey :: "string \<rightharpoonup> string"

record GnmiUpdate =
  UpdPath :: "PathElem list"
  JsonVal :: string

type_synonym Notification = "GnmiUpdate list"

text \<open>Reading a missing key of a Go map gives the empty string.\<close>

definition key_or_empty :: "(string \<rightharpoonup> string) \<Rightarrow> string \<Rightarrow> string" where
  "key_or_empty m k = (case m k of Some v \<Rightarrow> v | None \<Rightarrow> [])"

section \<open>Credentials\<close>

record DnCredentials =
  cred_user :: string
  cred_password :: string

definition Credentials_Lookup :: "DnCredentials \<Rightarrow> string \<Rightarrow> string outcome" where
  "Credentials_Lookup dn user =
     (if user = cred_user dn then Ok (cred_password dn) else Err (''unknown user '' @ user))"

section \<open>Paths\<close>

definition interfaceSpeedPath :: "string \<Rightarrow> string" where
  "interfaceSpeedPath lower =
     ''/drivenets-top/interfaces/interface[name='' @ lower @ '']/oper-items/interface-speed''"

definition interfaceCountersPath :: "string \<Rightarrow> string" where
  "interfaceCountersPath lower =
     ''/drivenets-top/interfaces/interface[name='' @ lower @ '']/oper-items/counters/ethernet-counters''"

definition interfaceOperPaths :: "string \<Rightarrow> string \<times> string" where
  "interfaceOperPaths lower = (interfaceSpeedPath lower, interfaceCountersPath lower)"

definition ifIndexPath :: "string \<Rightarrow> string" where
  "ifIndexPath lower =
     ''/drivenets-top/interfaces/interface[name='' @ lower @ '']/oper-items/if-index''"

section \<open>The interface index of a device port\<close>

text \<open>
  \<open>json.Unmarshal\<close> into a \<open>uint32\<close>: blanks around the value are skipped, \<open>null\<close> leaves the
  zero value, and any value but an unsigned decimal literal below \<open>2^32\<close> is an error.
\<close>

definition json_blank :: "char \<Rightarrow> bool" where
  "json_blank c \<longleftrightarrow> (of_char c :: nat) \<in> {32, 9, 10, 13}"

definition json_trim :: "string \<Rightarrow> string" where
  "json_trim s = rev (dropWhile json_blank (rev (dropWhile json_blank s)))"

definition json_uint32 :: "string \<Rightarrow> u32 outcome" where
  "json_uint32 s =
     (let t = json_trim s in
      if t = ''null'' then Ok 0
      else if 1 < length t \<and> hd t = CHR ''0'' then Err ''invalid character''
      else bind_outcome (ParseUint t 32) (\<lambda>n. Ok (word_of_nat n)))"

text \<open>
  The client: ygot's path parser and the unary \<open>Get\<close>, which answers a path with the
  notifications of its reply.
\<close>

record 'p gnmi_client =
  StringToPath :: "string \<Rightarrow> 'p outcome"
  GnmiGet :: "'p \<Rightarrow> Notification list outcome"

definition getDnIfIndex :: "'p gnmi_client \<Rightarrow> string \<Rightarrow> u32 outcome" where
  "getDnIfIndex client lower =
     (case StringToPath client (ifIndexPath lower) of
        Ok pbPath \<Rightarrow>
          (case GnmiGet client pbPath of
             Ok notifs \<Rightarrow>
               if length notifs \<noteq> 1 then Err (''unexpected notifications count: want 1, got '' @ utoa (length notifs) @ '', path='' @ ifIndexPath lower)
               else (let updates = hd notifs in
                     if length updates \<noteq> 1 then Err (''unexpected updates count: want 1, got '' @ utoa (length updates) @ '', path='' @ ifIndexPath lower)
                     else (case json_uint32 (JsonVal (hd updates)) of
                             Ok ifIndex \<Rightarrow> Ok ifIndex
                           | _ \<Rightarrow> Fatal ''failed to convert value''))
           | _ \<Rightarrow> Err ''request failed for path'')
      | _ \<Rightarrow> Err ''failed to convert to gNMI Path'')"

lemma getDnIfIndex_no_panic: "getDnIfIndex client lower \<noteq> Panic e"
  by (simp add: getDnIfIndex_def Let_def split: outcome.splits)

lemma getDnIfIndex_not_blocked: "getDnIfIndex client lower \<noteq> Blocked"
  by (simp add: getDnIfIndex_def Let_def split: outcome.splits)

section \<open>The interface monitor\<close>

text \<open>
  The manager keeps a set of subscribed targets by name. \<open>Add\<close> sends one request with two
  sampled paths; its own error is dropped by the code, the error of \<open>Remove\<close> is returned.
\<close>

record SubscribeRequest =
  SubPaths :: "(string \<times> i64) list"

record 'm target_manager =
  mgr_Add :: "'m \<Rightarrow> string \<Rightarrow> SubscribeRequest \<Rightarrow> 'm"
  mgr_Remove :: "'m \<Rightarrow> string \<Rightarrow> 'm \<times> string option"

record 'm InterfaceMonitor =
  im_UpdateInterval :: i64
  im_Manager :: 'm

definition Monitor_Add :: "'m target_manager \<Rightarrow> 'm InterfaceMonitor \<Rightarrow> string \<Rightarrow> 'm InterfaceMonitor" where
  "Monitor_Add tm im name =
     (let (speed, counters) = interfaceOperPaths name;
          request = \<lparr>SubPaths = [(speed, im_UpdateInterval im), (counters, im_UpdateInterval im)]\<rparr>
      in im\<lparr>im_Manager := mgr_Add tm (im_Manager im) name request\<rparr>)"

definition Monitor_Remove ::
    "'m target_manager \<Rightarrow> 'm InterfaceMonitor \<Rightarrow> string \<Rightarrow> 'm InterfaceMonitor \<times> string option" where
  "Monitor_Remove tm im name =
     (case mgr_Remove tm (im_Manager im) name of (m, err) \<Rightarrow> (im\<lparr>im_Manager := m\<rparr>, err))"

section \<open>Handling a notification\<close>

record InterfaceUpdate =
  IfuName :: string
  IfuStats :: InterfaceTelemetry

datatype channel_send = SpeedChan InterfaceUpdate | StatsChan InterfaceUpdate

definition zero_f64 :: f64 where
  "zero_f64 = F64 0"

definition zero_telemetry :: InterfaceTelemetry where
  "zero_telemetry = \<lparr>Speed = 0, RxBytes = 0, RxBps = 0, TxBytes = 0, TxBps = 0,
     LinkDelay = zero_f64, LinkJitter = zero_f64\<rparr>"

fun update_ifname :: "PathElem list \<Rightarrow> string" where
  "update_ifname [] = []"
| "update_ifname (e # es) =
     (if ElemName e = ''interface'' then key_or_empty (ElemKey e) ''name'' else update_ifname es)"

text \<open>
  \<open>Update\<close> in order: the sends it makes and, when a value cannot be decoded, the fatal log
  that ends the process. \<open>unmarshal\<close> decodes a counter object.
\<close>

fun Monitor_Update :: "(string \<Rightarrow> InterfaceTelemetry outcome) \<Rightarrow> Notification \<Rightarrow> channel_send list \<times> unit outcome" where
  "Monitor_Update unmarshal [] = ([], Ok ())"
| "Monitor_Update unmarshal (u # us) =
     (let ifname = update_ifname (UpdPath u) in
      if ifname = [] then Monitor_Update unmarshal us
      else if ElemName (last (UpdPath u)) = ''interface-speed'' then
        (case ParseUint (JsonVal u) 64 of
           Ok speed \<Rightarrow>
             (case Monitor_Update unmarshal us of (sends, r) \<Rightarrow>
                (SpeedChan \<lparr>IfuName = ifname, IfuStats = zero_telemetry\<lparr>Speed := word_of_nat speed\<rparr>\<rparr> # sends, r))
         | _ \<Rightarrow> ([], Fatal ''Failed to parse interface speed update''))
      else
        (case unmarshal (JsonVal u) of
           Ok stats \<Rightarrow>
             (case Monitor_Update unmarshal us of (sends, r) \<Rightarrow>
                (StatsChan \<lparr>IfuName = ifname, IfuStats = stats\<rparr> # sends, r))
         | _ \<Rightarrow> ([], Fatal ''Failed to unpack interface stats update'')))"

lemma update_ifname_nonempty: "update_ifname es \<noteq> [] \<Longrightarrow> es \<noteq> []"
  by auto

end
