(* ===== verification/Registry.thy ===== *)
theory Registry
  imports Gnmi
begin

text \<open>
  The interface registry of \<open>pkg/hal/hal.go\<close> (\<open>hal.interfaces.Map\<close>): the \<open>Interface\<close>
  objects, the four maps that point at them, the two sorted name lists, and every operation
  on them. The maps share their objects by pointer, and telemetry is written through one map
  and read through another, so the objects live in an explicit store and the maps hold
  addresses. The main facts: the registry invariant, that every operation keeps it, and what
  lookups and visits see in a registry that satisfies it.
\<close>

section \<open>Interfaces and their options\<close>

definition NETFLOW_ID_INVALID :: u32 where
  "NETFLOW_ID_INVALID = 0xFFFFFFFF"

record Interface =
  Upper :: string
  Lower :: string
  NetFlowId :: u32
  IfNextHop :: ip
  Stats :: InterfaceTelemetry
  TwampPeer :: string
  TwampPort :: u16

type_synonym OptionInterface = "Interface \<Rightarrow> Interface outcome"

definition OptionInterfaceUpper :: "string \<Rightarrow> OptionInterface" where
  "OptionInterfaceUpper name ifc = Ok (ifc\<lparr>Upper := name\<rparr>)"

definition OptionInterfaceLower :: "string \<Rightarrow> OptionInterface" where
  "OptionInterfaceLower name ifc = Ok (ifc\<lparr>Lower := name\<rparr>)"

definition OptionInterfaceNetFlowId :: "u32 \<Rightarrow> OptionInterface" where
  "OptionInterfaceNetFlowId nfid ifc = Ok (ifc\<lparr>NetFlowId := nfid\<rparr>)"

definition OptionInterfaceUpdateNetFlowId :: "'p gnmi_client \<Rightarrow> OptionInterface" where
  "OptionInterfaceUpdateNetFlowId client ifc =
     bind_outcome (getDnIfIndex client (Lower ifc)) (\<lambda>nfid. Ok (ifc\<lparr>NetFlowId := nfid\<rparr>))"

definition OptionInterfaceNextHop :: "string \<Rightarrow> OptionInterface" where
  "OptionInterfaceNextHop nh ifc = Ok (ifc\<lparr>IfNextHop := ParseIP nh\<rparr>)"

definition OptionInterfaceTwamp :: "string \<Rightarrow> u16 \<Rightarrow> OptionInterface" where
  "OptionInterfaceTwamp peer port ifc = Ok (ifc\<lparr>TwampPeer := peer, TwampPort := port\<rparr>)"

definition IsWan :: "Interface \<Rightarrow> bool" where
  "IsWan ifc =
     (if To4 (IfNextHop ifc) \<noteq> [] then \<not> IP_Equal (IfNextHop ifc) IPv4zero
      else \<not> IP_Equal (IfNextHop ifc) IPv6zero)"

definition fresh_interface :: Interface where
  "fresh_interface =
     \<lparr>Upper = [], Lower = [], NetFlowId = NETFLOW_ID_INVALID, IfNextHop = ParseIP ''0.0.0.0'',
      Stats = zero_telemetry, TwampPeer = [], TwampPort = 0\<rparr>"

fun apply_options :: "OptionInterface list \<Rightarrow> Interface \<Rightarrow> Interface outcome" where
  "apply_options [] ifc = Ok ifc"
| "apply_options (op # ops) ifc = bind_outcome (op ifc) (apply_options ops)"

section \<open>The registry\<close>

record 'm registry =
  store :: "nat \<rightharpoonup> Interface"
  next_ref :: nat
  LanSorted :: "string list"
  WanSorted :: "string list"
  Upper2Interface :: "string \<rightharpoonup> nat"
  Lower2Interface :: "string \<rightharpoonup> nat"
  NetFlow2Interface :: "u32 \<rightharpoonup> nat"
  NextHop2Interface :: "string \<rightharpoonup> nat"
  monitor :: "'m InterfaceMonitor option"

text \<open>The first lines of \<open>InitInterfaces\<close>: fresh lists and maps.\<close>

definition registry_reset :: "'m registry \<Rightarrow> 'm registry" where
  "registry_reset reg = reg\<lparr>LanSorted := [], WanSorted := [], Upper2Interface := Map.empty,
     Lower2Interface := Map.empty, NetFlow2Interface := Map.empty,
     NextHop2Interface := Map.empty\<rparr>"

text \<open>
  \<open>NewInterface\<close> under the map lock. The first part, registering an object, is the part
  after the options have been applied and the name found free.
\<close>

definition register_interface :: "'m target_manager \<Rightarrow> Interface \<Rightarrow> 'm registry \<Rightarrow> 'm registry" where
  "register_interface tm ifc reg =
     (let r = next_ref reg;
          reg1 = reg\<lparr>store := (store reg)(r \<mapsto> ifc), next_ref := Suc r,
                     Lower2Interface := (Lower2Interface reg)(Lower ifc \<mapsto> r),
                     Upper2Interface := (Upper2Interface reg)(Upper ifc \<mapsto> r)\<rparr>;
          reg2 = (if NetFlowId ifc \<noteq> NETFLOW_ID_INVALID
                  then reg1\<lparr>NetFlow2Interface := (NetFlow2Interface reg1)(NetFlowId ifc \<mapsto> r)\<rparr>
                  else reg1);
          reg3 = (if IsWan ifc
                  then reg2\<lparr>NextHop2Interface := (NextHop2Interface reg2)(Upper ifc \<mapsto> r),
                            WanSorted := sort (WanSorted reg2 @ [Upper ifc])\<rparr>
                  else reg2\<lparr>LanSorted := sort (LanSorted reg2 @ [Upper ifc])\<rparr>)
      in reg3\<lparr>monitor := map_option (\<lambda>im. Monitor_Add tm im (Lower ifc)) (monitor reg3)\<rparr>)"

definition NewInterface ::
    "'m target_manager \<Rightarrow> OptionInterface list \<Rightarrow> 'm registry \<Rightarrow> nat outcome \<times> 'm registry" where
  "NewInterface tm options reg =
     (case apply_options options fresh_interface of
        Ok ifc \<Rightarrow>
          if Upper2Interface reg (Upper ifc) \<noteq> None
          then (Err (''interface '' @ Upper ifc @ '' already exists''), reg)
          else (Ok (next_ref reg), register_interface tm ifc reg)
      | Err e \<Rightarrow> (Err e, reg)
      | Fatal e \<Rightarrow> (Fatal e, reg)
      | Panic e \<Rightarrow> (Panic e, reg)
      | Blocked \<Rightarrow> (Blocked, reg))"

fun remove_name :: "string list \<Rightarrow> string \<Rightarrow> string list" where
  "remove_name [] needle = []"
| "remove_name (item # haystack) needle =
     (if item = needle then haystack else item # remove_name haystack needle)"

definition unregister_interface :: "Interface \<Rightarrow> 'm registry \<Rightarrow> 'm registry" where
  "unregister_interface ifc reg =
     reg\<lparr>Lower2Interface := (Lower2Interface reg)(Lower ifc := None),
         Upper2Interface := (Upper2Interface reg)(Upper ifc := None),
         NetFlow2Interface :=
           (if NetFlowId ifc \<noteq> NETFLOW_ID_INVALID
            then (NetFlow2Interface reg)(NetFlowId ifc := None) else NetFlow2Interface reg),
         NextHop2Interface := (NextHop2Interface reg)(Upper ifc := None),
         WanSorted := remove_name (WanSorted reg) (Upper ifc),
         LanSorted := remove_name (LanSorted reg) (Upper ifc)\<rparr>"

text \<open>
  An address the maps hold is dereferenced; an address without an object cannot occur in a
  running program and reads as a nil pointer here.
\<close>

definition RemoveInterface :: "'m target_manager \<Rightarrow> string \<Rightarrow> 'm registry \<Rightarrow> unit outcome \<times> 'm registry" where
  "RemoveInterface tm name reg =
     (case Upper2Interface reg name of
        None \<Rightarrow> (Ok (), reg)
      | Some r \<Rightarrow>
          (case store reg r of
             None \<Rightarrow> (Panic ''nil pointer'', reg)
           | Some ifc \<Rightarrow>
               (let reg1 = unregister_interface ifc reg in
                case monitor reg1 of
                  None \<Rightarrow> (Ok (), reg1)
                | Some im \<Rightarrow>
                    (case Monitor_Remove tm im (Lower ifc) of
                       (im', None) \<Rightarrow> (Ok (), reg1\<lparr>monitor := Some im'\<rparr>)
                     | (im', Some e) \<Rightarrow>
                         (Err (''failed to remove interface monitor '' @ Lower ifc),
                          reg1\<lparr>monitor := Some im'\<rparr>)))))"

section \<open>Lookups and copies\<close>

definition findInterfaceByLower :: "'m registry \<Rightarrow> string \<Rightarrow> nat option" where
  "findInterfaceByLower reg lower = Lower2Interface reg lower"

definition findInterfaceByNetFlowId :: "'m registry \<Rightarrow> u32 \<Rightarrow> nat option" where
  "findInterfaceByNetFlowId reg nfid = NetFlow2Interface reg nfid"

definition findInterfaceByNextHop :: "'m registry \<Rightarrow> string \<Rightarrow> nat option" where
  "findInterfaceByNextHop reg nh = NextHop2Interface reg nh"

definition copyLanInterfaces :: "'m registry \<Rightarrow> nat option list" where
  "copyLanInterfaces reg = map (Upper2Interface reg) (LanSorted reg)"

definition copyWanInterfaces :: "'m registry \<Rightarrow> nat option list" where
  "copyWanInterfaces reg = map (Upper2Interface reg) (WanSorted reg)"

text \<open>The object a pointer leads to.\<close>

definition deref :: "'m registry \<Rightarrow> nat option \<Rightarrow> Interface option" where
  "deref reg p = Option.bind p (store reg)"

section \<open>Telemetry updates\<close>

definition modify_object :: "nat \<Rightarrow> (Interface \<Rightarrow> Interface) \<Rightarrow> 'm registry \<Rightarrow> 'm registry" where
  "modify_object r f reg = reg\<lparr>store := (store reg)(r := map_option f (store reg r))\<rparr>"

definition updateInterfaceDelayJitter :: "string \<Rightarrow> f64 \<Rightarrow> f64 \<Rightarrow> 'm registry \<Rightarrow> 'm registry" where
  "updateInterfaceDelayJitter upper delay jitter reg =
     (case Upper2Interface reg upper of
        None \<Rightarrow> reg
      | Some r \<Rightarrow> modify_object r
          (\<lambda>ifc. ifc\<lparr>Stats := (Stats ifc)\<lparr>LinkDelay := delay, LinkJitter := jitter\<rparr>\<rparr>) reg)"

text \<open>The two channel cases of the monitor loop.\<close>

definition handleSpeed :: "InterfaceUpdate \<Rightarrow> 'm registry \<Rightarrow> 'm registry" where
  "handleSpeed u reg =
     (case findInterfaceByLower reg (IfuName u) of
        None \<Rightarrow> reg
      | Some r \<Rightarrow> modify_object r
          (\<lambda>ifc. ifc\<lparr>Stats := (Stats ifc)\<lparr>Speed := Speed (IfuStats u)\<rparr>\<rparr>) reg)"

definition handleStats :: "InterfaceUpdate \<Rightarrow> 'm registry \<Rightarrow> 'm registry" where
  "handleStats u reg =
     (case findInterfaceByLower reg (IfuName u) of
        None \<Rightarrow> reg
      | Some r \<Rightarrow> modify_object r
          (\<lambda>ifc. ifc\<lparr>Stats := (Stats ifc)\<lparr>RxBytes := RxBytes (IfuStats u),
             RxBps := RxBps (IfuStats u), TxBytes := TxBytes (IfuStats u),
             TxBps := TxBps (IfuStats u)\<rparr>\<rparr>) reg)"

text \<open>
  The start of the monitor: it becomes the global monitor, then every LAN and WAN interface
  is subscribed, in the order of the sorted lists.
\<close>

fun subscribe_all ::
    "'m target_manager \<Rightarrow> 'm registry \<Rightarrow> nat option list \<Rightarrow> 'm InterfaceMonitor \<Rightarrow> 'm InterfaceMonitor outcome" where
  "subscribe_all tm reg [] im = Ok im"
| "subscribe_all tm reg (p # ps) im =
     (case deref reg p of
        None \<Rightarrow> Panic ''nil pointer''
      | Some ifc \<Rightarrow> subscribe_all tm reg ps (Monitor_Add tm im (Lower ifc)))"

definition startMonitor ::
    "'m target_manager \<Rightarrow> 'm InterfaceMonitor \<Rightarrow> 'm registry \<Rightarrow> unit outcome \<times> 'm registry" where
  "startMonitor tm im reg =
     (case subscribe_all tm reg (copyLanInterfaces reg @ copyWanInterfaces reg) im of
        Ok im' \<Rightarrow> (Ok (), reg\<lparr>monitor := Some im'\<rparr>)
      | Err e \<Rightarrow> (Err e, reg\<lparr>monitor := Some im\<rparr>)
      | Fatal e \<Rightarrow> (Fatal e, reg\<lparr>monitor := Some im\<rparr>)
      | Panic e \<Rightarrow> (Panic e, reg\<lparr>monitor := Some im\<rparr>)
      | Blocked \<Rightarrow> (Blocked, reg\<lparr>monitor := Some im\<rparr>))"

section \<open>Visitors\<close>

type_synonym 's InterfaceVisitor = "'s \<Rightarrow> string \<Rightarrow> InterfaceTelemetry \<Rightarrow> string option \<times> 's"

fun visit_interfaces ::
    "'m registry \<Rightarrow> 's InterfaceVisitor \<Rightarrow> nat option list \<Rightarrow> 's \<Rightarrow> unit outcome \<times> 's" where
  "visit_interfaces reg v [] s = (Ok (), s)"
| "visit_interfaces reg v (p # ps) s =
     (case deref reg p of
        None \<Rightarrow> (Panic ''nil pointer'', s)
      | Some ifc \<Rightarrow>
          (case v s (Upper ifc) (Stats ifc) of
             (None, s') \<Rightarrow> visit_interfaces reg v ps s'
           | (Some e, s') \<Rightarrow> (Err e, s')))"

definition GetLanInterfaces :: "'m registry \<Rightarrow> 's InterfaceVisitor \<Rightarrow> 's \<Rightarrow> unit outcome \<times> 's" where
  "GetLanInterfaces reg v s = visit_interfaces reg v (copyLanInterfaces reg) s"

definition GetWanInterfaces :: "'m registry \<Rightarrow> 's InterfaceVisitor \<Rightarrow> 's \<Rightarrow> unit outcome \<times> 's" where
  "GetWanInterfaces reg v s = visit_interfaces reg v (copyWanInterfaces reg) s"

definition GetInterfaces :: "'m registry \<Rightarrow> 's InterfaceVisitor \<Rightarrow> 's \<Rightarrow> unit outcome \<times> 's" where
  "GetInterfaces reg v s =
     (case GetLanInterfaces reg v s of
        (Ok _, s') \<Rightarrow> GetWanInterfaces reg v s'
      | (r, s') \<Rightarrow> (r, s'))"

section \<open>The registry invariant\<close>

text \<open>The object registered under an upper name.\<close>

definition registered :: "'m registry \<Rightarrow> string \<Rightarrow> Interface option" where
  "registered reg u = deref reg (Upper2Interface reg u)"

definition maps_sound :: "'m registry \<Rightarrow> bool" where
  "maps_sound reg \<longleftrightarrow>
     (\<forall>u r. Upper2Interface reg u = Some r \<longrightarrow> (\<exists>i. store reg r = Some i \<and> Upper i = u)) \<and>
     (\<forall>l r. Lower2Interface reg l = Some r \<longrightarrow>
        (\<exists>i. store reg r = Some i \<and> Lower i = l \<and> Upper2Interface reg (Upper i) = Some r)) \<and>
     (\<forall>n r. NetFlow2Interface reg n = Some r \<longrightarrow>
        (\<exists>i. store reg r = Some i \<and> NetFlowId i = n \<and> n \<noteq> NETFLOW_ID_INVALID \<and>
             Upper2Interface reg (Upper i) = Some r)) \<and>
     (\<forall>u r. NextHop2Interface reg u = Some r \<longleftrightarrow>
        Upper2Interface reg u = Some r \<and> (\<exists>i. store reg r = Some i \<and> IsWan i))"

definition names_sound :: "'m registry \<Rightarrow> bool" where
  "names_sound reg \<longleftrightarrow>
     sorted (LanSorted reg) \<and> distinct (LanSorted reg) \<and>
     sorted (WanSorted reg) \<and> distinct (WanSorted reg) \<and>
     (\<forall>u. u \<in> set (LanSorted reg) \<longleftrightarrow> (\<exists>i. registered reg u = Some i \<and> \<not> IsWan i)) \<and>
     (\<forall>u. u \<in> set (WanSorted reg) \<longleftrightarrow> (\<exists>i. registered reg u = Some i \<and> IsWan i))"

definition store_bounded :: "'m registry \<Rightarrow> bool" where
  "store_bounded reg \<longleftrightarrow> (\<forall>r. next_ref reg \<le> r \<longrightarrow> store reg r = None)"

definition registry_inv :: "'m registry \<Rightarrow> bool" where
  "registry_inv reg \<longleftrightarrow> maps_sound reg \<and> names_sound reg \<and> store_bounded reg"

lemma maps_soundD:
  assumes "maps_sound reg"
  shows "Upper2Interface reg u = Some r \<Longrightarrow> \<exists>i. store reg r = Some i \<and> Upper i = u"
    and "Lower2Interface reg l = Some r \<Longrightarrow>
      \<exists>i. store reg r = Some i \<and> Lower i = l \<and> Upper2Interface reg (Upper i) = Some r"
    and "NetFlow2Interface reg n = Some r \<Longrightarrow>
      \<exists>i. store reg r = Some i \<and> NetFlowId i = n \<and> n \<noteq> NETFLOW_ID_INVALID \<and>
        Upper2Interface reg (Upper i) = Some r"
    and "NextHop2Interface reg u = Some r \<longleftrightarrow>
      Upper2Interface reg u = Some r \<and> (\<exists>i. store reg r = Some i \<and> IsWan i)"
  using assms unfolding maps_sound_def by blast+

lemma maps_soundI:
  assumes "\<And>u r. Upper2Interface reg u = Some r \<Longrightarrow> \<exists>i. store reg r = Some i \<and> Upper i = u"
    and "\<And>l r. Lower2Interface reg l = Some r \<Longrightarrow>
      \<exists>i. store reg r = Some i \<and> Lower i = l \<and> Upper2Interface reg (Upper i) = Some r"
    and "\<And>n r. NetFlow2Interface reg n = Some r \<Longrightarrow>
      \<exists>i. store reg r = Some i \<and> NetFlowId i = n \<and> n \<noteq> NETFLOW_ID_INVALID \<and>
        Upper2Interface reg (Upper i) = Some r"
    and "\<And>u r. NextHop2Interface reg u = Some r \<longleftrightarrow>
      Upper2Interface reg u = Some r \<and> (\<exists>i. store reg r = Some i \<and> IsWan i)"
  shows "maps_sound reg"
  unfolding maps_sound_def using assms by blast

lemma registered_Some:
  "registered reg u = Some i \<longleftrightarrow> (\<exists>r. Upper2Interface reg u = Some r \<and> store reg r = Some i)"
  by (auto simp: registered_def deref_def bind_eq_Some_conv)

lemma registered_Upper: "maps_sound reg \<Longrightarrow> registered reg u = Some i \<Longrightarrow> Upper i = u"
  by (metis registered_Some maps_soundD(1) option.inject)

lemma registered_None:
  "maps_sound reg \<Longrightarrow> registered reg u = None \<longleftrightarrow> Upper2Interface reg u = None"
  using maps_soundD(1) [of reg u] by (cases "Upper2Interface reg u") (auto simp: registered_def deref_def)

text \<open>A reset registry satisfies the invariant.\<close>

lemma registry_inv_reset: "store_bounded reg \<Longrightarrow> registry_inv (registry_reset reg)"
  by (simp add: registry_inv_def maps_sound_def names_sound_def registered_def deref_def
      registry_reset_def store_bounded_def)

subsection \<open>Registering an interface\<close>

lemma register_fields [simp]:
  "store (register_interface tm ifc reg) = (store reg)(next_ref reg \<mapsto> ifc)"
  "next_ref (register_interface tm ifc reg) = Suc (next_ref reg)"
  "Upper2Interface (register_interface tm ifc reg) = (Upper2Interface reg)(Upper ifc \<mapsto> next_ref reg)"
  "Lower2Interface (register_interface tm ifc reg) = (Lower2Interface reg)(Lower ifc \<mapsto> next_ref reg)"
  "NetFlow2Interface (register_interface tm ifc reg) =
     (if NetFlowId ifc \<noteq> NETFLOW_ID_INVALID
      then (NetFlow2Interface reg)(NetFlowId ifc \<mapsto> next_ref reg) else NetFlow2Interface reg)"
  "NextHop2Interface (register_interface tm ifc reg) =
     (if IsWan ifc then (NextHop2Interface reg)(Upper ifc \<mapsto> next_ref reg) else NextHop2Interface reg)"
  "WanSorted (register_interface tm ifc reg) =
     (if IsWan ifc then sort (WanSorted reg @ [Upper ifc]) else WanSorted reg)"
  "LanSorted (register_interface tm ifc reg) =
     (if IsWan ifc then LanSorted reg else sort (LanSorted reg @ [Upper ifc]))"
  "monitor (register_interface tm ifc reg) =
     map_option (\<lambda>im. Monitor_Add tm im (Lower ifc)) (monitor reg)"
  by (simp_all add: register_interface_def Let_def)

lemma store_bounded_lt: "store_bounded reg \<Longrightarrow> store reg r = Some i \<Longrightarrow> r \<noteq> next_ref reg"
  unfolding store_bounded_def by (metis le_refl option.distinct(1))

lemma maps_sound_register:
  assumes "maps_sound reg" and "store_bounded reg" and "Upper2Interface reg (Upper ifc) = None"
  shows "maps_sound (register_interface tm ifc reg)"
proof -
  let ?reg = "register_interface tm ifc reg"
  note sound = maps_soundD [OF assms(1)]
  note lt = store_bounded_lt [OF assms(2)]
  show ?thesis
  proof (rule maps_soundI)
    fix u r
    assume "Upper2Interface ?reg u = Some r"
    then show "\<exists>i. store ?reg r = Some i \<and> Upper i = u"
      using sound(1) [of u r] lt by (auto split: if_splits)
  next
    fix l r
    assume "Lower2Interface ?reg l = Some r"
    then show "\<exists>i. store ?reg r = Some i \<and> Lower i = l \<and> Upper2Interface ?reg (Upper i) = Some r"
      using sound(2) [of l r] lt assms(3) by (force split: if_splits)
  next
    fix n r
    assume "NetFlow2Interface ?reg n = Some r"
    then show "\<exists>i. store ?reg r = Some i \<and> NetFlowId i = n \<and> n \<noteq> NETFLOW_ID_INVALID \<and>
        Upper2Interface ?reg (Upper i) = Some r"
      using sound(3) [of n r] lt assms(3) by (force split: if_splits)
  next
    fix u r
    show "NextHop2Interface ?reg u = Some r \<longleftrightarrow>
        Upper2Interface ?reg u = Some r \<and> (\<exists>i. store ?reg r = Some i \<and> IsWan i)"
      using sound(4) [of u r] sound(1) [of u r] lt [of r] assms(3) by (auto split: if_splits)
  qed
qed

lemma registered_register:
  assumes "maps_sound reg" and "store_bounded reg"
  shows "registered (register_interface tm ifc reg) u =
    (if u = Upper ifc then Some ifc else registered reg u)"
  using maps_soundD(1) [OF assms(1), of u] store_bounded_lt [OF assms(2)]
  by (cases "Upper2Interface reg u") (auto simp: registered_def deref_def)

lemma names_sound_register:
  assumes "maps_sound reg" and "names_sound reg" and "store_bounded reg"
    and "Upper2Interface reg (Upper ifc) = None"
  shows "names_sound (register_interface tm ifc reg)"
proof -
  have "registered reg (Upper ifc) = None"
    using registered_None [OF assms(1)] assms(4) by blast
  then have "Upper ifc \<notin> set (LanSorted reg)" and "Upper ifc \<notin> set (WanSorted reg)"
    using assms(2) by (auto simp: names_sound_def)
  with assms(2) \<open>registered reg (Upper ifc) = None\<close> show ?thesis
    unfolding names_sound_def registered_register [OF assms(1,3)]
    by (auto simp del: sort_append)
qed

lemma registry_inv_register:
  assumes "registry_inv reg" and "Upper2Interface reg (Upper ifc) = None"
  shows "registry_inv (register_interface tm ifc reg)"
  using assms maps_sound_register names_sound_register
  unfolding registry_inv_def by (auto simp: store_bounded_def)

subsection \<open>Removing an interface\<close>

lemma remove_name_remove1: "remove_name xs x = remove1 x xs"
  by (induction xs) auto

lemma unregister_fields [simp]:
  "store (unregister_interface ifc reg) = store reg"
  "next_ref (unregister_interface ifc reg) = next_ref reg"
  "Upper2Interface (unregister_interface ifc reg) = (Upper2Interface reg)(Upper ifc := None)"
  "Lower2Interface (unregister_interface ifc reg) = (Lower2Interface reg)(Lower ifc := None)"
  "NetFlow2Interface (unregister_interface ifc reg) =
     (if NetFlowId ifc \<noteq> NETFLOW_ID_INVALID
      then (NetFlow2Interface reg)(NetFlowId ifc := None) else NetFlow2Interface reg)"
  "NextHop2Interface (unregister_interface ifc reg) = (NextHop2Interface reg)(Upper ifc := None)"
  "WanSorted (unregister_interface ifc reg) = remove1 (Upper ifc) (WanSorted reg)"
  "LanSorted (unregister_interface ifc reg) = remove1 (Upper ifc) (LanSorted reg)"
  "monitor (unregister_interface ifc reg) = monitor reg"
  by (simp_all add: unregister_interface_def remove_name_remove1)

lemma maps_sound_unregister:
  assumes "maps_sound reg" and "registered reg u = Some ifc"
  shows "maps_sound (unregister_interface ifc reg)"
proof -
  note sound = maps_soundD [OF assms(1)]
  obtain r where r: "Upper2Interface reg u = Some r" "store reg r = Some ifc"
    using assms(2) by (auto simp: registered_Some)
  have u: "Upper ifc = u" by (rule registered_Upper [OF assms])
  let ?reg = "unregister_interface ifc reg"
  show ?thesis
  proof (rule maps_soundI)
    fix v q
    assume "Upper2Interface ?reg v = Some q"
    then show "\<exists>i. store ?reg q = Some i \<and> Upper i = v"
      using sound(1) [of v q] by (auto split: if_splits)
  next
    fix l q
    assume "Lower2Interface ?reg l = Some q"
    then show "\<exists>i. store ?reg q = Some i \<and> Lower i = l \<and> Upper2Interface ?reg (Upper i) = Some q"
      using sound(2) [of l q] r u by (force split: if_splits)
  next
    fix n q
    assume "NetFlow2Interface ?reg n = Some q"
    then show "\<exists>i. store ?reg q = Some i \<and> NetFlowId i = n \<and> n \<noteq> NETFLOW_ID_INVALID \<and>
        Upper2Interface ?reg (Upper i) = Some q"
      using sound(3) [of n q] r u by (force split: if_splits)
  next
    fix v q
    show "NextHop2Interface ?reg v = Some q \<longleftrightarrow>
        Upper2Interface ?reg v = Some q \<and> (\<exists>i. store ?reg q = Some i \<and> IsWan i)"
      using sound(4) [of v q] by auto
  qed
qed

lemma registered_unregister:
  "registered (unregister_interface ifc reg) u = (if u = Upper ifc then None else registered reg u)"
  by (simp add: registered_def deref_def)

lemma names_sound_unregister:
  "names_sound reg \<Longrightarrow> names_sound (unregister_interface ifc reg)"
  unfolding names_sound_def registered_unregister by (auto simp: sorted_remove1)

lemma registry_inv_unregister:
  "registry_inv reg \<Longrightarrow> registered reg u = Some ifc \<Longrightarrow> registry_inv (unregister_interface ifc reg)"
  unfolding registry_inv_def
  using maps_sound_unregister names_sound_unregister by (auto simp: store_bounded_def)

subsection \<open>Updates that leave the registration alone\<close>

text \<open>An update of an object that keeps its identity: names, index and next hop.\<close>

definition keeps_identity :: "(Interface \<Rightarrow> Interface) \<Rightarrow> bool" where
  "keeps_identity f \<longleftrightarrow>
     (\<forall>i. Upper (f i) = Upper i \<and> Lower (f i) = Lower i \<and> NetFlowId (f i) = NetFlowId i \<and>
          IfNextHop (f i) = IfNextHop i)"

lemma keeps_identityD:
  assumes "keeps_identity f"
  shows "Upper (f i) = Upper i" "Lower (f i) = Lower i" "NetFlowId (f i) = NetFlowId i"
    "IfNextHop (f i) = IfNextHop i" "IsWan (f i) = IsWan i"
  using assms by (simp_all add: keeps_identity_def IsWan_def)

lemma modify_fields [simp]:
  "store (modify_object r f reg) = (store reg)(r := map_option f (store reg r))"
  "next_ref (modify_object r f reg) = next_ref reg"
  "Upper2Interface (modify_object r f reg) = Upper2Interface reg"
  "Lower2Interface (modify_object r f reg) = Lower2Interface reg"
  "NetFlow2Interface (modify_object r f reg) = NetFlow2Interface reg"
  "NextHop2Interface (modify_object r f reg) = NextHop2Interface reg"
  "WanSorted (modify_object r f reg) = WanSorted reg"
  "LanSorted (modify_object r f reg) = LanSorted reg"
  "monitor (modify_object r f reg) = monitor reg"
  by (simp_all add: modify_object_def)

lemma registered_modify:
  "registered (modify_object r f reg) u =
   (if Upper2Interface reg u = Some r then map_option f (registered reg u) else registered reg u)"
  by (auto simp: registered_def deref_def split: bind_splits)

lemma registry_inv_modify:
  assumes "registry_inv reg" and "keeps_identity f"
  shows "registry_inv (modify_object r f reg)"
proof -
  let ?reg = "modify_object r f reg"
  note k = keeps_identityD [OF assms(2)]
  have "maps_sound reg" using assms(1) by (simp add: registry_inv_def)
  note sound = maps_soundD [OF this]
  have "maps_sound (modify_object r f reg)"
  proof (rule maps_soundI)
    fix u q
    assume "Upper2Interface ?reg u = Some q"
    then show "\<exists>i. store ?reg q = Some i \<and> Upper i = u"
      using sound(1) [of u q] k by auto
  next
    fix l q
    assume "Lower2Interface ?reg l = Some q"
    then show "\<exists>i. store ?reg q = Some i \<and> Lower i = l \<and> Upper2Interface ?reg (Upper i) = Some q"
      using sound(2) [of l q] k by auto
  next
    fix n q
    assume "NetFlow2Interface ?reg n = Some q"
    then show "\<exists>i. store ?reg q = Some i \<and> NetFlowId i = n \<and> n \<noteq> NETFLOW_ID_INVALID \<and>
        Upper2Interface ?reg (Upper i) = Some q"
      using sound(3) [of n q] k by auto
  next
    fix u q
    show "NextHop2Interface ?reg u = Some q \<longleftrightarrow>
        Upper2Interface ?reg u = Some q \<and> (\<exists>i. store ?reg q = Some i \<and> IsWan i)"
      using sound(4) [of u q] k by auto
  qed
  moreover have "names_sound (modify_object r f reg)"
    using assms(1) k unfolding registry_inv_def names_sound_def registered_modify
    by (auto split: if_splits)
  ultimately show ?thesis
    using assms(1) by (auto simp: registry_inv_def store_bounded_def)
qed

lemma registry_inv_monitor: "registry_inv (reg\<lparr>monitor := m\<rparr>) \<longleftrightarrow> registry_inv reg"
  by (simp add: registry_inv_def maps_sound_def names_sound_def registered_def deref_def store_bounded_def)

section \<open>Every operation keeps the invariant\<close>

lemma NewInterface_cases:
  obtains (ok) ifc where "apply_options ops fresh_interface = Ok ifc"
      "Upper2Interface reg (Upper ifc) = None"
      "NewInterface tm ops reg = (Ok (next_ref reg), register_interface tm ifc reg)"
    | (fail) r where "NewInterface tm ops reg = (r, reg)" "\<not> is_ok r"
proof (cases "\<exists>ifc. apply_options ops fresh_interface = Ok ifc \<and> Upper2Interface reg (Upper ifc) = None")
  case True
  then show thesis using ok by (auto simp: NewInterface_def)
next
  case False
  then have "snd (NewInterface tm ops reg) = reg" and "\<not> is_ok (fst (NewInterface tm ops reg))"
    by (auto simp: NewInterface_def split: outcome.splits)
  then show thesis using fail by (metis prod.collapse)
qed

lemma NewInterface_Ok:
  "apply_options ops fresh_interface = Ok ifc \<Longrightarrow> Upper2Interface reg (Upper ifc) = None \<Longrightarrow>
   NewInterface tm ops reg = (Ok (next_ref reg), register_interface tm ifc reg)"
  by (simp add: NewInterface_def)

lemma registry_inv_New:
  assumes "registry_inv reg" and "NewInterface tm ops reg = (r, reg')"
  shows "registry_inv reg'"
proof (cases rule: NewInterface_cases [of ops reg tm])
  case (ok ifc)
  with assms registry_inv_register [OF assms(1) ok(2)] show ?thesis by auto
next
  case (fail r)
  with assms show ?thesis by auto
qed

lemma RemoveInterface_cases:
  assumes "registry_inv reg"
  obtains (absent) "registered reg u = None" "RemoveInterface tm u reg = (Ok (), reg)"
    | (gone) ifc r m where "registered reg u = Some ifc" "Upper ifc = u"
      "RemoveInterface tm u reg = (r, (unregister_interface ifc reg)\<lparr>monitor := m\<rparr>)"
      "r = Ok () \<or> r = Err (''failed to remove interface monitor '' @ Lower ifc)"
proof (cases "Upper2Interface reg u")
  case None
  then show thesis by (intro absent) (auto simp: registered_def deref_def RemoveInterface_def)
next
  case (Some q)
  have sound: "maps_sound reg" using assms by (simp add: registry_inv_def)
  then obtain ifc where q: "store reg q = Some ifc" "Upper ifc = u"
    using maps_soundD(1) [OF sound Some] by blast
  have reg: "registered reg u = Some ifc" using Some q by (auto simp: registered_Some)
  show thesis
  proof (cases "monitor reg")
    case None
    have "(unregister_interface ifc reg)\<lparr>monitor := None\<rparr> = unregister_interface ifc reg"
      by (simp add: unregister_interface_def None registry.equality)
    with None Some q gone [OF reg q(2), of "Ok ()" None] show thesis
      by (simp add: RemoveInterface_def Let_def)
  next
    case (Some im)
    obtain im' e where "Monitor_Remove tm im (Lower ifc) = (im', e)" by force
    with Some \<open>Upper2Interface reg u = Some q\<close> q gone [OF reg q(2), of _ "Some im'"] show thesis
      by (cases e) (simp_all add: RemoveInterface_def Let_def)
  qed
qed

lemma registry_inv_Remove:
  assumes "registry_inv reg" and "RemoveInterface tm u reg = (r, reg')"
  shows "registry_inv reg'"
  using assms(1)
proof (cases rule: RemoveInterface_cases [where u = u and tm = tm])
  case absent
  with assms show ?thesis by auto
next
  case (gone ifc r' m)
  then have "registry_inv (unregister_interface ifc reg)"
    using registry_inv_unregister [OF assms(1)] by blast
  with gone assms show ?thesis by (auto simp: registry_inv_monitor)
qed

lemma registry_inv_handleSpeed: "registry_inv reg \<Longrightarrow> registry_inv (handleSpeed u reg)"
  by (auto simp: handleSpeed_def keeps_identity_def intro!: registry_inv_modify split: option.splits)

lemma registry_inv_handleStats: "registry_inv reg \<Longrightarrow> registry_inv (handleStats u reg)"
  by (auto simp: handleStats_def keeps_identity_def intro!: registry_inv_modify split: option.splits)

lemma registry_inv_updateInterfaceDelayJitter:
  "registry_inv reg \<Longrightarrow> registry_inv (updateInterfaceDelayJitter u d j reg)"
  by (auto simp: updateInterfaceDelayJitter_def keeps_identity_def intro!: registry_inv_modify split: option.splits)

lemma registry_inv_startMonitor:
  "registry_inv reg \<Longrightarrow> startMonitor tm im reg = (r, reg') \<Longrightarrow> registry_inv reg'"
  by (auto simp: startMonitor_def registry_inv_monitor split: outcome.splits)

lemmas registry_inv_ops = registry_inv_New registry_inv_Remove registry_inv_handleSpeed
  registry_inv_handleStats registry_inv_updateInterfaceDelayJitter registry_inv_startMonitor

section \<open>Reachable registries\<close>

text \<open>
  One step is one operation under the map lock (or one update of the monitor loop); which
  one comes next is open. The start is any registry whose lists and maps have just been made.
\<close>

inductive reg_step :: "'m target_manager \<Rightarrow> 'm registry \<Rightarrow> 'm registry \<Rightarrow> bool" for tm where
  step_new: "NewInterface tm ops reg = (r, reg') \<Longrightarrow> reg_step tm reg reg'"
| step_remove: "RemoveInterface tm u reg = (r, reg') \<Longrightarrow> reg_step tm reg reg'"
| step_speed: "reg_step tm reg (handleSpeed u reg)"
| step_stats: "reg_step tm reg (handleStats u reg)"
| step_delay: "reg_step tm reg (updateInterfaceDelayJitter u d j reg)"
| step_monitor: "startMonitor tm im reg = (r, reg') \<Longrightarrow> reg_step tm reg reg'"

inductive reg_reachable :: "'m target_manager \<Rightarrow> 'm registry \<Rightarrow> bool" for tm where
  reach_start: "store_bounded reg \<Longrightarrow> reg_reachable tm (registry_reset reg)"
| reach_step: "reg_reachable tm reg \<Longrightarrow> reg_step tm reg reg' \<Longrightarrow> reg_reachable tm reg'"

lemma reg_step_inv: "reg_step tm reg reg' \<Longrightarrow> registry_inv reg \<Longrightarrow> registry_inv reg'"
  by (induction rule: reg_step.induct) (blast intro: registry_inv_ops)+

lemma reachable_inv: "reg_reachable tm reg \<Longrightarrow> registry_inv reg"
  by (induction rule: reg_reachable.induct) (auto intro: registry_inv_reset reg_step_inv)

lemma registry_inv_sound: "registry_inv reg \<Longrightarrow> maps_sound reg"
  by (simp add: registry_inv_def)

lemma registry_inv_names: "registry_inv reg \<Longrightarrow> names_sound reg"
  by (simp add: registry_inv_def)

section \<open>What lookups find\<close>

lemma find_by_netflow:
  assumes "registry_inv reg" and "findInterfaceByNetFlowId reg n = Some r"
  shows "\<exists>i. deref reg (Some r) = Some i \<and> NetFlowId i = n \<and> registered reg (Upper i) = Some i"
  using maps_soundD(3) [OF registry_inv_sound [OF assms(1)]] assms(2)
  by (fastforce simp: findInterfaceByNetFlowId_def deref_def registered_Some)

lemma find_by_lower:
  assumes "registry_inv reg" and "findInterfaceByLower reg l = Some r"
  shows "\<exists>i. deref reg (Some r) = Some i \<and> Lower i = l \<and> registered reg (Upper i) = Some i"
  using maps_soundD(2) [OF registry_inv_sound [OF assms(1)]] assms(2)
  by (fastforce simp: findInterfaceByLower_def deref_def registered_Some)

lemma find_by_nexthop:
  assumes "registry_inv reg"
  shows "deref reg (findInterfaceByNextHop reg u) = Some i \<longleftrightarrow> registered reg u = Some i \<and> IsWan i"
proof -
  note sound = maps_soundD [OF registry_inv_sound [OF assms]]
  have "deref reg (findInterfaceByNextHop reg u) = Some i \<longleftrightarrow>
      (\<exists>r. NextHop2Interface reg u = Some r \<and> store reg r = Some i)"
    by (auto simp: findInterfaceByNextHop_def deref_def bind_eq_Some_conv)
  also have "\<dots> \<longleftrightarrow> registered reg u = Some i \<and> IsWan i"
    unfolding sound(4) by (auto simp: registered_Some)
  finally show ?thesis .
qed

lemma names_iff_registered:
  assumes "registry_inv reg"
  shows "set (LanSorted reg @ WanSorted reg) = dom (Upper2Interface reg)"
proof -
  note n = registry_inv_names [OF assms, unfolded names_sound_def]
  have "u \<in> set (LanSorted reg @ WanSorted reg) \<longleftrightarrow> registered reg u \<noteq> None" for u
    using n by auto
  then show ?thesis
    using registered_None [OF registry_inv_sound [OF assms]] by (auto simp: domIff)
qed

lemma names_distinct:
  "registry_inv reg \<Longrightarrow> distinct (LanSorted reg @ WanSorted reg)"
  using registry_inv_names [unfolded names_sound_def] by fastforce

section \<open>What a visit sees\<close>

lemma visit_total:
  assumes "\<And>p. p \<in> set ps \<Longrightarrow> deref reg p \<noteq> None"
  shows "\<exists>s'. visit_interfaces reg v ps s = (Ok (), s') \<or> (\<exists>e. visit_interfaces reg v ps s = (Err e, s'))"
  using assms
proof (induction ps arbitrary: s)
  case Nil
  then show ?case by simp
next
  case (Cons p ps)
  then obtain i where "deref reg p = Some i" by fastforce
  moreover obtain e s' where "v s (Upper i) (Stats i) = (e, s')" by force
  ultimately show ?case
    using Cons.IH [of s'] Cons.prems by (cases e) auto
qed

lemma visit_never_fails:
  assumes "\<And>p. p \<in> set ps \<Longrightarrow> deref reg p \<noteq> None"
    and "\<And>s u t. fst (v s u t) = None"
  shows "visit_interfaces reg v ps s =
    (Ok (), foldl (\<lambda>s p. snd (v s (Upper (the (deref reg p))) (Stats (the (deref reg p))))) s ps)"
  using assms(1)
proof (induction ps arbitrary: s)
  case Nil
  then show ?case by simp
next
  case (Cons p ps)
  then obtain i where "deref reg p = Some i" by fastforce
  moreover obtain s' where "v s (Upper i) (Stats i) = (None, s')"
    using assms(2) by (metis prod.collapse)
  ultimately show ?case using Cons by simp
qed

lemma copies_deref:
  assumes "registry_inv reg" and "p \<in> set (copyLanInterfaces reg @ copyWanInterfaces reg)"
  shows "deref reg p \<noteq> None"
  using assms registry_inv_names [OF assms(1)]
  by (auto simp: copyLanInterfaces_def copyWanInterfaces_def names_sound_def registered_def)

lemma subscribe_all_ok:
  "(\<And>p. p \<in> set ps \<Longrightarrow> deref reg p \<noteq> None) \<Longrightarrow> is_ok (subscribe_all tm reg ps im)"
  by (induction ps arbitrary: im) (auto split: option.splits)

lemma startMonitor_ok:
  assumes "registry_inv reg"
  shows "fst (startMonitor tm im reg) = Ok ()"
proof -
  have "is_ok (subscribe_all tm reg (copyLanInterfaces reg @ copyWanInterfaces reg) im)"
    by (rule subscribe_all_ok) (rule copies_deref [OF assms])
  then show ?thesis by (auto simp: startMonitor_def is_ok_iff)
qed

end
