(* ===== verification/RegistryProps.thy ===== *)
theory RegistryProps
  imports Registry
begin

text \<open>
  The properties of the interface registry, over the reachable registries of
  \<open>Registry.thy\<close>, and a small registry on which they are applied.
\<close>

section \<open>A small registry\<close>

text \<open>A manager that records the subscribed names, and the state before the first interface.\<close>

definition name_manager :: "string list target_manager" where
  "name_manager = \<lparr>mgr_Add = (\<lambda>m name req. name # m),
     mgr_Remove = (\<lambda>m name. if name \<in> set m then (remove1 name m, None) else (m, Some ''unknown target''))\<rparr>"

definition empty_registry :: "string list registry" where
  "empty_registry = \<lparr>store = Map.empty, next_ref = 0, LanSorted = [], WanSorted = [],
     Upper2Interface = Map.empty, Lower2Interface = Map.empty, NetFlow2Interface = Map.empty,
     NextHop2Interface = Map.empty, monitor = None\<rparr>"

definition wan_options :: "string \<Rightarrow> string \<Rightarrow> u32 \<Rightarrow> OptionInterface list" where
  "wan_options upper lower nfid =
     [OptionInterfaceUpper upper, OptionInterfaceLower lower, OptionInterfaceNetFlowId nfid,
      OptionInterfaceNextHop ''10.0.0.1'']"

definition wan_interface :: "string \<Rightarrow> string \<Rightarrow> u32 \<Rightarrow> Interface" where
  "wan_interface upper lower nfid = fresh_interface\<lparr>Upper := upper, Lower := lower,
     NetFlowId := nfid, IfNextHop := ParseIP ''10.0.0.1''\<rparr>"

definition one_wan :: "string list registry" where
  "one_wan = snd (NewInterface name_manager (wan_options ''halo0'' ''ge1'' 7) (registry_reset empty_registry))"

lemma ParseIP_examples [simp]:
  "ParseIP ''10.0.0.1'' = IPv4 10 0 0 1" "ParseIP ''0.0.0.0'' = IPv4zero"
  using ParseIP_String [of "IPv4 10 0 0 1"] ParseIP_String [of "IPv4 0 0 0 0"]
  by (simp_all add: IP_String_v4 utoa_eval IPv4_def [symmetric] IPv4zero_def)

lemma wan_options_interface:
  "apply_options (wan_options upper lower nfid) fresh_interface = Ok (wan_interface upper lower nfid)"
  by (simp add: wan_options_def wan_interface_def OptionInterfaceUpper_def OptionInterfaceLower_def
      OptionInterfaceNetFlowId_def OptionInterfaceNextHop_def)

lemma wan_interface_fields [simp]:
  "Upper (wan_interface u l n) = u" "Lower (wan_interface u l n) = l"
  "NetFlowId (wan_interface u l n) = n" "IfNextHop (wan_interface u l n) = IPv4 10 0 0 1"
  "IsWan (wan_interface u l n)"
  by (simp_all add: wan_interface_def IsWan_def IP_Equal_To4 IPv4zero_def)

lemma store_bounded_empty [simp]: "store_bounded empty_registry"
  by (simp add: store_bounded_def empty_registry_def)

lemma reachable_reset [simp]: "reg_reachable tm (registry_reset empty_registry)"
  by (rule reach_start) simp

lemma reset_fields [simp]:
  "Upper2Interface (registry_reset reg) = Map.empty" "Lower2Interface (registry_reset reg) = Map.empty"
  "NetFlow2Interface (registry_reset reg) = Map.empty" "NextHop2Interface (registry_reset reg) = Map.empty"
  "LanSorted (registry_reset reg) = []" "WanSorted (registry_reset reg) = []"
  "store (registry_reset reg) = store reg" "next_ref (registry_reset reg) = next_ref reg"
  "monitor (registry_reset reg) = monitor reg"
  by (simp_all add: registry_reset_def)

lemma one_wan_eq:
  "one_wan = register_interface name_manager (wan_interface ''halo0'' ''ge1'' 7) (registry_reset empty_registry)"
  using NewInterface_Ok [OF wan_options_interface, where reg = "registry_reset empty_registry" and tm = name_manager]
  by (simp add: one_wan_def)

lemma reachable_one_wan [simp]: "reg_reachable name_manager one_wan"
proof -
  obtain r where "NewInterface name_manager (wan_options ''halo0'' ''ge1'' 7) (registry_reset empty_registry) = (r, one_wan)"
    by (metis one_wan_def prod.collapse)
  then show ?thesis using reachable_reset reach_step step_new by blast
qed

lemma empty_registry_fields [simp]:
  "store empty_registry = Map.empty" "next_ref empty_registry = 0" "monitor empty_registry = None"
  by (simp_all add: empty_registry_def)

section \<open>The invariant\<close>

text \<open>
  \<^bold>\<open>C7\<close>. In every registry reachable by creating, removing, updating and monitoring
  interfaces, in any order, the four maps and the two name lists agree: every map entry
  points at a live, registered object with the key it is stored under, the next-hop map holds
  exactly the registered WAN interfaces, and the LAN and WAN lists are sorted, without
  duplicates, and hold exactly the registered names of their kind.
\<close>

theorem registry_invariant:
  assumes "reg_reachable tm reg"
  shows "maps_sound reg \<and> names_sound reg \<and> store_bounded reg"
  using reachable_inv [OF assms] by (simp add: registry_inv_def)

theorem registry_invariant_witness:
  "(maps_sound one_wan \<and> names_sound one_wan \<and> store_bounded one_wan) \<and> WanSorted one_wan = [''halo0'']"
  using registry_invariant [OF reachable_one_wan] by (simp add: one_wan_eq)

text \<open>
  \<^bold>\<open>C33\<close>. A lookup never yields a dangling or removed interface: what is found under a NetFlow
  index or a lower name carries that index or name and is the object currently registered
  under its upper name, and the next-hop lookup finds exactly the registered WAN interfaces.
\<close>

theorem lookup_sound:
  assumes "reg_reachable tm reg"
  shows "(findInterfaceByNetFlowId reg n = Some r \<longrightarrow>
      (\<exists>i. deref reg (Some r) = Some i \<and> NetFlowId i = n \<and> registered reg (Upper i) = Some i)) \<and>
    (findInterfaceByLower reg l = Some q \<longrightarrow>
      (\<exists>i. deref reg (Some q) = Some i \<and> Lower i = l \<and> registered reg (Upper i) = Some i)) \<and>
    (deref reg (findInterfaceByNextHop reg u) = Some i \<longleftrightarrow> registered reg u = Some i \<and> IsWan i)"
proof -
  note inv = reachable_inv [OF assms]
  show ?thesis
    using find_by_netflow [OF inv] find_by_lower [OF inv] find_by_nexthop [OF inv] by simp
qed

lemma registered_one_wan:
  "registered one_wan u = (if u = ''halo0'' then Some (wan_interface ''halo0'' ''ge1'' 7) else None)"
  by (simp add: one_wan_eq registered_def deref_def)

theorem lookup_sound_witness:
  "\<exists>r i. findInterfaceByNetFlowId one_wan 7 = Some r \<and> deref one_wan (Some r) = Some i \<and>
     NetFlowId i = 7 \<and> registered one_wan (Upper i) = Some i"
proof -
  have "findInterfaceByNetFlowId one_wan 7 = Some 0"
    by (simp add: one_wan_eq findInterfaceByNetFlowId_def NETFLOW_ID_INVALID_def)
  then show ?thesis
    using lookup_sound [OF reachable_one_wan, of 7 0 "[]" 0 "[]" fresh_interface] by blast
qed

section \<open>Creating and removing\<close>

text \<open>
  \<open>NewInterface\<close> on a reachable registry: a name in use is refused with an error and
  nothing changes, not even the store; a free name is registered with exactly the object the
  options build, every other registration stays, and the name enters the list of its kind
  and no other.
\<close>

theorem NewInterface_spec:
  assumes "reg_reachable tm reg" and "apply_options ops fresh_interface = Ok ifc"
    and "NewInterface tm ops reg = (r, reg')"
  shows "if registered reg (Upper ifc) \<noteq> None
    then r = Err (''interface '' @ Upper ifc @ '' already exists'') \<and> reg' = reg
    else r = Ok (next_ref reg) \<and>
      (\<forall>u. registered reg' u = (if u = Upper ifc then Some ifc else registered reg u)) \<and>
      set (WanSorted reg') = set (WanSorted reg) \<union> (if IsWan ifc then {Upper ifc} else {}) \<and>
      set (LanSorted reg') = set (LanSorted reg) \<union> (if IsWan ifc then {} else {Upper ifc})"
proof -
  have inv: "maps_sound reg" "store_bounded reg"
    using reachable_inv [OF assms(1)] by (simp_all add: registry_inv_def)
  note none = registered_None [OF inv(1), of "Upper ifc"]
  show ?thesis
  proof (cases "Upper2Interface reg (Upper ifc)")
    case None
    with NewInterface_Ok [OF assms(2) None, of tm] assms(3) none show ?thesis
      by (auto simp: registered_register [OF inv])
  next
    case (Some q)
    with assms(2,3) none show ?thesis by (auto simp: NewInterface_def)
  qed
qed

theorem NewInterface_spec_witness:
  "fst (NewInterface name_manager (wan_options ''halo0'' ''ge2'' 8) one_wan) =
     Err (''interface '' @ ''halo0'' @ '' already exists'') \<and>
   registered (snd (NewInterface name_manager (wan_options ''halo1'' ''ge2'' 8) one_wan)) ''halo1'' =
     Some (wan_interface ''halo1'' ''ge2'' 8)"
  using NewInterface_spec [OF reachable_one_wan wan_options_interface [of "''halo0''" "''ge2''" 8] prod.collapse [symmetric]]
    NewInterface_spec [OF reachable_one_wan wan_options_interface [of "''halo1''" "''ge2''" 8] prod.collapse [symmetric]]
  by (simp add: registered_one_wan)

text \<open>
  Removing an interface that was just created, whose lower name and NetFlow index
  were not in use, restores every lookup and both name lists.
\<close>

lemma remove1_sort_append:
  "sorted xs \<Longrightarrow> (x :: string) \<notin> set xs \<Longrightarrow> remove1 x (sort (xs @ [x])) = xs"
  by (simp add: sort_append_single del: sort_append)

theorem new_remove_roundtrip:
  assumes "reg_reachable tm reg" and "apply_options ops fresh_interface = Ok ifc"
    and "registered reg (Upper ifc) = None"
    and "findInterfaceByLower reg (Lower ifc) = None"
    and "findInterfaceByNetFlowId reg (NetFlowId ifc) = None"
  defines "reg' \<equiv> snd (RemoveInterface tm (Upper ifc) (snd (NewInterface tm ops reg)))"
  shows "Upper2Interface reg' = Upper2Interface reg \<and> Lower2Interface reg' = Lower2Interface reg \<and>
    NetFlow2Interface reg' = NetFlow2Interface reg \<and> NextHop2Interface reg' = NextHop2Interface reg \<and>
    LanSorted reg' = LanSorted reg \<and> WanSorted reg' = WanSorted reg"
proof -
  have inv: "registry_inv reg" by (rule reachable_inv [OF assms(1)])
  then have s: "maps_sound reg" "names_sound reg" "store_bounded reg"
    by (simp_all add: registry_inv_def)
  have u: "Upper2Interface reg (Upper ifc) = None"
    using registered_None [OF s(1)] assms(3) by blast
  let ?reg1 = "register_interface tm ifc reg"
  have new: "snd (NewInterface tm ops reg) = ?reg1"
    by (simp add: NewInterface_Ok [OF assms(2) u])
  have nh: "NextHop2Interface reg (Upper ifc) = None"
    using maps_soundD(4) [OF s(1), of "Upper ifc"] u by (metis not_Some_eq)
  have names: "Upper ifc \<notin> set (LanSorted reg)" "Upper ifc \<notin> set (WanSorted reg)"
      "sorted (LanSorted reg)" "sorted (WanSorted reg)"
    using s(2) assms(3) by (auto simp: names_sound_def)
  have "registered ?reg1 (Upper ifc) = Some ifc"
    by (simp add: registered_register [OF s(1,3)])
  then obtain m where "reg' = (unregister_interface ifc ?reg1)\<lparr>monitor := m\<rparr>"
    using RemoveInterface_cases [OF registry_inv_register [OF inv u, of tm], of "Upper ifc" tm]
    unfolding reg'_def new by (metis option.distinct(1) option.inject snd_conv)
  with u nh names assms(4,5) show ?thesis
    by (auto simp: findInterfaceByLower_def findInterfaceByNetFlowId_def remove1_sort_append
        remove1_idem fun_upd_idem simp del: sort_append)
qed

theorem new_remove_roundtrip_witness:
  "WanSorted (snd (RemoveInterface name_manager ''halo1''
     (snd (NewInterface name_manager (wan_options ''halo1'' ''ge2'' 8) one_wan)))) = [''halo0'']"
proof -
  have "registered one_wan ''halo1'' = None"
    and "findInterfaceByLower one_wan ''ge2'' = None"
    and "findInterfaceByNetFlowId one_wan 8 = None" and "WanSorted one_wan = [''halo0'']"
    by (simp_all add: one_wan_eq registered_def deref_def findInterfaceByLower_def
        findInterfaceByNetFlowId_def NETFLOW_ID_INVALID_def)
  then show ?thesis
    using new_remove_roundtrip [OF reachable_one_wan wan_options_interface [of "''halo1''" "''ge2''" 8]]
    by simp
qed

text \<open>
  The registry does not require lower names to be distinct, and \<open>RemoveInterface\<close>
  deletes the lower entry by name: after two interfaces are created on one lower port and the
  first is removed, the second is still registered on that port, but the port's lookup finds
  nothing, so a telemetry update for the port changes nothing.
\<close>

theorem shared_lower_lost:
  assumes "reg_reachable tm reg"
    and "apply_options ops1 fresh_interface = Ok i1" and "apply_options ops2 fresh_interface = Ok i2"
    and "registered reg (Upper i1) = None" and "registered reg (Upper i2) = None"
    and "Upper i1 \<noteq> Upper i2" and "Lower i1 = Lower i2"
  defines "reg' \<equiv> snd (RemoveInterface tm (Upper i1)
    (snd (NewInterface tm ops2 (snd (NewInterface tm ops1 reg)))))"
  shows "registered reg' (Upper i2) = Some i2 \<and> findInterfaceByLower reg' (Lower i2) = None \<and>
    (IfuName u = Lower i2 \<longrightarrow> handleStats u reg' = reg' \<and> handleSpeed u reg' = reg')"
proof -
  have inv: "registry_inv reg" by (rule reachable_inv [OF assms(1)])
  then have s: "maps_sound reg" "store_bounded reg" by (simp_all add: registry_inv_def)
  have u: "Upper2Interface reg (Upper i1) = None" "Upper2Interface reg (Upper i2) = None"
    using registered_None [OF s(1)] assms(4,5) by blast+
  let ?reg1 = "register_interface tm i1 reg"
  have new1: "snd (NewInterface tm ops1 reg) = ?reg1"
    by (simp add: NewInterface_Ok [OF assms(2) u(1)])
  have inv1: "registry_inv ?reg1" by (rule registry_inv_register [OF inv u(1)])
  then have s1: "maps_sound ?reg1" "store_bounded ?reg1" by (simp_all add: registry_inv_def)
  have u2: "Upper2Interface ?reg1 (Upper i2) = None" using u(2) assms(6) by simp
  let ?reg2 = "register_interface tm i2 ?reg1"
  have new2: "snd (NewInterface tm ops2 ?reg1) = ?reg2"
    by (simp add: NewInterface_Ok [OF assms(3) u2])
  have "registered ?reg2 (Upper i1) = Some i1"
    using assms(6) by (simp add: registered_register [OF s1] registered_register [OF s])
  then obtain m where reg': "reg' = (unregister_interface i1 ?reg2)\<lparr>monitor := m\<rparr>"
    using RemoveInterface_cases [OF registry_inv_register [OF inv1 u2, of tm], of "Upper i1" tm]
    unfolding reg'_def new1 new2 by (metis option.distinct(1) option.inject snd_conv)
  have reg2: "registered reg' (Upper i2) = Some i2"
    using assms(6) unfolding reg' by (simp add: registered_def deref_def)
  moreover have "findInterfaceByLower reg' (Lower i2) = None"
    using assms(7) unfolding reg' by (simp add: findInterfaceByLower_def)
  ultimately show ?thesis by (simp add: handleStats_def handleSpeed_def)
qed

theorem shared_lower_lost_witness:
  "registered (snd (RemoveInterface name_manager ''halo1''
      (snd (NewInterface name_manager (wan_options ''halo2'' ''ge5'' 9)
        (snd (NewInterface name_manager (wan_options ''halo1'' ''ge5'' 8) one_wan)))))) ''halo2'' =
    Some (wan_interface ''halo2'' ''ge5'' 9) \<and>
   findInterfaceByLower (snd (RemoveInterface name_manager ''halo1''
      (snd (NewInterface name_manager (wan_options ''halo2'' ''ge5'' 9)
        (snd (NewInterface name_manager (wan_options ''halo1'' ''ge5'' 8) one_wan)))))) ''ge5'' = None"
  using shared_lower_lost [OF reachable_one_wan wan_options_interface [of "''halo1''" "''ge5''" 8]
      wan_options_interface [of "''halo2''" "''ge5''" 9]]
  by (simp add: registered_one_wan)

section \<open>Telemetry\<close>

text \<open>
  Counters that arrive under a lower name reach the interface registered under its
  upper name: the update is written through the lower map's pointer and seen through the
  upper map's, it changes the four counters of that interface and nothing else of it (not
  its speed, delay or jitter), and no other registered interface.
\<close>

theorem stats_reach_interface:
  assumes "reg_reachable tm reg" and "findInterfaceByLower reg (IfuName u) = Some r"
  shows "\<exists>i. registered reg (Upper i) = Some i \<and> Lower i = IfuName u \<and>
    registered (handleStats u reg) (Upper i) = Some (i\<lparr>Stats := (Stats i)\<lparr>
      RxBytes := RxBytes (IfuStats u), RxBps := RxBps (IfuStats u),
      TxBytes := TxBytes (IfuStats u), TxBps := TxBps (IfuStats u)\<rparr>\<rparr>) \<and>
    (\<forall>w. w \<noteq> Upper i \<longrightarrow> registered (handleStats u reg) w = registered reg w)"
proof -
  have inv: "registry_inv reg" by (rule reachable_inv [OF assms(1)])
  obtain i where i: "deref reg (Some r) = Some i" "Lower i = IfuName u" "registered reg (Upper i) = Some i"
    using find_by_lower [OF inv assms(2)] by blast
  have up: "Upper2Interface reg (Upper i) = Some r"
    using maps_soundD(2) [OF registry_inv_sound [OF inv], of "IfuName u" r] assms(2) i
    by (auto simp: findInterfaceByLower_def deref_def)
  have other: "Upper2Interface reg w \<noteq> Some r" if "w \<noteq> Upper i" for w
    using maps_soundD(1) [OF registry_inv_sound [OF inv], of w r] i that by (auto simp: deref_def)
  show ?thesis
    using i up other assms(2) by (intro exI [of _ i]) (simp add: handleStats_def registered_modify)
qed

theorem stats_reach_interface_witness:
  "\<exists>i. registered (handleStats \<lparr>IfuName = ''ge1'', IfuStats = zero_telemetry\<lparr>RxBps := 100\<rparr>\<rparr> one_wan) ''halo0''
     = Some i \<and> RxBps (Stats i) = 100"
proof -
  have low: "findInterfaceByLower one_wan (IfuName \<lparr>IfuName = ''ge1'', IfuStats = zero_telemetry\<lparr>RxBps := 100\<rparr>\<rparr>) = Some 0"
    by (simp add: one_wan_eq findInterfaceByLower_def)
  obtain i where "registered one_wan (Upper i) = Some i"
    "registered (handleStats \<lparr>IfuName = ''ge1'', IfuStats = zero_telemetry\<lparr>RxBps := 100\<rparr>\<rparr> one_wan) (Upper i) =
      Some (i\<lparr>Stats := (Stats i)\<lparr>RxBytes := 0, RxBps := 100, TxBytes := 0, TxBps := 0\<rparr>\<rparr>)"
    using stats_reach_interface [OF reachable_one_wan low] by (auto simp: zero_telemetry_def)
  then show ?thesis by (auto simp: registered_one_wan split: if_splits)
qed

section \<open>Visits\<close>

text \<open>
  \<open>GetInterfaces\<close> never meets a nil pointer: it returns, with success or with the
  first error of the visitor. A visitor that does not fail is called once for every registered
  interface and no other, the LAN names first in sorted order, then the WAN names in sorted
  order, each with the telemetry of the object registered under the name. An error among the
  LAN interfaces ends the call before any WAN interface.
\<close>

lemma foldl_collect: "foldl (\<lambda>s p. s @ [f p]) s ps = s @ map f ps"
  by (induction ps arbitrary: s) auto

theorem GetInterfaces_visits:
  assumes "reg_reachable tm reg"
  shows "(\<exists>s'. GetInterfaces reg v s = (Ok (), s') \<or> (\<exists>e. GetInterfaces reg v s = (Err e, s'))) \<and>
    (GetLanInterfaces reg v s = (Err e, t) \<longrightarrow> GetInterfaces reg v s = (Err e, t)) \<and>
    GetInterfaces reg (\<lambda>s u t. (None, s @ [(u, t)])) [] =
      (Ok (), map (\<lambda>u. (u, Stats (the (registered reg u)))) (LanSorted reg @ WanSorted reg)) \<and>
    distinct (LanSorted reg @ WanSorted reg) \<and>
    set (LanSorted reg @ WanSorted reg) = {u. registered reg u \<noteq> None}"
proof -
  have inv: "registry_inv reg" by (rule reachable_inv [OF assms])
  note d = copies_deref [OF inv]
  note sound = registry_inv_sound [OF inv]
  have lan: "\<exists>s'. GetLanInterfaces reg v s = (Ok (), s') \<or> (\<exists>e. GetLanInterfaces reg v s = (Err e, s'))" for s
    unfolding GetLanInterfaces_def by (rule visit_total) (use d in auto)
  have wan: "\<exists>s'. GetWanInterfaces reg v s = (Ok (), s') \<or> (\<exists>e. GetWanInterfaces reg v s = (Err e, s'))" for s
    unfolding GetWanInterfaces_def by (rule visit_total) (use d in auto)
  have 1: "\<exists>s'. GetInterfaces reg v s = (Ok (), s') \<or> (\<exists>e. GetInterfaces reg v s = (Err e, s'))"
  proof -
    obtain s1 where "GetLanInterfaces reg v s = (Ok (), s1) \<or> (\<exists>e. GetLanInterfaces reg v s = (Err e, s1))"
      using lan by blast
    then show ?thesis using wan [of s1] by (auto simp: GetInterfaces_def)
  qed
  have names: "Upper (the (registered reg u)) = u" if "u \<in> set (LanSorted reg @ WanSorted reg)" for u
    using registry_inv_names [OF inv] registered_Upper [OF sound] that
    by (auto simp: names_sound_def)
  have collect: "visit_interfaces reg (\<lambda>s u t. (None, s @ [(u, t)])) (map (Upper2Interface reg) us) s =
      (Ok (), s @ map (\<lambda>u. (u, Stats (the (registered reg u)))) us)"
    if "set us \<subseteq> set (LanSorted reg @ WanSorted reg)" for us s
  proof -
    have "deref reg p \<noteq> None" if "p \<in> set (map (Upper2Interface reg) us)" for p
      using d [of p] \<open>set us \<subseteq> _\<close> that by (auto simp: copyLanInterfaces_def copyWanInterfaces_def)
    then have "visit_interfaces reg (\<lambda>s u t. (None, s @ [(u, t)])) (map (Upper2Interface reg) us) s =
        (Ok (), s @ map (\<lambda>p. (Upper (the (deref reg p)), Stats (the (deref reg p)))) (map (Upper2Interface reg) us))"
      by (subst visit_never_fails) (simp_all add: foldl_collect)
    moreover have "map (\<lambda>p. (Upper (the (deref reg p)), Stats (the (deref reg p)))) (map (Upper2Interface reg) us) =
        map (\<lambda>u. (u, Stats (the (registered reg u)))) us"
      using names \<open>set us \<subseteq> _\<close> by (auto simp: registered_def)
    ultimately show ?thesis by simp
  qed
  have 2: "GetInterfaces reg (\<lambda>s u t. (None, s @ [(u, t)])) [] =
      (Ok (), map (\<lambda>u. (u, Stats (the (registered reg u)))) (LanSorted reg @ WanSorted reg))"
    by (simp add: GetInterfaces_def GetLanInterfaces_def GetWanInterfaces_def
        copyLanInterfaces_def copyWanInterfaces_def collect)
  have 3: "set (LanSorted reg @ WanSorted reg) = {u. registered reg u \<noteq> None}"
    using names_iff_registered [OF inv] registered_None [OF sound] by auto
  have 4: "GetLanInterfaces reg v s = (Err e, t) \<longrightarrow> GetInterfaces reg v s = (Err e, t)"
    by (simp add: GetInterfaces_def)
  show ?thesis by (intro conjI 1 2 3 4 names_distinct [OF inv])
qed

theorem GetInterfaces_visits_witness:
  "GetInterfaces one_wan (\<lambda>s u t. (None, s @ [(u, t)])) [] = (Ok (), [(''halo0'', zero_telemetry)])"
proof -
  have "LanSorted one_wan = []" "WanSorted one_wan = [''halo0'']"
    by (simp_all add: one_wan_eq)
  moreover have "Stats (the (registered one_wan ''halo0'')) = zero_telemetry"
    by (simp add: registered_one_wan wan_interface_def fresh_interface_def)
  ultimately show ?thesis
    using GetInterfaces_visits [OF reachable_one_wan, of "\<lambda>s u t. (None, s)" "()"] by simp
qed

end
