(* ===== verification/Flows.thy ===== *)
theory Flows
  imports Registry
begin

text \<open>
  Flow accounting (\<open>pkg/hal/hal.go\<close>): \<open>Publish\<close> adds NetFlow messages to the current
  aggregate, \<open>ToTelemetry\<close> turns an aggregate into rates, \<open>GetFlows\<close> swaps the aggregate
  out and reports it. Counters are 64-bit and wrap. The last part models the two goroutines
  that share the aggregate map step by step.
\<close>

section \<open>Aggregates and rates\<close>

record FlowAggregate =
  agg_key :: FlowKey
  inIf :: string
  outIf :: string
  packets :: u64
  bytes :: u64

text \<open>\<open>time.Duration.Milliseconds\<close>\<close>

definition Milliseconds :: "i64 \<Rightarrow> int" where
  "Milliseconds d = go_quot (sint d) 1000000"

definition ToTelemetry :: "FlowAggregate \<Rightarrow> i64 \<Rightarrow> FlowTelemetry" where
  "ToTelemetry agg interval =
     (let millis0 = word_of_int (Milliseconds interval) :: u64;
          millis = (if millis0 < 1 then 1 else millis0)
      in \<lparr>RxRatePps = (((packets agg + 1) * 1000) - 1) div millis,
          TxRatePps = 0,
          RxRateBps = (((bytes agg + 1) * 1000) - 1) div millis,
          TxRateBps = 0,
          RxTotalPkts = packets agg,
          TxTotalPkts = 0,
          RxTotalBytes = bytes agg,
          TxTotalBytes = 0,
          IngressIf = inIf agg,
          EgressIf = outIf agg\<rparr>)"

section \<open>Publishing NetFlow messages\<close>

text \<open>The fields of goflow's message that are read.\<close>

record FlowMessage =
  msg_Proto :: u32
  msg_SrcAddr :: ip
  msg_DstAddr :: ip
  msg_SrcPort :: u32
  msg_DstPort :: u32
  msg_InIf :: u32
  msg_OutIf :: u32
  msg_Bytes :: u64
  msg_Packets :: u64

definition msg_flow :: "FlowMessage \<Rightarrow> FlowKey" where
  "msg_flow msg = \<lparr>Protocol = ucast (msg_Proto msg), SrcAddr = msg_SrcAddr msg,
     DstAddr = msg_DstAddr msg, SrcPort = ucast (msg_SrcPort msg), DstPort = ucast (msg_DstPort msg)\<rparr>"

text \<open>\<open>lookup\<close> is \<open>findInterfaceByNetFlowId\<close>, the registry's lookup.\<close>

definition if_label :: "(u32 \<Rightarrow> Interface option) \<Rightarrow> u32 \<Rightarrow> string" where
  "if_label lookup n = (case lookup n of None \<Rightarrow> ''N/A'' | Some ifc \<Rightarrow> Upper ifc)"

type_synonym aggregate = "string \<rightharpoonup> FlowAggregate"

definition publish_msg :: "(u32 \<Rightarrow> Interface option) \<Rightarrow> FlowMessage \<Rightarrow> aggregate \<Rightarrow> aggregate" where
  "publish_msg lookup msg aggregate =
     (let fk = msg_flow msg;
          inIf' = if_label lookup (msg_InIf msg);
          outIf' = if_label lookup (msg_OutIf msg);
          key = AsKey fk
      in case aggregate key of
           Some agg \<Rightarrow> aggregate(key \<mapsto> agg\<lparr>bytes := bytes agg + msg_Bytes msg,
             packets := packets agg + msg_Packets msg, inIf := inIf', outIf := outIf'\<rparr>)
         | None \<Rightarrow> aggregate(key \<mapsto> \<lparr>agg_key = fk, inIf = inIf', outIf = outIf',
             packets = msg_Packets msg, bytes = msg_Bytes msg\<rparr>))"

fun Publish :: "(u32 \<Rightarrow> Interface option) \<Rightarrow> FlowMessage list \<Rightarrow> aggregate \<Rightarrow> aggregate" where
  "Publish lookup [] aggregate = aggregate"
| "Publish lookup (msg # update) aggregate = Publish lookup update (publish_msg lookup msg aggregate)"

section \<open>Reading the flows\<close>

record flows =
  flows_start :: int
  flows_aggregate :: aggregate

type_synonym 's FlowVisitor = "'s \<Rightarrow> FlowKey \<Rightarrow> FlowTelemetry \<Rightarrow> string option \<times> 's"

definition over_threshold :: "u64 \<Rightarrow> FlowTelemetry \<Rightarrow> bool" where
  "over_threshold threshold stats \<longleftrightarrow> threshold \<le> RxRateBps stats \<or> threshold \<le> TxRateBps stats"

definition InitFlows :: "int \<Rightarrow> flows" where
  "InitFlows now = \<lparr>flows_start = now, flows_aggregate = Map.empty\<rparr>"

text \<open>
  The two loops of \<open>GetFlows\<close>, with and without the debug printer. The visitor's error is
  dropped. \<open>order\<close> is the order of the range over the swapped-out map.
\<close>

fun report_flows ::
    "u64 \<Rightarrow> i64 \<Rightarrow> aggregate \<Rightarrow> 's FlowVisitor \<Rightarrow> string list \<Rightarrow> 's \<Rightarrow> 's" where
  "report_flows threshold interval aggregate v [] s = s"
| "report_flows threshold interval aggregate v (k # ks) s =
     (case aggregate k of
        None \<Rightarrow> report_flows threshold interval aggregate v ks s
      | Some agg \<Rightarrow>
          (let stats = ToTelemetry agg interval
           in report_flows threshold interval aggregate v ks
                (if over_threshold threshold stats then snd (v s (agg_key agg) stats) else s)))"

fun report_flows_debug ::
    "u64 \<Rightarrow> i64 \<Rightarrow> aggregate \<Rightarrow> 's FlowVisitor \<Rightarrow> string list \<Rightarrow> FlowsDebugger \<times> 's \<Rightarrow> FlowsDebugger \<times> 's" where
  "report_flows_debug threshold interval aggregate v [] ds = ds"
| "report_flows_debug threshold interval aggregate v (k # ks) (dbg, s) =
     (case aggregate k of
        None \<Rightarrow> report_flows_debug threshold interval aggregate v ks (dbg, s)
      | Some agg \<Rightarrow>
          (let stats = ToTelemetry agg interval;
               dbg' = Debugger_Flow dbg (agg_key agg) stats
           in report_flows_debug threshold interval aggregate v ks
                (dbg', if over_threshold threshold stats then snd (v s (agg_key agg) stats) else s)))"

text \<open>
  \<open>GetFlows\<close> always returns nil. The third component is what the debug printer writes.
\<close>

definition GetFlows ::
    "bool \<Rightarrow> u64 \<Rightarrow> int \<Rightarrow> string list \<Rightarrow> 's FlowVisitor \<Rightarrow> flows \<Rightarrow> 's \<Rightarrow>
     flows \<times> 's \<times> (string list \<times> string list) option" where
  "GetFlows debug threshold now order v fl s =
     (let aggregate = flows_aggregate fl;
          prev = flows_start fl;
          fl' = fl\<lparr>flows_aggregate := Map.empty, flows_start := now\<rparr>;
          interval = Time_Sub now prev
      in if debug
         then (case report_flows_debug threshold interval aggregate v order (NewFlowsDebugger, s) of
                 (dbg, s') \<Rightarrow> (fl', s', Some (Debugger_Print True dbg)))
         else (fl', report_flows threshold interval aggregate v order s, None))"

section \<open>Publishing accumulates by key\<close>

definition new_aggregate :: "(u32 \<Rightarrow> Interface option) \<Rightarrow> FlowMessage \<Rightarrow> FlowAggregate" where
  "new_aggregate lookup msg = \<lparr>agg_key = msg_flow msg, inIf = if_label lookup (msg_InIf msg),
     outIf = if_label lookup (msg_OutIf msg), packets = msg_Packets msg, bytes = msg_Bytes msg\<rparr>"

definition add_to_aggregate :: "(u32 \<Rightarrow> Interface option) \<Rightarrow> FlowMessage \<Rightarrow> FlowAggregate \<Rightarrow> FlowAggregate" where
  "add_to_aggregate lookup msg agg = agg\<lparr>bytes := bytes agg + msg_Bytes msg,
     packets := packets agg + msg_Packets msg, inIf := if_label lookup (msg_InIf msg),
     outIf := if_label lookup (msg_OutIf msg)\<rparr>"

lemma publish_msg_upsert:
  "publish_msg lookup msg m =
   upsert (\<lambda>x. AsKey (msg_flow x)) (new_aggregate lookup) (add_to_aggregate lookup) m msg"
  by (simp add: publish_msg_def upsert_def new_aggregate_def add_to_aggregate_def Let_def
      split: option.splits)

lemma Publish_upsert_all:
  "Publish lookup msgs m =
   upsert_all (\<lambda>x. AsKey (msg_flow x)) (new_aggregate lookup) (add_to_aggregate lookup) m msgs"
  by (induction msgs arbitrary: m) (simp_all add: publish_msg_upsert)

lemma Publish_append: "Publish lookup (xs @ ys) m = Publish lookup ys (Publish lookup xs m)"
  by (simp add: Publish_upsert_all upsert_all_append)

lemma bytes_weights [simp]:
  "bytes (new_aggregate lookup x) = msg_Bytes x"
  "bytes (add_to_aggregate lookup x v) = bytes v + msg_Bytes x"
  "packets (new_aggregate lookup x) = msg_Packets x"
  "packets (add_to_aggregate lookup x v) = packets v + msg_Packets x"
  by (simp_all add: new_aggregate_def add_to_aggregate_def)

lemma Publish_bytes_total:
  "finite (dom m) \<Longrightarrow> weight_total bytes (Publish lookup msgs m) =
   weight_total bytes m + sum_list (map msg_Bytes msgs)"
  by (simp add: Publish_upsert_all weight_total_upsert_all [where c = msg_Bytes])

lemma finite_dom_Publish: "finite (dom m) \<Longrightarrow> finite (dom (Publish lookup msgs m))"
  by (simp add: Publish_upsert_all finite_dom_upsert_all)

lemma report_flows_debug_snd:
  "snd (report_flows_debug threshold interval m v ks (dbg, s)) = report_flows threshold interval m v ks s"
  by (induction ks arbitrary: dbg s) (auto simp: Let_def split: option.splits)

text \<open>The lookup \<open>Publish\<close> uses: the registry's NetFlow map, through the pointer it holds.\<close>

definition netflow_lookup :: "'m registry \<Rightarrow> u32 \<Rightarrow> Interface option" where
  "netflow_lookup reg n = deref reg (findInterfaceByNetFlowId reg n)"

definition hal_Publish :: "'m registry \<Rightarrow> FlowMessage list \<Rightarrow> flows \<Rightarrow> flows" where
  "hal_Publish reg update fl =
     fl\<lparr>flows_aggregate := Publish (netflow_lookup reg) update (flows_aggregate fl)\<rparr>"

lemma hal_Publish_fields [simp]:
  "flows_aggregate (hal_Publish reg update fl) = Publish (netflow_lookup reg) update (flows_aggregate fl)"
  "flows_start (hal_Publish reg update fl) = flows_start fl"
  by (simp_all add: hal_Publish_def)

section \<open>Rates\<close>

text \<open>One rate of \<open>ToTelemetry\<close>, as a number, when the product does not wrap.\<close>

lemma rate_value:
  fixes n ms :: u64
  assumes "unat n * 1000 + 1000 < 2 ^ 64"
  shows "unat (((n + 1) * 1000 - 1) div ms) = (unat n * 1000 + 999) div unat ms"
proof -
  have "(n + 1) * 1000 - 1 = word_of_nat (unat n * 1000 + 999)"
    by (simp add: algebra_simps)
  moreover have "unat (word_of_nat (unat n * 1000 + 999) :: u64) = unat n * 1000 + 999"
    using assms by (intro unat_word_of_nat_small) simp
  ultimately show ?thesis by (simp only: unat_div)
qed

lemma millis_value:
  fixes d :: i64
  assumes "0 \<le> sint d"
  shows "unat (let m = word_of_int (Milliseconds d) :: u64 in if m < 1 then 1 else m) =
    max 1 (nat (sint d) div 1000000)"
proof -
  have ms: "Milliseconds d = sint d div 1000000"
    using assms by (simp add: Milliseconds_def go_quot_nonneg)
  have "sint d < 2 ^ 63" using sint_lt [of d] by simp
  then have "nat (sint d) < 2 ^ 64" using assms by simp
  then have "nat (sint d) div 1000000 < 2 ^ 64" by (rule le_less_trans [OF div_le_dividend])
  moreover have "word_of_int (Milliseconds d) = (word_of_nat (nat (sint d) div 1000000) :: u64)"
    using assms unfolding ms by (metis int_nat_eq of_int_of_nat_eq of_nat_numeral zdiv_int)
  ultimately have u: "unat (word_of_int (Milliseconds d) :: u64) = nat (sint d) div 1000000"
    by (simp add: unat_word_of_nat_small)
  show ?thesis
  proof (cases "nat (sint d) div 1000000 = 0")
    case True
    with u have "(word_of_int (Milliseconds d) :: u64) = 0" by (simp add: unat_eq_0)
    with True show ?thesis by simp
  next
    case False
    with u have "\<not> (word_of_int (Milliseconds d) :: u64) < 1"
      by (simp add: word_less_nat_alt)
    with False u show ?thesis by (simp add: Let_def)
  qed
qed

lemma ToTelemetry_rates:
  assumes "0 \<le> sint d" and "unat (packets agg) * 1000 + 1000 < 2 ^ 64"
    and "unat (bytes agg) * 1000 + 1000 < 2 ^ 64"
  shows "unat (RxRatePps (ToTelemetry agg d)) =
      (unat (packets agg) * 1000 + 999) div max 1 (nat (sint d) div 1000000)"
    and "unat (RxRateBps (ToTelemetry agg d)) =
      (unat (bytes agg) * 1000 + 999) div max 1 (nat (sint d) div 1000000)"
  unfolding ToTelemetry_def Let_def
  using rate_value [OF assms(2)] rate_value [OF assms(3)] millis_value [OF assms(1)]
  by (simp_all add: Let_def)

end
