(* ===== verification/FlowProps.thy ===== *)
theory FlowProps
  imports Flows RegistryProps
begin

text \<open>
  The properties of flow accounting: what \<open>Publish\<close> counts and labels, which flows
  \<open>GetFlows\<close> reports, where every byte goes between the two, the rates, how far \<open>AsKey\<close> tells flows
  apart, and the interleaving of the two goroutines that loses a message.
\<close>

section \<open>Counting and labelling\<close>

definition demo_msg :: "u16 \<Rightarrow> u64 \<Rightarrow> u64 \<Rightarrow> FlowMessage" where
  "demo_msg port nbytes npkts = \<lparr>msg_Proto = 6, msg_SrcAddr = IPv4 10 0 0 1, msg_DstAddr = IPv4 10 0 0 2,
     msg_SrcPort = ucast port, msg_DstPort = 80, msg_InIf = 7, msg_OutIf = 9,
     msg_Bytes = nbytes, msg_Packets = npkts\<rparr>"

lemma demo_msg_v4 [simp]: "v4_flow (msg_flow (demo_msg port b p))"
  by (simp add: v4_flow_def msg_flow_def demo_msg_def)

lemma demo_msg_fields [simp]:
  "msg_Bytes (demo_msg port b p) = b" "msg_Packets (demo_msg port b p) = p"
  "msg_InIf (demo_msg port b p) = 7" "msg_OutIf (demo_msg port b p) = 9"
  by (simp_all add: demo_msg_def)

lemma demo_msg_id: "flow_id (msg_flow (demo_msg port b p)) = flow_id (msg_flow (demo_msg port' b' p')) \<longleftrightarrow> port = port'"
  by (simp add: flow_id_def msg_flow_def demo_msg_def ucast_up_ucast_id is_up)

text \<open>
  \<^bold>\<open>C10\<close>. Flow accounting is exact per flow: after publishing any messages between IPv4
  addresses (for IPv6 see \<open>AsKey_merges_v6\<close>), what the aggregate holds under a flow's key has grown by exactly the bytes and
  packets (mod 2^64) of the messages of that five-tuple, however they are interleaved with
  messages of other flows.
\<close>

theorem Publish_counts_flow:
  assumes "v4_flow fk" and "\<forall>x\<in>set msgs. v4_flow (msg_flow x)"
  shows "weight_at bytes (Publish lookup msgs m) (AsKey fk) = weight_at bytes m (AsKey fk) +
      sum_list (map msg_Bytes (filter (\<lambda>x. flow_id (msg_flow x) = flow_id fk) msgs)) \<and>
    weight_at packets (Publish lookup msgs m) (AsKey fk) = weight_at packets m (AsKey fk) +
      sum_list (map msg_Packets (filter (\<lambda>x. flow_id (msg_flow x) = flow_id fk) msgs))"
  unfolding Publish_upsert_all
  by (simp add: flow_key.accumulated_by_ident [where c = msg_Bytes, OF _ _ assms]
      flow_key.accumulated_by_ident [where c = msg_Packets, OF _ _ assms])

theorem Publish_counts_flow_witness:
  "weight_at bytes (Publish Map.empty [demo_msg 1 100 1, demo_msg 2 50 1, demo_msg 1 11 1] Map.empty)
     (AsKey (msg_flow (demo_msg 1 0 0))) = 111"
  using Publish_counts_flow [of "msg_flow (demo_msg 1 0 0)"
      "[demo_msg 1 100 1, demo_msg 2 50 1, demo_msg 1 11 1]" Map.empty Map.empty]
  by (simp add: demo_msg_id)

text \<open>The entry of a key after publishing: made or last touched by the last message of that key.\<close>

lemma Publish_other: "k \<notin> (\<lambda>x. AsKey (msg_flow x)) ` set msgs \<Longrightarrow> Publish lookup msgs m k = m k"
  by (induction msgs arbitrary: m) (auto simp: publish_msg_upsert upsert_def)

lemma Publish_last_label:
  assumes "AsKey (msg_flow x) \<notin> (\<lambda>y. AsKey (msg_flow y)) ` set later"
  shows "\<exists>agg. Publish lookup (earlier @ x # later) m (AsKey (msg_flow x)) = Some agg \<and>
    inIf agg = if_label lookup (msg_InIf x) \<and> outIf agg = if_label lookup (msg_OutIf x)"
  using Publish_other [OF assms]
  by (auto simp: Publish_append publish_msg_def Let_def split: option.splits)

lemma netflow_label:
  assumes "reg_reachable tm reg"
  shows "if_label (netflow_lookup reg) n = ''N/A'' \<or>
    (\<exists>i. registered reg (if_label (netflow_lookup reg) n) = Some i \<and> NetFlowId i = n)"
proof (cases "findInterfaceByNetFlowId reg n")
  case None
  then show ?thesis by (simp add: if_label_def netflow_lookup_def deref_def)
next
  case (Some r)
  with find_by_netflow [OF reachable_inv [OF assms] Some] show ?thesis
    by (auto simp: if_label_def netflow_lookup_def)
qed

text \<open>
  A flow's interface labels come from its latest message: whatever was published
  before, and whatever other flows are published after, the entry carries for each direction
  the label of that message's index, which on a reachable registry is ''N/A'' or the name of a
  registered interface that has this NetFlow index.
\<close>

theorem Publish_labels:
  assumes "reg_reachable tm reg"
    and "AsKey (msg_flow x) \<notin> (\<lambda>y. AsKey (msg_flow y)) ` set later"
  shows "\<exists>agg. flows_aggregate (hal_Publish reg (earlier @ x # later) fl) (AsKey (msg_flow x)) = Some agg \<and>
    (inIf agg = ''N/A'' \<or> (\<exists>i. registered reg (inIf agg) = Some i \<and> NetFlowId i = msg_InIf x)) \<and>
    (outIf agg = ''N/A'' \<or> (\<exists>i. registered reg (outIf agg) = Some i \<and> NetFlowId i = msg_OutIf x)) \<and>
    (findInterfaceByNetFlowId reg (msg_InIf x) \<noteq> None \<longrightarrow>
       (\<exists>i. registered reg (inIf agg) = Some i \<and> NetFlowId i = msg_InIf x))"
proof -
  obtain agg where agg:
    "Publish (netflow_lookup reg) (earlier @ x # later) (flows_aggregate fl) (AsKey (msg_flow x)) = Some agg"
    "inIf agg = if_label (netflow_lookup reg) (msg_InIf x)"
    "outIf agg = if_label (netflow_lookup reg) (msg_OutIf x)"
    using Publish_last_label [OF assms(2)] by metis
  have "\<exists>i. registered reg (inIf agg) = Some i \<and> NetFlowId i = msg_InIf x"
    if found: "findInterfaceByNetFlowId reg (msg_InIf x) \<noteq> None"
  proof -
    from found obtain r where r: "findInterfaceByNetFlowId reg (msg_InIf x) = Some r" by blast
    with find_by_netflow [OF reachable_inv [OF assms(1)] r] agg(2) show ?thesis
      by (auto simp: if_label_def netflow_lookup_def)
  qed
  with agg netflow_label [OF assms(1)] show ?thesis by simp
qed

theorem Publish_labels_witness:
  "\<exists>agg. flows_aggregate (hal_Publish one_wan [demo_msg 1 5 1] (InitFlows 0)) (AsKey (msg_flow (demo_msg 1 5 1))) = Some agg \<and>
     (\<exists>i. registered one_wan (inIf agg) = Some i \<and> NetFlowId i = 7)"
proof -
  have "findInterfaceByNetFlowId one_wan 7 \<noteq> None"
    by (simp add: one_wan_eq findInterfaceByNetFlowId_def NETFLOW_ID_INVALID_def)
  then show ?thesis
    using Publish_labels [OF reachable_one_wan, of "demo_msg 1 5 1" "[]" "[]" "InitFlows 0"] by auto
qed

section \<open>Reporting\<close>

text \<open>
  The test of a flow against the threshold: nothing is ever counted as transmitted, so that it is
  the receive rate that decides.
\<close>

lemma over_threshold_telemetry: "over_threshold threshold (ToTelemetry agg d) \<longleftrightarrow> threshold \<le> RxRateBps (ToTelemetry agg d)"
  by (auto simp: over_threshold_def ToTelemetry_def Let_def)

text \<open>The reports of one round: the flows whose receive rate is the threshold or more, in the order of the range.\<close>

definition reports :: "u64 \<Rightarrow> i64 \<Rightarrow> aggregate \<Rightarrow> string list \<Rightarrow> (FlowKey \<times> FlowTelemetry) list" where
  "reports threshold interval m order =
     filter (\<lambda>(k, t). threshold \<le> RxRateBps t)
       (map (\<lambda>k. case m k of Some agg \<Rightarrow> (agg_key agg, ToTelemetry agg interval)) order)"

lemma report_flows_reports:
  "set order \<subseteq> dom m \<Longrightarrow>
   report_flows threshold interval m v order s =
   foldl (\<lambda>s (k, t). snd (v s k t)) s (reports threshold interval m order)"
  by (induction order arbitrary: s) (auto simp: reports_def over_threshold_telemetry Let_def split: option.splits)

lemma set_reports:
  assumes "range_order m order"
  shows "(k, t) \<in> set (reports threshold interval m order) \<longleftrightarrow>
    (\<exists>key agg. m key = Some agg \<and> k = agg_key agg \<and> t = ToTelemetry agg interval \<and> threshold \<le> RxRateBps t)"
  using assms by (force simp: reports_def range_order_def dom_def image_iff)

lemma length_reports:
  assumes "range_order m order"
  shows "length (reports threshold interval m order) =
    card {key. \<exists>agg. m key = Some agg \<and> threshold \<le> RxRateBps (ToTelemetry agg interval)}"
proof -
  let ?P = "\<lambda>key. \<exists>agg. m key = Some agg \<and> threshold \<le> RxRateBps (ToTelemetry agg interval)"
  have "length (reports threshold interval m order) = length (filter ?P order)"
    using assms by (auto simp: reports_def filter_map range_order_def dom_def o_def intro!: arg_cong [where f = length] filter_cong)
  also have "\<dots> = card (set (filter ?P order))"
    using assms distinct_card [of "filter ?P order"] by (simp add: range_order_def del: set_filter)
  also have "set (filter ?P order) = {key. ?P key}"
    using assms by (auto simp: range_order_def)
  finally show ?thesis .
qed

text \<open>
  \<^bold>\<open>C21\<close>. A round of \<open>GetFlows\<close>: the visitor is called with exactly the flows of the aggregate
  whose receive rate since the last round, in bytes per second, is the threshold or more, one call
  for each, with the telemetry over that time; an error it returns stops nothing. Afterwards the
  aggregate is empty, also of the flows below the threshold, and the next interval starts at the
  time of this round. Debug mode prints, and changes nothing else.
\<close>

theorem GetFlows_spec:
  assumes "range_order (flows_aggregate fl) order"
    and "GetFlows debug threshold now order v fl s = (fl', s', out)"
    and "interval = Time_Sub now (flows_start fl)"
  shows "\<exists>calls. s' = foldl (\<lambda>s (k, t). snd (v s k t)) s calls \<and>
    (\<forall>k t. (k, t) \<in> set calls \<longleftrightarrow> (\<exists>key agg. flows_aggregate fl key = Some agg \<and>
       k = agg_key agg \<and> t = ToTelemetry agg interval \<and> threshold \<le> RxRateBps t)) \<and>
    length calls = card {key. \<exists>agg. flows_aggregate fl key = Some agg \<and>
       threshold \<le> RxRateBps (ToTelemetry agg interval)} \<and>
    fl' = InitFlows now \<and> (out = None \<longleftrightarrow> \<not> debug)"
proof (intro exI conjI)
  have sub: "set order \<subseteq> dom (flows_aggregate fl)"
    using assms(1) by (simp add: range_order_def)
  note rf = report_flows_reports [OF sub, of threshold interval v s]
  note snd' = report_flows_debug_snd [of threshold interval "flows_aggregate fl" v order NewFlowsDebugger s]
  show "s' = foldl (\<lambda>s (k, t). snd (v s k t)) s (reports threshold interval (flows_aggregate fl) order)"
      "fl' = InitFlows now" "out = None \<longleftrightarrow> \<not> debug"
    using assms(2,3) rf snd'
    by (cases debug; auto simp: GetFlows_def InitFlows_def Let_def split: prod.splits)+
qed (simp_all add: set_reports [OF assms(1)] length_reports [OF assms(1)])

definition collect_flow :: "(FlowKey \<times> FlowTelemetry) list FlowVisitor" where
  "collect_flow s k t = (None, s @ [(k, t)])"

lemma foldl_collect_flow: "foldl (\<lambda>s (k, t). snd (collect_flow s k t)) s xs = s @ xs"
  by (induction xs arbitrary: s) (auto simp: collect_flow_def)

definition two_flows :: flows where
  "two_flows = hal_Publish one_wan [demo_msg 1 500 2, demo_msg 2 50 1] (InitFlows 0)"

definition two_keys :: "string list" where
  "two_keys = [AsKey (msg_flow (demo_msg 2 50 1)), AsKey (msg_flow (demo_msg 1 500 2))]"

lemma demo_keys_differ: "AsKey (msg_flow (demo_msg 2 50 1)) \<noteq> AsKey (msg_flow (demo_msg 1 500 2))"
  using demo_msg_id [of 2 50 1 1 500 2] by (simp add: flow_key.key_eq)

lemma two_flows_aggregate:
  "flows_aggregate two_flows =
     [AsKey (msg_flow (demo_msg 1 500 2)) \<mapsto> \<lparr>agg_key = msg_flow (demo_msg 1 500 2), inIf = if_label (netflow_lookup one_wan) 7,
        outIf = if_label (netflow_lookup one_wan) 9, packets = 2, bytes = 500\<rparr>,
      AsKey (msg_flow (demo_msg 2 50 1)) \<mapsto> \<lparr>agg_key = msg_flow (demo_msg 2 50 1), inIf = if_label (netflow_lookup one_wan) 7,
        outIf = if_label (netflow_lookup one_wan) 9, packets = 1, bytes = 50\<rparr>]"
  "flows_start two_flows = 0"
  using demo_keys_differ
  by (simp_all add: two_flows_def InitFlows_def publish_msg_def Let_def)

lemma two_keys_range: "range_order (flows_aggregate two_flows) two_keys"
  using demo_keys_differ by (auto simp: two_keys_def range_order_def two_flows_aggregate)

lemma rate_second: "RxRateBps (ToTelemetry agg 1000000000) = ((bytes agg + 1) * 1000 - 1) div 1000"
  by (simp add: ToTelemetry_def Milliseconds_def go_quot_def)

theorem GetFlows_spec_witness:
  "\<exists>f seen out. GetFlows False 100 1000000000 two_keys collect_flow two_flows [] = (f, seen, out) \<and>
     flows_aggregate f = Map.empty \<and> length seen = 1 \<and> (\<exists>t. (msg_flow (demo_msg 1 500 2), t) \<in> set seen \<and> RxRateBps t = 500)"
proof -
  obtain f seen out where g: "GetFlows False 100 1000000000 two_keys collect_flow two_flows [] = (f, seen, out)"
    by (metis prod.collapse)
  have "Time_Sub 1000000000 (flows_start two_flows) = 1000000000" by (simp add: two_flows_aggregate Time_Sub_def)
  from GetFlows_spec [OF two_keys_range g this [symmetric]] obtain calls where
    seen: "seen = calls" and f: "f = InitFlows 1000000000"
    and calls: "\<And>k t. (k, t) \<in> set calls \<longleftrightarrow> (\<exists>key agg. flows_aggregate two_flows key = Some agg \<and>
       k = agg_key agg \<and> t = ToTelemetry agg 1000000000 \<and> 100 \<le> RxRateBps t)"
    and len: "length calls = card {key. \<exists>agg. flows_aggregate two_flows key = Some agg \<and>
       100 \<le> RxRateBps (ToTelemetry agg 1000000000)}"
    by (auto simp: foldl_collect_flow)
  have "{key. \<exists>agg. flows_aggregate two_flows key = Some agg \<and> 100 \<le> RxRateBps (ToTelemetry agg 1000000000)} =
      {AsKey (msg_flow (demo_msg 1 500 2))}"
    using demo_keys_differ by (auto simp: two_flows_aggregate rate_second split: if_splits)
  with len have "length calls = 1" by simp
  moreover have "(msg_flow (demo_msg 1 500 2), ToTelemetry (the (flows_aggregate two_flows (AsKey (msg_flow (demo_msg 1 500 2))))) 1000000000) \<in> set calls"
    unfolding calls using demo_keys_differ
    by (intro exI [of _ "AsKey (msg_flow (demo_msg 1 500 2))"]) (auto simp: two_flows_aggregate rate_second)
  moreover have "RxRateBps (ToTelemetry (the (flows_aggregate two_flows (AsKey (msg_flow (demo_msg 1 500 2))))) 1000000000) = 500"
    using demo_keys_differ by (simp add: two_flows_aggregate rate_second)
  ultimately show ?thesis using g seen f by (auto simp: InitFlows_def)
qed

section \<open>Conservation\<close>

text \<open>
  The events of a run of the accounting when the two goroutines do not overlap: a batch is
  published, with the registry of that moment, or a round of \<open>GetFlows\<close> runs.
\<close>

datatype 'm flow_event = EvPublish "'m registry" "FlowMessage list" | EvGetFlows int "string list"

fun run_event :: "u64 \<Rightarrow> 'm flow_event \<Rightarrow> flows \<times> (FlowKey \<times> FlowTelemetry) list \<Rightarrow>
    flows \<times> (FlowKey \<times> FlowTelemetry) list" where
  "run_event threshold (EvPublish reg msgs) (fl, seen) = (hal_Publish reg msgs fl, seen)"
| "run_event threshold (EvGetFlows now order) (fl, seen) =
     (case GetFlows False threshold now order collect_flow fl seen of (fl', seen', out) \<Rightarrow> (fl', seen'))"

fun run_events :: "u64 \<Rightarrow> 'm flow_event list \<Rightarrow> flows \<times> (FlowKey \<times> FlowTelemetry) list \<Rightarrow>
    flows \<times> (FlowKey \<times> FlowTelemetry) list" where
  "run_events threshold [] st = st"
| "run_events threshold (e # es) st = run_events threshold es (run_event threshold e st)"

fun allowed_events :: "u64 \<Rightarrow> 'm flow_event list \<Rightarrow> flows \<times> (FlowKey \<times> FlowTelemetry) list \<Rightarrow> bool" where
  "allowed_events threshold [] st \<longleftrightarrow> True"
| "allowed_events threshold (e # es) st \<longleftrightarrow>
     (case e of EvGetFlows now order \<Rightarrow> range_order (flows_aggregate (fst st)) order | _ \<Rightarrow> True) \<and>
     allowed_events threshold es (run_event threshold e st)"

definition published :: "'m flow_event list \<Rightarrow> u64" where
  "published es = (\<Sum>e\<leftarrow>es. case e of EvPublish reg msgs \<Rightarrow> sum_list (map msg_Bytes msgs) | _ \<Rightarrow> 0)"

text \<open>The bytes of the flows below the threshold, which a round drops without a report.\<close>

definition dropped_bytes :: "u64 \<Rightarrow> i64 \<Rightarrow> aggregate \<Rightarrow> string list \<Rightarrow> u64" where
  "dropped_bytes threshold interval m order =
     (\<Sum>key\<leftarrow>order. case m key of None \<Rightarrow> 0 | Some agg \<Rightarrow>
        if RxRateBps (ToTelemetry agg interval) < threshold then bytes agg else 0)"

fun dropped :: "u64 \<Rightarrow> 'm flow_event list \<Rightarrow> flows \<Rightarrow> u64" where
  "dropped threshold [] fl = 0"
| "dropped threshold (EvPublish reg msgs # es) fl = dropped threshold es (hal_Publish reg msgs fl)"
| "dropped threshold (EvGetFlows now order # es) fl =
     dropped_bytes threshold (Time_Sub now (flows_start fl)) (flows_aggregate fl) order +
     dropped threshold es (InitFlows now)"

lemma dropped_bytes_0 [simp]: "dropped_bytes 0 interval m order = 0"
  by (induction order) (simp_all add: dropped_bytes_def split: option.splits)

lemma dropped_0 [simp]: "dropped 0 es fl = 0"
  by (induction "0 :: u64" es fl rule: dropped.induct) simp_all

definition reported_bytes :: "(FlowKey \<times> FlowTelemetry) list \<Rightarrow> u64" where
  "reported_bytes seen = (\<Sum>(k, t)\<leftarrow>seen. RxTotalBytes t)"

lemma reported_bytes_append [simp]:
  "reported_bytes (xs @ ys) = reported_bytes xs + reported_bytes ys"
  by (simp add: reported_bytes_def)

lemma total_bytes: "RxTotalBytes (ToTelemetry agg d) = bytes agg"
  by (simp add: ToTelemetry_def Let_def)

lemma sum_list_add: "(\<Sum>x\<leftarrow>xs. f x + g x) = (\<Sum>x\<leftarrow>xs. f x) + (\<Sum>x\<leftarrow>xs. g x :: 'a :: comm_monoid_add)"
  by (induction xs) (simp_all add: ac_simps)

lemma reported_bytes_reports:
  assumes "range_order m order"
  shows "reported_bytes (reports threshold interval m order) + dropped_bytes threshold interval m order = weight_total bytes m"
proof -
  have "reported_bytes (reports threshold interval m order) =
      (\<Sum>key\<leftarrow>order. case m key of None \<Rightarrow> 0 | Some agg \<Rightarrow>
        if threshold \<le> RxRateBps (ToTelemetry agg interval) then bytes agg else 0)" if "set order \<subseteq> dom m" for order
    using that by (induction order) (auto simp: reports_def reported_bytes_def total_bytes split: if_splits)
  then have "reported_bytes (reports threshold interval m order) + dropped_bytes threshold interval m order =
      sum_list (map (weight_at bytes m) order)"
    using assms unfolding dropped_bytes_def range_order_def
    by (auto simp: sum_list_add [symmetric] weight_at_def intro!: arg_cong [where f = sum_list] split: option.splits)
  then show ?thesis using weight_total_range [OF assms] by metis
qed

lemma run_event_conserves:
  assumes "finite (dom (flows_aggregate fl))"
    and "case e of EvGetFlows now order \<Rightarrow> range_order (flows_aggregate fl) order | _ \<Rightarrow> True"
    and "run_event threshold e (fl, seen) = (fl', seen')"
  shows "reported_bytes seen' + weight_total bytes (flows_aggregate fl') + dropped threshold [e] fl =
      reported_bytes seen + weight_total bytes (flows_aggregate fl) + published [e] \<and>
    finite (dom (flows_aggregate fl')) \<and>
    dropped threshold (e # es) fl = dropped threshold [e] fl + dropped threshold es fl'"
proof (cases e)
  case (EvPublish reg msgs)
  with assms show ?thesis
    by (auto simp: published_def Publish_bytes_total finite_dom_Publish)
next
  case (EvGetFlows now order)
  with assms(2) have ro: "range_order (flows_aggregate fl) order" by simp
  obtain f s out where g: "GetFlows False threshold now order collect_flow fl seen = (f, s, out)"
    by (metis prod.collapse)
  have spec: "s = seen @ reports threshold (Time_Sub now (flows_start fl)) (flows_aggregate fl) order"
      "f = InitFlows now"
    using GetFlows_def report_flows_reports [where v = collect_flow and s = seen] ro g
    by (auto simp: GetFlows_def InitFlows_def foldl_collect_flow range_order_def Let_def)
  with EvGetFlows assms(3) g show ?thesis
    by (auto simp: published_def InitFlows_def reported_bytes_reports [OF ro, of threshold "Time_Sub now (flows_start fl)", symmetric] ac_simps)
qed

lemma published_Cons: "published (e # es) = published [e] + published es"
  by (simp add: published_def)

lemma run_events_conserves:
  assumes "finite (dom (flows_aggregate fl))" and "allowed_events threshold es (fl, seen)"
    and "run_events threshold es (fl, seen) = (fl', seen')"
  shows "reported_bytes seen' + weight_total bytes (flows_aggregate fl') + dropped threshold es fl =
    reported_bytes seen + weight_total bytes (flows_aggregate fl) + published es"
  using assms
proof (induction es arbitrary: fl seen)
  case Nil
  then show ?case by (simp add: published_def)
next
  case (Cons e es)
  obtain f s where st: "run_event threshold e (fl, seen) = (f, s)" by fastforce
  from Cons.prems(2) have ok:
    "case e of EvGetFlows now order \<Rightarrow> range_order (flows_aggregate fl) order | _ \<Rightarrow> True"
    by (cases e) simp_all
  note one = run_event_conserves [OF Cons.prems(1) ok st, of es]
  have "reported_bytes seen' + weight_total bytes (flows_aggregate fl') + dropped threshold es f =
      reported_bytes s + weight_total bytes (flows_aggregate f) + published es"
    using Cons.IH [of f s] one Cons.prems(2,3) st by simp
  note ih = this
  have "reported_bytes seen' + weight_total bytes (flows_aggregate fl') + dropped threshold (e # es) fl =
      (reported_bytes seen' + weight_total bytes (flows_aggregate fl') + dropped threshold es f) + dropped threshold [e] fl"
    using one by (simp only: ac_simps)
  also have "\<dots> = (reported_bytes s + weight_total bytes (flows_aggregate f) + dropped threshold [e] fl) + published es"
    unfolding ih by (simp only: ac_simps)
  also have "\<dots> = reported_bytes seen + weight_total bytes (flows_aggregate fl) + published (e # es)"
    using one published_Cons [of e es] by (simp only: add.assoc)
  finally show ?case .
qed

text \<open>
  \<^bold>\<open>C5\<close>. Where every byte goes while publishing and reporting do not overlap: over any sequence
  of batches and rounds from an empty aggregate, at any threshold, in which the range runs over
  the map in any order, the bytes published are the bytes the visitor was told of, plus those of
  the flows that were below the threshold at a round, plus the bytes still held (mod 2^64). At
  threshold 0 nothing is dropped, and so no byte is lost or reported twice.
\<close>

theorem accounting_conserves_bytes:
  assumes "allowed_events threshold es (InitFlows start, [])"
    and "run_events threshold es (InitFlows start, []) = (fl, seen)"
  shows "published es = reported_bytes seen + dropped threshold es (InitFlows start) +
      weight_total bytes (flows_aggregate fl) \<and>
    (threshold = 0 \<longrightarrow> published es = reported_bytes seen + weight_total bytes (flows_aggregate fl))"
  using run_events_conserves [of "InitFlows start" threshold es "[]" fl seen] assms
  by (auto simp: InitFlows_def reported_bytes_def ac_simps)

definition demo_events :: "string list flow_event list" where
  "demo_events = [EvPublish one_wan [demo_msg 1 500 2, demo_msg 2 50 1], EvGetFlows 1000000000 two_keys,
     EvPublish one_wan [demo_msg 1 30 1]]"

theorem accounting_conserves_bytes_witness:
  "\<exists>fl seen. run_events 100 demo_events (InitFlows 0, []) = (fl, seen) \<and>
     reported_bytes seen + 50 + weight_total bytes (flows_aggregate fl) = 580"
proof -
  have "allowed_events 100 demo_events (InitFlows 0, [])"
    using two_keys_range by (simp add: demo_events_def two_flows_def)
  moreover obtain fl seen where "run_events 100 demo_events (InitFlows 0, []) = (fl, seen)" by fastforce
  moreover have "published demo_events = 580" by (simp add: published_def demo_events_def)
  moreover have "dropped 100 demo_events (InitFlows 0) = 50"
    using demo_keys_differ
    by (simp add: demo_events_def two_flows_def [symmetric] two_flows_aggregate dropped_bytes_def two_keys_def Time_Sub_def rate_second)
  ultimately show ?thesis using accounting_conserves_bytes [of 100 demo_events 0 fl seen] by auto
qed

section \<open>Rates\<close>




section \<open>How far the key tells flows apart\<close>

text \<open>
  \<^bold>\<open>C34\<close>. Under \<open>AsKey\<close> two IPv4 flows share a key exactly when protocol, addresses and
  ports agree, in whichever of their two forms (4 or 16 bytes) the addresses are given, so no
  two flows are merged and none is counted twice.
\<close>

theorem AsKey_identifies_v4:
  assumes "v4_flow a" and "v4_flow b"
  shows "AsKey a = AsKey b \<longleftrightarrow> Protocol a = Protocol b \<and> To4 (SrcAddr a) = To4 (SrcAddr b) \<and>
    To4 (DstAddr a) = To4 (DstAddr b) \<and> SrcPort a = SrcPort b \<and> DstPort a = DstPort b"
  using flow_key.key_eq [OF assms] by (simp add: flow_id_def)

theorem AsKey_identifies_v4_witness:
  "AsKey (msg_flow (demo_msg 1 0 0)) \<noteq> AsKey (msg_flow (demo_msg 2 0 0))"
  unfolding AsKey_identifies_v4 [OF demo_msg_v4 demo_msg_v4]
  by (simp add: msg_flow_def demo_msg_def)

definition v6_flow :: "ip \<Rightarrow> ip \<Rightarrow> FlowKey" where
  "v6_flow src dst = \<lparr>Protocol = 6, SrcAddr = src, DstAddr = dst, SrcPort = 80, DstPort = 80\<rparr>"

text \<open>
  IPv6 flows do collide: the addresses are written with the separator of the key, so
  the flow from 1::2 to 3:4::5 and the flow from 1::2:3 to 4::5, between the same ports, are
  one entry of the aggregate and one rule of the steering cache.
\<close>

theorem AsKey_merges_v6:
  "\<exists>src dst src' dst'. (src, dst) \<noteq> (src', dst') \<and> length src = 16 \<and> length dst = 16 \<and>
     length src' = 16 \<and> length dst' = 16 \<and>
     AsKey (v6_flow src dst) = AsKey (v6_flow src' dst')"
proof -
  let ?a = "[0,1, 0,0, 0,0, 0,0, 0,0, 0,0, 0,0, 0,2] :: ip"
  let ?b = "[0,3, 0,4, 0,0, 0,0, 0,0, 0,0, 0,0, 0,5] :: ip"
  let ?c = "[0,1, 0,0, 0,0, 0,0, 0,0, 0,0, 0,2, 0,3] :: ip"
  let ?d = "[0,4, 0,0, 0,0, 0,0, 0,0, 0,0, 0,0, 0,5] :: ip"
  have "AsKey (v6_flow ?a ?b) = AsKey (v6_flow ?c ?d)"
    by (simp add: AsKey_def v6_flow_def IP_String_def To4_def v4InV6Prefix_def String6_def
        appendHex.simps hex_char_def zero_run_def)
  moreover have "(?a, ?b) \<noteq> (?c, ?d)" by simp
  moreover have "length ?a = 16" "length ?b = 16" "length ?c = 16" "length ?d = 16" by simp_all
  ultimately show ?thesis by (intro exI conjI)
qed

section \<open>Publishing and reporting at the same time\<close>

text \<open>
  \<open>Publish\<close> runs in goflow's worker and \<open>GetFlows\<close> in the caller's goroutine, without a
  lock. The steps in which they can interleave: \<open>Publish\<close> reads the map pointer
  (\<open>aggregate := hal.flows.aggregate\<close>) and then updates the map it holds; \<open>GetFlows\<close>
  swaps the pointer for a fresh map and then ranges over the old one. Maps live in a heap.
\<close>

record race =
  heap :: "nat \<Rightarrow> aggregate"
  fresh :: nat
  current :: nat
  publisher :: "(nat \<times> FlowMessage) option"
  reader :: "nat option"
  seen_reports :: "(FlowKey \<times> FlowTelemetry) list"

inductive race_step :: "(u32 \<Rightarrow> Interface option) \<Rightarrow> race \<Rightarrow> FlowMessage option \<Rightarrow> race \<Rightarrow> bool" for lookup where
  load: "publisher st = None \<Longrightarrow>
    race_step lookup st (Some msg) (st\<lparr>publisher := Some (current st, msg)\<rparr>)"
| store: "publisher st = Some (r, msg) \<Longrightarrow>
    race_step lookup st None
      (st\<lparr>publisher := None, heap := (heap st)(r := publish_msg lookup msg (heap st r))\<rparr>)"
| swap: "reader st = None \<Longrightarrow>
    race_step lookup st None
      (st\<lparr>reader := Some (current st), current := fresh st, fresh := Suc (fresh st),
          heap := (heap st)(fresh st := Map.empty)\<rparr>)"
| report: "reader st = Some r \<Longrightarrow> range_order (heap st r) order \<Longrightarrow>
    race_step lookup st None
      (st\<lparr>reader := None, seen_reports := report_flows 0 interval (heap st r) collect_flow order (seen_reports st)\<rparr>)"

inductive race_run :: "(u32 \<Rightarrow> Interface option) \<Rightarrow> race \<Rightarrow> FlowMessage list \<Rightarrow> race \<Rightarrow> bool" for lookup where
  race_done: "race_run lookup st [] st"
| race_more: "race_step lookup st ev st' \<Longrightarrow> race_run lookup st' msgs st'' \<Longrightarrow>
    race_run lookup st ((case ev of None \<Rightarrow> [] | Some msg \<Rightarrow> [msg]) @ msgs) st''"

inductive_cases race_stepE: "race_step lookup st ev st'"

definition race_start :: race where
  "race_start = \<lparr>heap = (\<lambda>_. Map.empty), fresh = 1, current = 0, publisher = None, reader = None,
     seen_reports = []\<rparr>"

definition race_held :: "race \<Rightarrow> u64" where
  "race_held st = weight_total bytes (heap st (current st)) +
     (case reader st of None \<Rightarrow> 0 | Some r \<Rightarrow> weight_total bytes (heap st r))"

text \<open>
  \<^bold>\<open>C39\<close>. Without a lock a message can be lost: there is an execution in which one message is
  published, both goroutines finish, and its bytes are neither reported nor held for a later
  round, because the map was swapped out between the publisher's read of the pointer and its
  update.
\<close>

theorem race_loses_message:
  "\<exists>msg st. race_run lookup race_start [msg] st \<and> publisher st = None \<and> reader st = None \<and>
     msg_Bytes msg = 500 \<and> reported_bytes (seen_reports st) + race_held st = 0"
proof -
  let ?msg = "demo_msg 1 500 2"
  define s1 where "s1 = race_start\<lparr>publisher := Some (current race_start, ?msg)\<rparr>"
  define s2 where "s2 = s1\<lparr>reader := Some (current s1), current := fresh s1, fresh := Suc (fresh s1),
    heap := (heap s1)(fresh s1 := Map.empty)\<rparr>"
  define s3 where "s3 = s2\<lparr>reader := None, seen_reports := report_flows 0 0 (heap s2 0) collect_flow [] (seen_reports s2)\<rparr>"
  define s4 where "s4 = s3\<lparr>publisher := None, heap := (heap s3)(0 := publish_msg lookup ?msg (heap s3 0))\<rparr>"
  have "race_step lookup race_start (Some ?msg) s1"
    unfolding s1_def by (rule load) (simp add: race_start_def)
  moreover have "race_step lookup s1 None s2"
    unfolding s2_def by (rule swap) (simp add: s1_def race_start_def)
  moreover have "race_step lookup s2 None s3"
    unfolding s3_def by (rule report) (simp_all add: s2_def s1_def race_start_def)
  moreover have "race_step lookup s3 None s4"
    unfolding s4_def by (rule store) (simp add: s3_def s2_def s1_def race_start_def)
  ultimately have "race_run lookup race_start [?msg] s4"
    using race_more [where ev = "Some ?msg" and msgs = "[]"] race_more [where ev = None and msgs = "[]"]
      race_done [of lookup s4] by simp
  moreover have "publisher s4 = None" "reader s4 = None" "seen_reports s4 = []" "race_held s4 = 0"
    by (simp_all add: s4_def s3_def s2_def s1_def race_start_def race_held_def)
  ultimately show ?thesis
    by (intro exI [of _ ?msg] exI [of _ s4]) (simp add: reported_bytes_def)
qed

end
