(* ===== verification/Xml.thy ===== *)
theory Xml
  imports GoStrings
begin

text \<open>
  XML documents as \<open>encoding/xml\<close> writes and reads them: elements with the name space the
  decoder resolves, attributes and character data. Text and indentation are the encoder's;
  the model starts and ends at the tree. Helpers for marshalling struct fields (empty values
  left out) and for unmarshalling them (children folded in document order, text trimmed and
  parsed for numbers).
\<close>

section \<open>Trees\<close>

datatype xml =
    Elem (xml_space: string) (xml_name: string) (xml_attrs: "(string \<times> string) list") (xml_kids: "xml list")
  | CData string

definition elem :: "string \<Rightarrow> xml list \<Rightarrow> xml" where
  "elem name kids = Elem [] name [] kids"

definition text_elem :: "string \<Rightarrow> string \<Rightarrow> xml" where
  "text_elem name s = elem name [CData s]"

section \<open>Marshalling fields\<close>

text \<open>A string field, an unsigned field and an \<open>int\<close> field with \<open>omitempty\<close>, an optional struct.\<close>

definition string_field :: "string \<Rightarrow> string \<Rightarrow> xml list" where
  "string_field name s = (if s = [] then [] else [text_elem name s])"

definition nat_field :: "string \<Rightarrow> nat \<Rightarrow> xml list" where
  "nat_field name n = (if n = 0 then [] else [text_elem name (utoa n)])"

definition int_field :: "string \<Rightarrow> int \<Rightarrow> xml list" where
  "int_field name n = (if n = 0 then [] else [text_elem name (itoa n)])"

definition ptr_field :: "('a \<Rightarrow> xml) \<Rightarrow> 'a option \<Rightarrow> xml list" where
  "ptr_field marshal p = (case p of None \<Rightarrow> [] | Some x \<Rightarrow> [marshal x])"

lemma ptr_field_simps [simp]:
  "ptr_field marshal None = []" "ptr_field marshal (Some x) = [marshal x]"
  by (simp_all add: ptr_field_def)

section \<open>Unmarshalling fields\<close>

text \<open>The character data directly inside an element; child elements are skipped.\<close>

fun text_of :: "xml list \<Rightarrow> string" where
  "text_of [] = []"
| "text_of (CData s # xs) = s @ text_of xs"
| "text_of (Elem sp n at kids # xs) = text_of xs"

definition blank :: "char \<Rightarrow> bool" where
  "blank c \<longleftrightarrow> c = CHR '' '' \<or> of_char c \<in> {9 .. 13 :: nat}"

definition TrimSpace :: "string \<Rightarrow> string" where
  "TrimSpace s = rev (dropWhile blank (rev (dropWhile blank s)))"

text \<open>\<open>strconv.ParseInt(s, 10, 64)\<close>\<close>

definition ParseInt64 :: "string \<Rightarrow> int outcome" where
  "ParseInt64 s =
     (let neg = (s \<noteq> [] \<and> hd s = CHR ''-'');
          digits = (if s \<noteq> [] \<and> (hd s = CHR ''-'' \<or> hd s = CHR ''+'') then tl s else s)
      in if s = [] then Err ''invalid syntax''
         else bind_outcome (ParseUint digits 64) (\<lambda>n.
           if neg then (if n \<le> 2 ^ 63 then Ok (- int n) else Err ''value out of range'')
           else (if n < 2 ^ 63 then Ok (int n) else Err ''value out of range'')))"

text \<open>Reading an \<open>int\<close> and an unsigned field: no text at all is zero.\<close>

definition read_int :: "xml list \<Rightarrow> int outcome" where
  "read_int kids = (if text_of kids = [] then Ok 0 else ParseInt64 (TrimSpace (text_of kids)))"

definition read_uint :: "nat \<Rightarrow> xml list \<Rightarrow> nat outcome" where
  "read_uint bits kids =
     (if text_of kids = [] then Ok 0 else ParseUint (TrimSpace (text_of kids)) bits)"

text \<open>
  The children of a struct's element, in document order, each taken by the field that claims
  it: a repeated element is read into the same field again, an unclaimed one is skipped.
\<close>

fun read_kids :: "('a \<Rightarrow> string \<Rightarrow> string \<Rightarrow> xml list \<Rightarrow> 'a outcome) \<Rightarrow> 'a \<Rightarrow> xml list \<Rightarrow> 'a outcome" where
  "read_kids f a [] = Ok a"
| "read_kids f a (CData s # xs) = read_kids f a xs"
| "read_kids f a (Elem sp n at kids # xs) = bind_outcome (f a sp n kids) (\<lambda>a'. read_kids f a' xs)"

section \<open>Reading back what was written\<close>

lemma is_digit_not_blank: "is_digit c \<Longrightarrow> \<not> blank c"
  by (auto simp: is_digit_def blank_def)

lemma TrimSpace_id:
  assumes "\<forall>c\<in>set s. \<not> blank c"
  shows "TrimSpace s = s"
proof -
  have "dropWhile blank s = s" using assms by (cases s) auto
  moreover have "dropWhile blank (rev s) = rev s" using assms by (cases "rev s") (auto simp: rev_eq_Cons_iff)
  ultimately show ?thesis by (simp add: TrimSpace_def)
qed

lemma TrimSpace_utoa [simp]: "TrimSpace (utoa n) = utoa n"
  using utoa_digits is_digit_not_blank by (intro TrimSpace_id) blast

lemma read_uint_utoa: "n < 2 ^ bits \<Longrightarrow> read_uint bits [CData (utoa n)] = Ok n"
  by (simp add: read_uint_def ParseUint_utoa)

lemma utoa_hd_digit: "is_digit (hd (utoa n))"
  using utoa_digits utoa_nonempty by (metis list.set_sel(1))

lemma not_digit_sign [simp]: "\<not> is_digit (CHR ''-'')" "\<not> is_digit (CHR ''+'')"
  by (simp_all add: is_digit_def)

lemma read_int_itoa:
  assumes "0 \<le> n" and "n < 2 ^ 63"
  shows "read_int [CData (itoa n)] = Ok n"
proof -
  have "hd (utoa (nat n)) \<noteq> CHR ''-''" "hd (utoa (nat n)) \<noteq> CHR ''+''"
    using utoa_hd_digit [of "nat n"] by (metis not_digit_sign)+
  moreover have "nat n < 2 ^ 64" "nat n < 2 ^ 63"
    using assms by (simp_all add: nat_less_iff)
  ultimately show ?thesis
    using assms by (simp add: read_int_def itoa_def ParseInt64_def utoa_nonempty ParseUint_utoa)
qed

end
