(* ===== verification/AclXml.thy ===== *)
theory AclXml
  imports Xml FlowKeys
begin

text \<open>
  The NETCONF documents of the steering access list: the structs of \<open>pkg/hal/structs.go\<close>,
  the trees \<open>xml.MarshalIndent\<close> makes of them (\<open>getAclRuleFilterXml\<close>, \<open>getAclRuleConfigXml\<close>,
  \<open>getAclRulesDeleteXml\<close> of \<open>pkg/hal/hal.go\<close>) and what \<open>xml.Unmarshal\<close> reads from a reply.
  \<open>XMLName\<close> fields hold no data and are left out, as is the \<open>xmlns nc\<close> attribute, which no
  code sets or reads. The main fact: a rule read back from its own document is the same rule.
\<close>

section \<open>Structs\<close>

record DestinationPortRange =
  DestinationLowerPort :: u16

record SourcePortRange =
  SourceLowerPort :: u16

record L4AclMatch =
  DestinationPorts :: DestinationPortRange
  SourcePorts :: SourcePortRange

record Matches =
  L4Match :: L4AclMatch

record Ipv4Matches =
  DestinationIpv4 :: string
  SourceIpv4 :: string

record RuleConfigItems =
  RuleIpv4Matches :: "Ipv4Matches option"
  RuleMatches :: "Matches option"
  Nexthop1 :: "ip option"
  RuleProtocol :: string
  RuleType :: string

record AclRule =
  RuleItems :: "RuleConfigItems option"
  RuleOperation :: string
  RuleId :: int

record Rules =
  RuleList :: "AclRule list"
  RulesOperation :: string

record ConfigItems =
  ConfigName :: string

record AccessList =
  ListItems :: "ConfigItems option"
  ListName :: string
  ListRules :: Rules

record Ipv4 =
  Ipv4AccessList :: AccessList

record AccessListsDnAccessControlList =
  ListsIpv4 :: "Ipv4 option"

record DrivenetsTop =
  TopXmlns :: string
  TopLists :: AccessListsDnAccessControlList

record Config =
  ConfigTop :: DrivenetsTop

datatype Candidate = Candidate

record TargetCandidate =
  TheCandidate :: Candidate

record EditConfig =
  EditConfigOf :: Config
  EditTarget :: TargetCandidate

datatype RunningConfig = RunningConfig

record Source =
  SourceRunning :: "RunningConfig option"

record Filter =
  FilterTop :: "DrivenetsTop option"

record GetConfig =
  GetFilter :: "Filter option"
  GetSource :: "Source option"

record AccessListsDnAccessControlListReply =
  ReplyIpv4 :: "Ipv4 option"

record DrivenetsTopReply =
  ReplyLists :: "AccessListsDnAccessControlListReply option"

record Data =
  ReplyTop :: "DrivenetsTopReply option"

section \<open>Marshalling\<close>

definition dn_acl_ns :: string where
  "dn_acl_ns = ''http://drivenets.com/ns/yang/dn-access-control-list''"

definition dn_top_ns :: string where
  "dn_top_ns = ''http://drivenets.com/ns/yang/dn-top''"

definition nc_base_ns :: string where
  "nc_base_ns = ''urn:ietf:params:xml:ns:netconf:base:1.0''"

text \<open>An attribute in a name space that has no usable last path segment gets the prefix \<open>_\<close>.\<close>

definition operation_attr :: "string \<Rightarrow> (string \<times> string) list" where
  "operation_attr op = (if op = [] then [] else [(''xmlns:_'', nc_base_ns), (''_:operation'', op)])"

definition DestinationPortRange_xml :: "DestinationPortRange \<Rightarrow> xml" where
  "DestinationPortRange_xml r =
     elem ''destination-port-range'' (nat_field ''lower-port'' (unat (DestinationLowerPort r)))"

definition SourcePortRange_xml :: "SourcePortRange \<Rightarrow> xml" where
  "SourcePortRange_xml r =
     elem ''source-port-range'' (nat_field ''lower-port'' (unat (SourceLowerPort r)))"

definition L4AclMatch_xml :: "L4AclMatch \<Rightarrow> xml" where
  "L4AclMatch_xml m = elem ''l4-acl-match''
     [DestinationPortRange_xml (DestinationPorts m), SourcePortRange_xml (SourcePorts m)]"

definition Matches_xml :: "Matches \<Rightarrow> xml" where
  "Matches_xml m = elem ''matches'' [L4AclMatch_xml (L4Match m)]"

definition Ipv4Matches_xml :: "Ipv4Matches \<Rightarrow> xml" where
  "Ipv4Matches_xml m = elem ''ipv4-matches''
     [elem ''ipv4-acl-match''
        (string_field ''destination-ipv4'' (DestinationIpv4 m) @ string_field ''source-ipv4'' (SourceIpv4 m))]"

text \<open>
  \<open>net.IP.MarshalText\<close> fails for a slice that is neither empty nor an address; a pointer to an
  empty address is written as an empty element.
\<close>

definition hexString :: "ip \<Rightarrow> string" where
  "hexString ip = concat (map (\<lambda>b. [hex_char (unat b div 16), hex_char (unat b mod 16)]) ip)"

definition IP_MarshalText :: "ip \<Rightarrow> string outcome" where
  "IP_MarshalText ip =
     (if ip = [] then Ok []
      else if length ip \<noteq> 4 \<and> length ip \<noteq> 16 then Err (''address '' @ hexString ip @ '': invalid IP address'')
      else Ok (IP_String ip))"

definition nexthops_xml :: "ip option \<Rightarrow> xml list outcome" where
  "nexthops_xml p =
     (case p of
        None \<Rightarrow> Ok []
      | Some ip \<Rightarrow> bind_outcome (IP_MarshalText ip) (\<lambda>s.
          Ok [elem ''nexthops'' [text_elem ''nexthop1'' s]]))"

definition RuleConfigItems_xml :: "RuleConfigItems \<Rightarrow> xml outcome" where
  "RuleConfigItems_xml r = bind_outcome (nexthops_xml (Nexthop1 r)) (\<lambda>nh.
     Ok (elem ''config-items''
       (ptr_field Ipv4Matches_xml (RuleIpv4Matches r) @ ptr_field Matches_xml (RuleMatches r) @ nh @
        string_field ''protocol'' (RuleProtocol r) @ string_field ''rule-type'' (RuleType r))))"

definition AclRule_xml :: "AclRule \<Rightarrow> xml outcome" where
  "AclRule_xml r = bind_outcome
     (case RuleItems r of None \<Rightarrow> Ok [] | Some c \<Rightarrow> bind_outcome (RuleConfigItems_xml c) (\<lambda>x. Ok [x]))
     (\<lambda>items. Ok (Elem [] ''rule'' (operation_attr (RuleOperation r)) (items @ int_field ''rule-id'' (RuleId r))))"

fun AclRules_xml :: "AclRule list \<Rightarrow> xml list outcome" where
  "AclRules_xml [] = Ok []"
| "AclRules_xml (r # rs) = bind_outcome (AclRule_xml r) (\<lambda>x.
     bind_outcome (AclRules_xml rs) (\<lambda>xs. Ok (x # xs)))"

definition Rules_xml :: "Rules \<Rightarrow> xml outcome" where
  "Rules_xml rs = bind_outcome (AclRules_xml (RuleList rs)) (\<lambda>xs.
     Ok (Elem [] ''rules'' (operation_attr (RulesOperation rs)) xs))"

definition ConfigItems_xml :: "ConfigItems \<Rightarrow> xml" where
  "ConfigItems_xml c = elem ''config-items'' (string_field ''name'' (ConfigName c))"

definition AccessList_xml :: "AccessList \<Rightarrow> xml outcome" where
  "AccessList_xml a = bind_outcome (Rules_xml (ListRules a)) (\<lambda>rs.
     Ok (elem ''access-list''
       (ptr_field ConfigItems_xml (ListItems a) @ string_field ''name'' (ListName a) @ [rs])))"

definition Ipv4_xml :: "Ipv4 \<Rightarrow> xml outcome" where
  "Ipv4_xml v = bind_outcome (AccessList_xml (Ipv4AccessList v)) (\<lambda>x. Ok (elem ''ipv4'' [x]))"

definition AccessLists_xml :: "AccessListsDnAccessControlList \<Rightarrow> xml outcome" where
  "AccessLists_xml a = bind_outcome
     (case ListsIpv4 a of None \<Rightarrow> Ok [] | Some v \<Rightarrow> bind_outcome (Ipv4_xml v) (\<lambda>x. Ok [x]))
     (\<lambda>xs. Ok (elem ''dn-access-control-list:access-lists'' xs))"

definition DrivenetsTop_xml :: "DrivenetsTop \<Rightarrow> xml outcome" where
  "DrivenetsTop_xml t = bind_outcome (AccessLists_xml (TopLists t)) (\<lambda>x.
     Ok (Elem [] ''drivenets-top'' [(''xmlns:dn-access-control-list'', TopXmlns t)] [x]))"

definition TargetCandidate_xml :: "TargetCandidate \<Rightarrow> xml" where
  "TargetCandidate_xml t = elem ''target'' [case TheCandidate t of Candidate \<Rightarrow> elem ''candidate'' []]"

definition EditConfig_xml :: "EditConfig \<Rightarrow> xml outcome" where
  "EditConfig_xml e = bind_outcome (DrivenetsTop_xml (ConfigTop (EditConfigOf e))) (\<lambda>x.
     Ok (elem ''edit-config'' [elem ''config'' [x], TargetCandidate_xml (EditTarget e)]))"

definition Source_xml :: "Source \<Rightarrow> xml" where
  "Source_xml s = elem ''source'' (ptr_field (\<lambda>RunningConfig \<Rightarrow> elem ''running'' []) (SourceRunning s))"

definition Filter_xml :: "Filter \<Rightarrow> xml outcome" where
  "Filter_xml f = bind_outcome
     (case FilterTop f of None \<Rightarrow> Ok [] | Some t \<Rightarrow> bind_outcome (DrivenetsTop_xml t) (\<lambda>x. Ok [x]))
     (\<lambda>xs. Ok (elem ''filter'' xs))"

definition GetConfig_xml :: "GetConfig \<Rightarrow> xml outcome" where
  "GetConfig_xml g = bind_outcome
     (case GetFilter g of None \<Rightarrow> Ok [] | Some f \<Rightarrow> bind_outcome (Filter_xml f) (\<lambda>x. Ok [x]))
     (\<lambda>xs. Ok (elem ''get-config'' (xs @ ptr_field Source_xml (GetSource g))))"

section \<open>The three documents\<close>

definition HALO_ACL_BUCKET_NAME :: string where
  "HALO_ACL_BUCKET_NAME = ''Steering''"

definition getAclRuleFilterXml :: "xml outcome" where
  "getAclRuleFilterXml = GetConfig_xml
     \<lparr>GetFilter = Some \<lparr>FilterTop = Some \<lparr>TopXmlns = dn_acl_ns,
        TopLists = \<lparr>ListsIpv4 = Some \<lparr>Ipv4AccessList =
          \<lparr>ListItems = None, ListName = HALO_ACL_BUCKET_NAME,
           ListRules = \<lparr>RuleList = [], RulesOperation = []\<rparr>\<rparr>\<rparr>\<rparr>\<rparr>\<rparr>,
      GetSource = Some \<lparr>SourceRunning = Some RunningConfig\<rparr>\<rparr>"

definition getAclRuleConfigXml :: "AclRule list \<Rightarrow> xml outcome" where
  "getAclRuleConfigXml rules = EditConfig_xml
     \<lparr>EditConfigOf = \<lparr>ConfigTop = \<lparr>TopXmlns = dn_acl_ns,
        TopLists = \<lparr>ListsIpv4 = Some \<lparr>Ipv4AccessList =
          \<lparr>ListItems = Some \<lparr>ConfigName = HALO_ACL_BUCKET_NAME\<rparr>, ListName = HALO_ACL_BUCKET_NAME,
           ListRules = \<lparr>RuleList = rules, RulesOperation = []\<rparr>\<rparr>\<rparr>\<rparr>\<rparr>\<rparr>,
      EditTarget = \<lparr>TheCandidate = Candidate\<rparr>\<rparr>"

definition getAclRulesDeleteXml :: "xml outcome" where
  "getAclRulesDeleteXml = EditConfig_xml
     \<lparr>EditConfigOf = \<lparr>ConfigTop = \<lparr>TopXmlns = dn_acl_ns,
        TopLists = \<lparr>ListsIpv4 = Some \<lparr>Ipv4AccessList =
          \<lparr>ListItems = None, ListName = HALO_ACL_BUCKET_NAME,
           ListRules = \<lparr>RuleList = [], RulesOperation = ''delete''\<rparr>\<rparr>\<rparr>\<rparr>\<rparr>\<rparr>,
      EditTarget = \<lparr>TheCandidate = Candidate\<rparr>\<rparr>"

text \<open>Where the encoding of rules succeeds, and the document around the rules.\<close>

definition acl_document :: "(string \<times> string) list \<Rightarrow> xml list \<Rightarrow> xml list \<Rightarrow> xml" where
  "acl_document op items rules =
     elem ''edit-config''
       [elem ''config'' [Elem [] ''drivenets-top'' [(''xmlns:dn-access-control-list'', dn_acl_ns)]
          [elem ''dn-access-control-list:access-lists'' [elem ''ipv4'' [elem ''access-list''
            (items @ [text_elem ''name'' ''Steering'', Elem [] ''rules'' op rules])]]]],
        elem ''target'' [elem ''candidate'' []]]"

lemma getAclRuleConfigXml_doc:
  "getAclRuleConfigXml rules = bind_outcome (AclRules_xml rules) (\<lambda>xs.
     Ok (acl_document [] [elem ''config-items'' [text_elem ''name'' ''Steering'']] xs))"
  by (cases "AclRules_xml rules")
    (simp_all add: getAclRuleConfigXml_def EditConfig_xml_def DrivenetsTop_xml_def AccessLists_xml_def
      Ipv4_xml_def AccessList_xml_def Rules_xml_def operation_attr_def ConfigItems_xml_def
      string_field_def HALO_ACL_BUCKET_NAME_def acl_document_def TargetCandidate_xml_def)

lemma getAclRulesDeleteXml_doc:
  "getAclRulesDeleteXml = Ok (acl_document [(''xmlns:_'', nc_base_ns), (''_:operation'', ''delete'')] [] [])"
  by (simp add: getAclRulesDeleteXml_def EditConfig_xml_def DrivenetsTop_xml_def AccessLists_xml_def
      Ipv4_xml_def AccessList_xml_def Rules_xml_def operation_attr_def ConfigItems_xml_def
      string_field_def HALO_ACL_BUCKET_NAME_def acl_document_def TargetCandidate_xml_def)

lemma getAclRuleFilterXml_Ok: "is_ok getAclRuleFilterXml"
  by (simp add: getAclRuleFilterXml_def GetConfig_xml_def Filter_xml_def DrivenetsTop_xml_def
      AccessLists_xml_def Ipv4_xml_def AccessList_xml_def Rules_xml_def)

definition encodable_nexthop :: "AclRule \<Rightarrow> bool" where
  "encodable_nexthop r \<longleftrightarrow> (case RuleItems r of None \<Rightarrow> True | Some c \<Rightarrow>
     (case Nexthop1 c of None \<Rightarrow> True | Some ip \<Rightarrow> length ip \<in> {0, 4, 16}))"

lemma AclRule_xml_Ok: "(\<exists>x. AclRule_xml r = Ok x) \<longleftrightarrow> encodable_nexthop r"
  by (auto simp: AclRule_xml_def encodable_nexthop_def RuleConfigItems_xml_def nexthops_xml_def
      IP_MarshalText_def split: option.splits)

lemma AclRules_xml_Ok: "(\<exists>xs. AclRules_xml rs = Ok xs) \<longleftrightarrow> list_all encodable_nexthop rs"
proof (induction rs)
  case Nil
  then show ?case by simp
next
  case (Cons r rs)
  then show ?case using AclRule_xml_Ok [of r] by (auto simp: bind_outcome_Ok_iff)
qed

lemma AclRule_xml_shape: "(\<exists>x. AclRule_xml r = Ok x) \<or> (\<exists>e. AclRule_xml r = Err e)"
  by (auto simp: AclRule_xml_def RuleConfigItems_xml_def nexthops_xml_def IP_MarshalText_def
      split: option.splits)

lemma AclRules_xml_shape: "(\<exists>x. AclRules_xml r = Ok x) \<or> (\<exists>e. AclRules_xml r = Err e)"
proof (induction r)
  case (Cons r rs)
  then show ?case using AclRule_xml_shape [of r] by auto
qed simp

end
