(* ===== verification/AclReply.thy ===== *)
theory AclReply
  imports AclXml
begin

text \<open>
  Reading the device's access list: \<open>xml.Unmarshal\<close> of a reply into the structs of
  \<open>pkg/hal/structs.go\<close>, field by field. Attributes of a reply are not read by any code and
  are skipped. The main fact is the round trip: unmarshalling what \<open>AclRule_xml\<close> wrote gives
  the rule back, next hops in their 16-byte form.
\<close>

section \<open>Zero values\<close>

definition zero_Matches :: Matches where
  "zero_Matches = \<lparr>L4Match = \<lparr>DestinationPorts = \<lparr>DestinationLowerPort = 0\<rparr>,
     SourcePorts = \<lparr>SourceLowerPort = 0\<rparr>\<rparr>\<rparr>"

definition zero_Ipv4Matches :: Ipv4Matches where
  "zero_Ipv4Matches = \<lparr>DestinationIpv4 = [], SourceIpv4 = []\<rparr>"

definition zero_RuleConfigItems :: RuleConfigItems where
  "zero_RuleConfigItems = \<lparr>RuleIpv4Matches = None, RuleMatches = None, Nexthop1 = None,
     RuleProtocol = [], RuleType = []\<rparr>"

definition zero_AclRule :: AclRule where
  "zero_AclRule = \<lparr>RuleItems = None, RuleOperation = [], RuleId = 0\<rparr>"

definition zero_Rules :: Rules where
  "zero_Rules = \<lparr>RuleList = [], RulesOperation = []\<rparr>"

definition zero_AccessList :: AccessList where
  "zero_AccessList = \<lparr>ListItems = None, ListName = [], ListRules = zero_Rules\<rparr>"

text \<open>A pointer field is allocated once and then read into again.\<close>

definition deref_or :: "'a \<Rightarrow> 'a option \<Rightarrow> 'a" where
  "deref_or z p = (case p of None \<Rightarrow> z | Some x \<Rightarrow> x)"

lemma deref_or_simps [simp]: "deref_or z None = z" "deref_or z (Some x) = x"
  by (simp_all add: deref_or_def)

section \<open>Unmarshalling\<close>

definition read_port :: "xml list \<Rightarrow> u16 outcome" where
  "read_port kids = bind_outcome (read_uint 16 kids) (\<lambda>n. Ok (word_of_nat n))"

definition DestinationPortRange_read :: "DestinationPortRange \<Rightarrow> xml list \<Rightarrow> DestinationPortRange outcome" where
  "DestinationPortRange_read = read_kids (\<lambda>r sp n kids.
     if n = ''lower-port'' then bind_outcome (read_port kids) (\<lambda>p. Ok (r\<lparr>DestinationLowerPort := p\<rparr>))
     else Ok r)"

definition SourcePortRange_read :: "SourcePortRange \<Rightarrow> xml list \<Rightarrow> SourcePortRange outcome" where
  "SourcePortRange_read = read_kids (\<lambda>r sp n kids.
     if n = ''lower-port'' then bind_outcome (read_port kids) (\<lambda>p. Ok (r\<lparr>SourceLowerPort := p\<rparr>))
     else Ok r)"

definition L4AclMatch_read :: "L4AclMatch \<Rightarrow> xml list \<Rightarrow> L4AclMatch outcome" where
  "L4AclMatch_read = read_kids (\<lambda>m sp n kids.
     if n = ''destination-port-range''
     then bind_outcome (DestinationPortRange_read (DestinationPorts m) kids) (\<lambda>r. Ok (m\<lparr>DestinationPorts := r\<rparr>))
     else if n = ''source-port-range''
     then bind_outcome (SourcePortRange_read (SourcePorts m) kids) (\<lambda>r. Ok (m\<lparr>SourcePorts := r\<rparr>))
     else Ok m)"

definition Matches_read :: "Matches \<Rightarrow> xml list \<Rightarrow> Matches outcome" where
  "Matches_read = read_kids (\<lambda>m sp n kids.
     if n = ''l4-acl-match''
     then bind_outcome (L4AclMatch_read (L4Match m) kids) (\<lambda>l. Ok (m\<lparr>L4Match := l\<rparr>))
     else Ok m)"

text \<open>The two fields with a path share their parent element.\<close>

definition Ipv4Matches_read :: "Ipv4Matches \<Rightarrow> xml list \<Rightarrow> Ipv4Matches outcome" where
  "Ipv4Matches_read = read_kids (\<lambda>m sp n kids.
     if n = ''ipv4-acl-match''
     then read_kids (\<lambda>m sp n kids.
       if n = ''destination-ipv4'' then Ok (m\<lparr>DestinationIpv4 := text_of kids\<rparr>)
       else if n = ''source-ipv4'' then Ok (m\<lparr>SourceIpv4 := text_of kids\<rparr>)
       else Ok m) m kids
     else Ok m)"

text \<open>\<open>net.IP.UnmarshalText\<close>; the text is not trimmed.\<close>

definition IP_UnmarshalText :: "string \<Rightarrow> ip outcome" where
  "IP_UnmarshalText s =
     (if s = [] then Ok []
      else if ParseIP s = [] then Err (''invalid IP address: '' @ s)
      else Ok (ParseIP s))"

definition RuleConfigItems_read :: "RuleConfigItems \<Rightarrow> xml list \<Rightarrow> RuleConfigItems outcome" where
  "RuleConfigItems_read = read_kids (\<lambda>r sp n kids.
     if n = ''ipv4-matches''
     then bind_outcome (Ipv4Matches_read (deref_or zero_Ipv4Matches (RuleIpv4Matches r)) kids)
       (\<lambda>m. Ok (r\<lparr>RuleIpv4Matches := Some m\<rparr>))
     else if n = ''matches''
     then bind_outcome (Matches_read (deref_or zero_Matches (RuleMatches r)) kids)
       (\<lambda>m. Ok (r\<lparr>RuleMatches := Some m\<rparr>))
     else if n = ''nexthops''
     then read_kids (\<lambda>r sp n kids.
       if n = ''nexthop1''
       then bind_outcome (IP_UnmarshalText (text_of kids)) (\<lambda>ip. Ok (r\<lparr>Nexthop1 := Some ip\<rparr>))
       else Ok r) r kids
     else if n = ''protocol'' then Ok (r\<lparr>RuleProtocol := text_of kids\<rparr>)
     else if n = ''rule-type'' then Ok (r\<lparr>RuleType := text_of kids\<rparr>)
     else Ok r)"

definition AclRule_read :: "AclRule \<Rightarrow> xml list \<Rightarrow> AclRule outcome" where
  "AclRule_read = read_kids (\<lambda>r sp n kids.
     if n = ''config-items''
     then bind_outcome (RuleConfigItems_read (deref_or zero_RuleConfigItems (RuleItems r)) kids)
       (\<lambda>c. Ok (r\<lparr>RuleItems := Some c\<rparr>))
     else if n = ''rule-id'' then bind_outcome (read_int kids) (\<lambda>i. Ok (r\<lparr>RuleId := i\<rparr>))
     else Ok r)"

definition Rules_read :: "Rules \<Rightarrow> xml list \<Rightarrow> Rules outcome" where
  "Rules_read = read_kids (\<lambda>rs sp n kids.
     if n = ''rule''
     then bind_outcome (AclRule_read zero_AclRule kids) (\<lambda>r. Ok (rs\<lparr>RuleList := RuleList rs @ [r]\<rparr>))
     else Ok rs)"

definition ConfigItems_read :: "ConfigItems \<Rightarrow> xml list \<Rightarrow> ConfigItems outcome" where
  "ConfigItems_read = read_kids (\<lambda>c sp n kids.
     if n = ''name'' then Ok (c\<lparr>ConfigName := text_of kids\<rparr>) else Ok c)"

definition AccessList_read :: "AccessList \<Rightarrow> xml list \<Rightarrow> AccessList outcome" where
  "AccessList_read = read_kids (\<lambda>a sp n kids.
     if n = ''config-items''
     then bind_outcome (ConfigItems_read (deref_or \<lparr>ConfigName = []\<rparr> (ListItems a)) kids)
       (\<lambda>c. Ok (a\<lparr>ListItems := Some c\<rparr>))
     else if n = ''name'' then Ok (a\<lparr>ListName := text_of kids\<rparr>)
     else if n = ''rules''
     then bind_outcome (Rules_read (ListRules a) kids) (\<lambda>rs. Ok (a\<lparr>ListRules := rs\<rparr>))
     else Ok a)"

definition Ipv4_read :: "Ipv4 \<Rightarrow> xml list \<Rightarrow> Ipv4 outcome" where
  "Ipv4_read = read_kids (\<lambda>v sp n kids.
     if n = ''access-list''
     then bind_outcome (AccessList_read (Ipv4AccessList v) kids) (\<lambda>a. Ok (v\<lparr>Ipv4AccessList := a\<rparr>))
     else Ok v)"

definition AccessListsReply_read ::
    "AccessListsDnAccessControlListReply \<Rightarrow> xml list \<Rightarrow> AccessListsDnAccessControlListReply outcome" where
  "AccessListsReply_read = read_kids (\<lambda>l sp n kids.
     if n = ''ipv4''
     then bind_outcome (Ipv4_read (deref_or \<lparr>Ipv4AccessList = zero_AccessList\<rparr> (ReplyIpv4 l)) kids)
       (\<lambda>v. Ok (l\<lparr>ReplyIpv4 := Some v\<rparr>))
     else Ok l)"

definition DrivenetsTopReply_read :: "DrivenetsTopReply \<Rightarrow> xml list \<Rightarrow> DrivenetsTopReply outcome" where
  "DrivenetsTopReply_read = read_kids (\<lambda>t sp n kids.
     if n = ''access-lists'' \<and> sp = dn_acl_ns
     then bind_outcome (AccessListsReply_read (deref_or \<lparr>ReplyIpv4 = None\<rparr> (ReplyLists t)) kids)
       (\<lambda>l. Ok (t\<lparr>ReplyLists := Some l\<rparr>))
     else Ok t)"

definition Data_read :: "Data \<Rightarrow> xml list \<Rightarrow> Data outcome" where
  "Data_read = read_kids (\<lambda>d sp n kids.
     if n = ''drivenets-top'' \<and> sp = dn_top_ns
     then bind_outcome (DrivenetsTopReply_read (deref_or \<lparr>ReplyLists = None\<rparr> (ReplyTop d)) kids)
       (\<lambda>t. Ok (d\<lparr>ReplyTop := Some t\<rparr>))
     else Ok d)"

text \<open>The whole reply: its first element, which must be a \<open>data\<close> element.\<close>

fun Data_Unmarshal :: "xml list \<Rightarrow> Data outcome" where
  "Data_Unmarshal [] = Err ''EOF''"
| "Data_Unmarshal (CData s # xs) = Data_Unmarshal xs"
| "Data_Unmarshal (Elem sp n at kids # xs) =
     (if n \<noteq> ''data'' then Err (''expected element type <data> but have <'' @ n @ ''>'')
      else Data_read \<lparr>ReplyTop = None\<rparr> kids)"

section \<open>Round trips\<close>

lemma read_port_utoa [simp]: "read_port [CData (utoa (unat p))] = Ok (p :: u16)"
proof -
  have "unat p < 2 ^ 16" using unsigned_less [of p] by simp
  then show ?thesis by (simp add: read_port_def read_uint_utoa)
qed

lemma DestinationPortRange_round [simp]:
  "DestinationPortRange_read \<lparr>DestinationLowerPort = 0\<rparr> (xml_kids (DestinationPortRange_xml r)) = Ok r"
  by (cases r) (simp add: DestinationPortRange_read_def DestinationPortRange_xml_def elem_def
      nat_field_def text_elem_def unat_eq_0)

lemma SourcePortRange_round [simp]:
  "SourcePortRange_read \<lparr>SourceLowerPort = 0\<rparr> (xml_kids (SourcePortRange_xml r)) = Ok r"
  by (cases r) (simp add: SourcePortRange_read_def SourcePortRange_xml_def elem_def
      nat_field_def text_elem_def unat_eq_0)

lemma port_range_names:
  "DestinationPortRange_xml r = Elem [] ''destination-port-range'' [] (xml_kids (DestinationPortRange_xml r))"
  "SourcePortRange_xml s = Elem [] ''source-port-range'' [] (xml_kids (SourcePortRange_xml s))"
  by (simp_all add: DestinationPortRange_xml_def SourcePortRange_xml_def elem_def)

lemma Matches_round [simp]: "Matches_read zero_Matches (xml_kids (Matches_xml m)) = Ok m"
proof -
  have "L4AclMatch_read (L4Match zero_Matches) (xml_kids (L4AclMatch_xml l)) = Ok l" for l
    by (cases l) (subst L4AclMatch_xml_def, subst port_range_names(1), subst port_range_names(2),
        simp add: L4AclMatch_read_def elem_def zero_Matches_def)
  then show ?thesis
    by (cases m) (simp add: Matches_read_def Matches_xml_def L4AclMatch_xml_def elem_def zero_Matches_def)
qed

lemma Ipv4Matches_round [simp]:
  "Ipv4Matches_read zero_Ipv4Matches (xml_kids (Ipv4Matches_xml m)) = Ok m"
  by (cases m) (simp add: Ipv4Matches_read_def Ipv4Matches_xml_def elem_def string_field_def
      text_elem_def zero_Ipv4Matches_def)

text \<open>Addresses come back in 16-byte form.\<close>

definition canonical_ip :: "ip \<Rightarrow> ip" where
  "canonical_ip ip = (if ip = [] then [] else v4InV6Prefix @ To4 ip)"

lemma IP_text_round:
  assumes "ip = [] \<or> is_v4 ip"
  shows "\<exists>s. IP_MarshalText ip = Ok s \<and> IP_UnmarshalText s = Ok (canonical_ip ip)"
proof (cases "ip = []")
  case True
  then show ?thesis by (simp add: IP_MarshalText_def IP_UnmarshalText_def canonical_ip_def)
next
  case False
  with assms have v4: "is_v4 ip" by simp
  then have len: "length ip = 4 \<or> length ip = 16"
    by (auto simp: is_v4_def To4_def split: if_splits)
  have p: "ParseIP (IP_String ip) = v4InV6Prefix @ To4 ip" using v4 by (rule ParseIP_String)
  have "IP_String ip \<noteq> []"
    using is_v4_obtain [OF v4] by (metis IP_String_v4 [OF v4] append_is_Nil_conv dotted4 utoa_nonempty)
  with False len p show ?thesis
    by (auto simp: IP_MarshalText_def IP_UnmarshalText_def canonical_ip_def v4InV6Prefix_def)
qed

definition canonical_items :: "RuleConfigItems \<Rightarrow> RuleConfigItems" where
  "canonical_items c = c\<lparr>Nexthop1 := map_option canonical_ip (Nexthop1 c)\<rparr>"

definition v4_nexthop :: "RuleConfigItems \<Rightarrow> bool" where
  "v4_nexthop c \<longleftrightarrow> (case Nexthop1 c of None \<Rightarrow> True | Some ip \<Rightarrow> ip = [] \<or> is_v4 ip)"

lemma match_names:
  "Ipv4Matches_xml m = Elem [] ''ipv4-matches'' [] (xml_kids (Ipv4Matches_xml m))"
  "Matches_xml k = Elem [] ''matches'' [] (xml_kids (Matches_xml k))"
  by (simp_all add: Ipv4Matches_xml_def Matches_xml_def elem_def)

lemma read_kids_append:
  "read_kids f a (xs @ ys) = bind_outcome (read_kids f a xs) (\<lambda>b. read_kids f b ys)"
proof (induction xs arbitrary: a)
  case (Cons x xs)
  then show ?case by (cases x) (simp_all add: bind_outcome_assoc)
qed simp


text \<open>One field of \<open>RuleConfigItems\<close> at a time: what its marshalled form does when read.\<close>

lemma read_ptr_field:
  assumes "\<And>m. marshal m = Elem [] n [] (xml_kids (marshal m))"
    and "\<And>m. f a [] n (xml_kids (marshal m)) = Ok (upd m)"
  shows "read_kids f a (ptr_field marshal p) = Ok (case p of None \<Rightarrow> a | Some m \<Rightarrow> upd m)"
proof (cases p)
  case (Some m)
  have "read_kids f a [marshal m] = Ok (upd m)"
    by (subst assms(1)) (simp add: assms(2))
  with Some show ?thesis by simp
qed simp

lemma RuleConfigItems_round:
  assumes "v4_nexthop c"
  shows "\<exists>x. RuleConfigItems_xml c = Ok x \<and> xml_name x = ''config-items'' \<and>
    x = Elem [] ''config-items'' [] (xml_kids x) \<and>
    RuleConfigItems_read zero_RuleConfigItems (xml_kids x) = Ok (canonical_items c)"
proof -
  obtain m k nh pr ty where c: "c = \<lparr>RuleIpv4Matches = m, RuleMatches = k, Nexthop1 = nh,
      RuleProtocol = pr, RuleType = ty\<rparr>"
    by (cases c)
  let ?nh = "map_option canonical_ip nh"
  obtain xs where nx: "nexthops_xml nh = Ok xs"
    and rd: "RuleConfigItems_read r xs = Ok (case ?nh of None \<Rightarrow> r | Some ip \<Rightarrow> r\<lparr>Nexthop1 := Some ip\<rparr>)" for r
  proof (cases nh)
    case None
    then show ?thesis using that [of "[]"] by (simp add: nexthops_xml_def RuleConfigItems_read_def)
  next
    case (Some ip)
    with assms c have "ip = [] \<or> is_v4 ip" by (simp add: v4_nexthop_def)
    then obtain s where "IP_MarshalText ip = Ok s" "IP_UnmarshalText s = Ok (canonical_ip ip)"
      using IP_text_round by blast
    with Some show ?thesis
      using that [of "[elem ''nexthops'' [text_elem ''nexthop1'' s]]"]
      by (simp add: nexthops_xml_def RuleConfigItems_read_def elem_def text_elem_def)
  qed
  have ip: "RuleConfigItems_read zero_RuleConfigItems (ptr_field Ipv4Matches_xml m) =
      Ok (zero_RuleConfigItems\<lparr>RuleIpv4Matches := m\<rparr>)"
    unfolding RuleConfigItems_read_def
    by (subst read_ptr_field [where n = "''ipv4-matches''" and
          upd = "\<lambda>x. zero_RuleConfigItems\<lparr>RuleIpv4Matches := Some x\<rparr>"])
      (simp_all add: match_names(1) [symmetric] zero_RuleConfigItems_def split: option.splits)
  have mt: "RuleConfigItems_read (zero_RuleConfigItems\<lparr>RuleIpv4Matches := m\<rparr>) (ptr_field Matches_xml k) =
      Ok (zero_RuleConfigItems\<lparr>RuleIpv4Matches := m, RuleMatches := k\<rparr>)"
    unfolding RuleConfigItems_read_def
    by (subst read_ptr_field [where n = "''matches''" and
          upd = "\<lambda>x. zero_RuleConfigItems\<lparr>RuleIpv4Matches := m, RuleMatches := Some x\<rparr>"])
      (simp_all add: match_names(2) [symmetric] zero_RuleConfigItems_def split: option.splits)
  have st: "RuleConfigItems_read r (string_field ''protocol'' pr @ string_field ''rule-type'' ty) =
      Ok (r\<lparr>RuleProtocol := pr, RuleType := ty\<rparr>)" if "RuleProtocol r = []" "RuleType r = []" for r
    using that unfolding RuleConfigItems_read_def
    by (cases r) (simp add: string_field_def text_elem_def elem_def)
  let ?r = "case ?nh of None \<Rightarrow> zero_RuleConfigItems\<lparr>RuleIpv4Matches := m, RuleMatches := k\<rparr>
    | Some ip \<Rightarrow> zero_RuleConfigItems\<lparr>RuleIpv4Matches := m, RuleMatches := k\<rparr>\<lparr>Nexthop1 := Some ip\<rparr>"
  have zr: "RuleProtocol ?r = []" "RuleType ?r = []"
    by (simp_all add: zero_RuleConfigItems_def split: option.splits)
  let ?kids = "ptr_field Ipv4Matches_xml m @ ptr_field Matches_xml k @ xs @
     string_field ''protocol'' pr @ string_field ''rule-type'' ty"
  have app: "RuleConfigItems_read a (ys @ zs) = bind_outcome (RuleConfigItems_read a ys) (\<lambda>b. RuleConfigItems_read b zs)"
    for a ys zs by (simp add: RuleConfigItems_read_def read_kids_append)
  have "RuleConfigItems_read zero_RuleConfigItems ?kids = Ok (?r\<lparr>RuleProtocol := pr, RuleType := ty\<rparr>)"
    by (simp only: app ip mt rd bind_outcome.simps st [OF zr, unfolded app])
  moreover have "?r\<lparr>RuleProtocol := pr, RuleType := ty\<rparr> = canonical_items c"
    by (simp add: c canonical_items_def zero_RuleConfigItems_def split: option.splits)
  moreover have "RuleConfigItems_xml c = Ok (elem ''config-items'' ?kids)"
    by (simp add: RuleConfigItems_xml_def nx c)
  ultimately show ?thesis by (simp add: elem_def)
qed


definition canonical_rule :: "AclRule \<Rightarrow> AclRule" where
  "canonical_rule r = r\<lparr>RuleItems := map_option canonical_items (RuleItems r), RuleOperation := []\<rparr>"

definition readable_rule :: "AclRule \<Rightarrow> bool" where
  "readable_rule r \<longleftrightarrow> 0 \<le> RuleId r \<and> RuleId r < 2 ^ 63 \<and>
     (case RuleItems r of None \<Rightarrow> True | Some c \<Rightarrow> v4_nexthop c)"

lemma AclRule_round:
  assumes "readable_rule r"
  shows "\<exists>x. AclRule_xml r = Ok x \<and> x = Elem [] ''rule'' (xml_attrs x) (xml_kids x) \<and>
    AclRule_read zero_AclRule (xml_kids x) = Ok (canonical_rule r)"
proof -
  obtain it op i where r: "r = \<lparr>RuleItems = it, RuleOperation = op, RuleId = i\<rparr>" by (cases r)
  from assms r have i: "0 \<le> i" "i < 2 ^ 63" by (simp_all add: readable_rule_def)
  have id: "AclRule_read a (int_field ''rule-id'' i) = Ok (a\<lparr>RuleId := i\<rparr>)" if "RuleId a = 0" for a
    using that read_int_itoa [OF i] by (cases a) (auto simp: AclRule_read_def int_field_def text_elem_def elem_def)
  show ?thesis
  proof (cases it)
    case None
    with r id [of zero_AclRule] show ?thesis
      by (simp add: AclRule_xml_def canonical_rule_def zero_AclRule_def)
  next
    case (Some c)
    with assms r have "v4_nexthop c" by (simp add: readable_rule_def)
    then obtain x where x: "RuleConfigItems_xml c = Ok x" "x = Elem [] ''config-items'' [] (xml_kids x)"
      "RuleConfigItems_read zero_RuleConfigItems (xml_kids x) = Ok (canonical_items c)"
      using RuleConfigItems_round by blast
    have first: "AclRule_read zero_AclRule [x] = Ok (zero_AclRule\<lparr>RuleItems := Some (canonical_items c)\<rparr>)"
      by (subst x(2)) (simp add: AclRule_read_def x(3) zero_AclRule_def)
    have "AclRule_read zero_AclRule ([x] @ int_field ''rule-id'' i) =
        bind_outcome (AclRule_read zero_AclRule [x]) (\<lambda>b. AclRule_read b (int_field ''rule-id'' i))"
      unfolding AclRule_read_def by (rule read_kids_append)
    with first id [of "zero_AclRule\<lparr>RuleItems := Some (canonical_items c)\<rparr>"]
    have "AclRule_read zero_AclRule (x # int_field ''rule-id'' i) = Ok (canonical_rule r)"
      by (simp add: zero_AclRule_def r Some canonical_rule_def)
    then show ?thesis by (simp add: AclRule_xml_def r Some x(1))
  qed
qed

lemma Rules_read_round:
  assumes "list_all readable_rule rs"
  shows "\<exists>xs. AclRules_xml rs = Ok xs \<and>
    Rules_read a xs = Ok (a\<lparr>RuleList := RuleList a @ map canonical_rule rs\<rparr>)"
  using assms
proof (induction rs arbitrary: a)
  case Nil
  then show ?case by (simp add: Rules_read_def)
next
  case (Cons r rs)
  then have rr: "readable_rule r" and rest: "list_all readable_rule rs" by simp_all
  obtain x where x: "AclRule_xml r = Ok x" "x = Elem [] ''rule'' (xml_attrs x) (xml_kids x)"
    "AclRule_read zero_AclRule (xml_kids x) = Ok (canonical_rule r)"
    using AclRule_round [OF rr] by blast
  obtain xs where xs: "AclRules_xml rs = Ok xs"
    "Rules_read (a\<lparr>RuleList := RuleList a @ [canonical_rule r]\<rparr>) xs =
     Ok (a\<lparr>RuleList := RuleList a @ canonical_rule r # map canonical_rule rs\<rparr>)"
    using Cons.IH [OF rest, of "a\<lparr>RuleList := RuleList a @ [canonical_rule r]\<rparr>"] by auto
  have "Rules_read a (x # xs) = Rules_read (a\<lparr>RuleList := RuleList a @ [canonical_rule r]\<rparr>) xs"
    by (subst x(2)) (simp add: Rules_read_def x(3))
  with x(1) xs show ?case by simp
qed

section \<open>The reply of a device\<close>

text \<open>The running configuration of the steering list, as a device answers the filter with it.\<close>

definition acl_reply :: "xml list \<Rightarrow> xml" where
  "acl_reply rules =
     Elem [] ''data'' [] [Elem dn_top_ns ''drivenets-top'' [] [Elem dn_acl_ns ''access-lists'' []
       [Elem dn_acl_ns ''ipv4'' [] [Elem dn_acl_ns ''access-list'' []
         [Elem dn_acl_ns ''name'' [] [CData ''Steering''], Elem dn_acl_ns ''rules'' [] rules]]]]]"

lemma Data_Unmarshal_reply:
  "Data_Unmarshal [acl_reply xs] = bind_outcome (Rules_read zero_Rules xs) (\<lambda>rs.
     Ok \<lparr>ReplyTop = Some \<lparr>ReplyLists = Some \<lparr>ReplyIpv4 = Some \<lparr>Ipv4AccessList =
       \<lparr>ListItems = None, ListName = ''Steering'', ListRules = rs\<rparr>\<rparr>\<rparr>\<rparr>\<rparr>)"
  by (cases "Rules_read zero_Rules xs")
    (simp_all add: acl_reply_def Data_read_def DrivenetsTopReply_read_def AccessListsReply_read_def
      Ipv4_read_def AccessList_read_def zero_AccessList_def)

end
