(* ===== verification/Steering.thy ===== *)
theory Steering
  imports AclReply Registry
begin

text \<open>
  Policy steering (\<open>pkg/hal/hal.go\<close>): the cache from rule ids to flow keys, the next free
  id, the NETCONF session, and the operations \<open>Steer\<close>, \<open>RemoveSteer\<close>, \<open>GetSteerInterface\<close>,
  \<open>InitNetConf\<close> and \<open>SteeringAclCleanup\<close>. The device is a parameter: dialling it and
  executing a request are functions on its state \<open>'d\<close>.
\<close>

section \<open>The session\<close>

record 'd netconf =
  DialSSH :: "'d \<Rightarrow> string option \<times> 'd"
  Exec :: "'d \<Rightarrow> xml \<Rightarrow> (string + xml list) \<times> 'd"

record 'd steering =
  aclRules :: "int \<rightharpoonup> string"
  accessListID :: int
  netconfSession :: bool
  device :: 'd

definition NetConfConnector :: "'d netconf \<Rightarrow> 'd steering \<Rightarrow> unit outcome \<times> 'd steering" where
  "NetConfConnector nc st =
     (if netconfSession st then (Ok (), st)
      else case DialSSH nc (device st) of
             (Some err, d) \<Rightarrow> (Fatal err, st\<lparr>device := d\<rparr>)
           | (None, d) \<Rightarrow> (Ok (), st\<lparr>netconfSession := True, device := d\<rparr>))"

definition session_Exec :: "'d netconf \<Rightarrow> xml \<Rightarrow> 'd steering \<Rightarrow> xml list outcome \<times> 'd steering" where
  "session_Exec nc request st =
     (case Exec nc (device st) request of
        (Inl err, d) \<Rightarrow> (Err err, st\<lparr>device := d\<rparr>)
      | (Inr reply, d) \<Rightarrow> (Ok reply, st\<lparr>device := d\<rparr>))"

definition Commit :: xml where
  "Commit = elem ''commit'' []"

definition commitChanges :: "'d netconf \<Rightarrow> 'd steering \<Rightarrow> unit outcome \<times> 'd steering" where
  "commitChanges nc = bind_state (NetConfConnector nc) (\<lambda>_ st.
     case session_Exec nc Commit st of
       (Err err, st') \<Rightarrow>
         if contains err ''Commit failed: empty commit'' then (Ok (), st') else (Err err, st')
     | (_, st') \<Rightarrow> (Ok (), st'))"

definition SetAclRuleIndex :: "int \<Rightarrow> 'd steering \<Rightarrow> 'd steering" where
  "SetAclRuleIndex idx st = st\<lparr>accessListID := idx\<rparr>"

definition AclRuleCacheAdd :: "FlowKey \<Rightarrow> int \<Rightarrow> 'd steering \<Rightarrow> 'd steering" where
  "AclRuleCacheAdd fk idx st = st\<lparr>aclRules := (aclRules st)(idx \<mapsto> AsKey fk)\<rparr>"

section \<open>Steering a flow\<close>

text \<open>The rule \<open>Steer\<close> configures; the next hop is always present and may be an empty address.\<close>

definition steer_rule :: "FlowKey \<Rightarrow> ip \<Rightarrow> int \<Rightarrow> AclRule" where
  "steer_rule fk nextHop1 ruleId =
     \<lparr>RuleItems = Some \<lparr>
        RuleIpv4Matches = Some \<lparr>DestinationIpv4 = IP_String (DstAddr fk) @ ''/32'',
          SourceIpv4 = IP_String (SrcAddr fk) @ ''/32''\<rparr>,
        RuleMatches = Some \<lparr>L4Match = \<lparr>DestinationPorts = \<lparr>DestinationLowerPort = DstPort fk\<rparr>,
          SourcePorts = \<lparr>SourceLowerPort = SrcPort fk\<rparr>\<rparr>\<rparr>,
        Nexthop1 = Some nextHop1,
        RuleProtocol = FlowProto_String (Protocol fk),
        RuleType = ''allow''\<rparr>,
      RuleOperation = [], RuleId = ruleId\<rparr>"

definition delete_rule :: "int \<Rightarrow> AclRule" where
  "delete_rule ruleId = \<lparr>RuleItems = None, RuleOperation = ''delete'', RuleId = ruleId\<rparr>"

text \<open>The next hop of an item: none for an empty name, otherwise the named interface's.\<close>

definition item_nexthop :: "'m registry \<Rightarrow> string \<Rightarrow> ip outcome" where
  "item_nexthop reg nh =
     (if nh = [] then Ok []
      else case deref reg (findInterfaceByNextHop reg nh) of
             None \<Rightarrow> Err (''no interface with next-hop: '' @ nh)
           | Some ifc \<Rightarrow> Ok (IfNextHop ifc))"

text \<open>
  The id of an item's rule: the first cached id of the flow, in the order of the range over
  the cache, else the next free one. \<open>-1\<close> stands for not found, as in the code.
\<close>

definition rule_id_for :: "(int \<rightharpoonup> string) \<Rightarrow> int list \<Rightarrow> string \<Rightarrow> int \<Rightarrow> int \<times> int" where
  "rule_id_for rules order ruleAsKey nextID =
     (let currentRuleId = (case find_key rules order ruleAsKey of None \<Rightarrow> -1 | Some k \<Rightarrow> k)
      in if currentRuleId = -1 then (nextID, go_int (nextID + 10)) else (currentRuleId, nextID))"

text \<open>
  The loop of \<open>Steer\<close>. It yields the ids and keys to cache and the rules to configure; the
  next free id advances even when a later item fails. \<open>orders i\<close> is the order of the range
  over the cache at the \<open>i\<close>-th item.
\<close>

fun steer_rules ::
    "'m registry \<Rightarrow> (int \<rightharpoonup> string) \<Rightarrow> (nat \<Rightarrow> int list) \<Rightarrow> nat \<Rightarrow> SteerItem list \<Rightarrow>
     (int \<times> string) list \<Rightarrow> AclRule list \<Rightarrow> int \<Rightarrow> ((int \<times> string) list \<times> AclRule list) outcome \<times> int" where
  "steer_rules reg rules orders i [] ruleIdxMap rulesList nextID = (Ok (ruleIdxMap, rulesList), nextID)"
| "steer_rules reg rules orders i (rule # items) ruleIdxMap rulesList nextID =
     (case item_nexthop reg (NextHop rule) of
        Ok nextHop1 \<Rightarrow>
          (let ruleAsKey = AsKey (Rule rule);
               (currentRuleId, nextID') = rule_id_for rules (orders i) ruleAsKey nextID
           in steer_rules reg rules orders (Suc i) items
                (ruleIdxMap @ [(currentRuleId, ruleAsKey)])
                (rulesList @ [steer_rule (Rule rule) nextHop1 currentRuleId]) nextID')
      | Err err \<Rightarrow> (Err err, nextID)
      | Fatal err \<Rightarrow> (Fatal err, nextID)
      | Panic err \<Rightarrow> (Panic err, nextID)
      | Blocked \<Rightarrow> (Blocked, nextID))"

text \<open>Marshal, send and commit a list of rules.\<close>

definition configure_rules :: "'d netconf \<Rightarrow> AclRule list \<Rightarrow> 'd steering \<Rightarrow> unit outcome \<times> 'd steering" where
  "configure_rules nc rulesList = bind_state (\<lambda>st. (getAclRuleConfigXml rulesList, st)) (\<lambda>xmlString.
     bind_state (session_Exec nc xmlString) (\<lambda>_. commitChanges nc))"

definition add_entries :: "(int \<times> string) list \<Rightarrow> (int \<rightharpoonup> string) \<Rightarrow> (int \<rightharpoonup> string)" where
  "add_entries ruleIdxMap m = foldl (\<lambda>m (k, v). m(k \<mapsto> v)) m ruleIdxMap"

definition Steer ::
    "'d netconf \<Rightarrow> 'm registry \<Rightarrow> (nat \<Rightarrow> int list) \<Rightarrow> SteerItem list \<Rightarrow> 'd steering \<Rightarrow> unit outcome \<times> 'd steering" where
  "Steer nc reg orders rules = bind_state (NetConfConnector nc) (\<lambda>_ st.
     case steer_rules reg (aclRules st) orders 0 rules [] [] (accessListID st) of
       (Ok (ruleIdxMap, rulesList), nextID) \<Rightarrow>
         (let st' = st\<lparr>accessListID := nextID\<rparr>
          in if rulesList = [] then (Ok (), st')
             else bind_state (configure_rules nc rulesList)
               (\<lambda>_ s. (Ok (), s\<lparr>aclRules := add_entries ruleIdxMap (aclRules s)\<rparr>)) st')
     | (Err err, nextID) \<Rightarrow> (Err err, st\<lparr>accessListID := nextID\<rparr>)
     | (Fatal err, nextID) \<Rightarrow> (Fatal err, st\<lparr>accessListID := nextID\<rparr>)
     | (Panic err, nextID) \<Rightarrow> (Panic err, st\<lparr>accessListID := nextID\<rparr>)
     | (Blocked, nextID) \<Rightarrow> (Blocked, st\<lparr>accessListID := nextID\<rparr>))"

section \<open>Removing flows\<close>

text \<open>Every cached id of every given flow, in the orders of the ranges over the cache.\<close>

fun removals :: "(int \<rightharpoonup> string) \<Rightarrow> (nat \<Rightarrow> int list) \<Rightarrow> nat \<Rightarrow> FlowKey list \<Rightarrow> AclRule list" where
  "removals rules orders i [] = []"
| "removals rules orders i (rule # fks) =
     map delete_rule (filter (\<lambda>k. rules k = Some (AsKey rule)) (orders i)) @
     removals rules orders (Suc i) fks"

definition RemoveSteer ::
    "'d netconf \<Rightarrow> (nat \<Rightarrow> int list) \<Rightarrow> FlowKey list \<Rightarrow> 'd steering \<Rightarrow> unit outcome \<times> 'd steering" where
  "RemoveSteer nc orders rules = bind_state (NetConfConnector nc) (\<lambda>_ st.
     (let rulesToRemove = removals (aclRules st) orders 0 rules
      in if rulesToRemove = [] then (Ok (), st)
         else bind_state (configure_rules nc rulesToRemove)
           (\<lambda>_ s. (Ok (), s\<lparr>aclRules :=
              foldl (\<lambda>m k. m(k := None)) (aclRules s) (map RuleId rulesToRemove)\<rparr>)) st))"

section \<open>Reading the rules back\<close>

definition nil_deref :: string where
  "nil_deref = ''invalid memory address or nil pointer dereference''"

text \<open>The rules of a reply; a missing level is a nil pointer.\<close>

definition response_rules :: "Data \<Rightarrow> AclRule list outcome" where
  "response_rules response =
     (case ReplyTop response of None \<Rightarrow> Panic nil_deref | Some t \<Rightarrow>
       (case ReplyLists t of None \<Rightarrow> Panic nil_deref | Some l \<Rightarrow>
         (case ReplyIpv4 l of None \<Rightarrow> Panic nil_deref | Some v \<Rightarrow>
           Ok (RuleList (ListRules (Ipv4AccessList v))))))"

text \<open>Ask for the access list and read the reply; every failure panics.\<close>

definition fetch_rules :: "'d netconf \<Rightarrow> 'd steering \<Rightarrow> AclRule list outcome \<times> 'd steering" where
  "fetch_rules nc = bind_state (NetConfConnector nc) (\<lambda>_.
     bind_state (panic_on_err (\<lambda>st. (getAclRuleFilterXml, st))) (\<lambda>xmlString.
     bind_state (panic_on_err (session_Exec nc xmlString)) (\<lambda>data.
     bind_state (panic_on_err (\<lambda>st. (Data_Unmarshal data, st))) (\<lambda>response st.
       (response_rules response, st)))))"

definition parsed_addr :: "string \<Rightarrow> ip" where
  "parsed_addr s = (case ParseCIDR s of Ok (ip, net) \<Rightarrow> ip | _ \<Rightarrow> [])"

text \<open>The flow a rule of the device describes; missing matches are nil pointers.\<close>

definition rule_flow :: "RuleConfigItems \<Rightarrow> Ipv4Matches \<Rightarrow> ip \<Rightarrow> ip \<Rightarrow> FlowKey outcome" where
  "rule_flow c m src dst =
     (case RuleMatches c of None \<Rightarrow> Panic nil_deref | Some k \<Rightarrow>
       Ok \<lparr>Protocol = protocol_of (RuleProtocol c), SrcAddr = src, DstAddr = dst,
         SrcPort = SourceLowerPort (SourcePorts (L4Match k)),
         DstPort = DestinationLowerPort (DestinationPorts (L4Match k))\<rparr>)"

definition DefaultRuleId :: int where
  "DefaultRuleId = 65434"

text \<open>One rule of \<open>InitNetConf\<close>: the default rule and unreadable addresses are skipped.\<close>

definition init_rule :: "int \<Rightarrow> AclRule \<Rightarrow> 'd steering \<Rightarrow> unit outcome \<times> 'd steering" where
  "init_rule maxID v st =
     (if RuleId v = DefaultRuleId then (Ok (), st)
      else case RuleItems v of None \<Rightarrow> (Panic nil_deref, st) | Some c \<Rightarrow>
       (case RuleIpv4Matches c of None \<Rightarrow> (Panic nil_deref, st) | Some m \<Rightarrow>
         (case (ParseCIDR (SourceIpv4 m), ParseCIDR (DestinationIpv4 m)) of
            (Ok (srcIpv4Addr, _), Ok (dstIpv4Addr, _)) \<Rightarrow>
              bind_state (\<lambda>st. (rule_flow c m srcIpv4Addr dstIpv4Addr, st)) (\<lambda>fk st.
                (let st' = AclRuleCacheAdd fk (RuleId v) st
                 in (Ok (), if maxID < RuleId v then st'\<lparr>accessListID := go_int (RuleId v + 10)\<rparr> else st'))) st
          | _ \<Rightarrow> (Ok (), st))))"

fun init_rules :: "int \<Rightarrow> AclRule list \<Rightarrow> 'd steering \<Rightarrow> unit outcome \<times> 'd steering" where
  "init_rules maxID [] = (\<lambda>st. (Ok (), st))"
| "init_rules maxID (v # vs) = bind_state (init_rule maxID v) (\<lambda>_. init_rules maxID vs)"

definition InitNetConf :: "'d netconf \<Rightarrow> 'd steering \<Rightarrow> unit outcome \<times> 'd steering" where
  "InitNetConf nc = bind_state (fetch_rules nc) (\<lambda>rules st. init_rules (accessListID st) rules st)"

text \<open>
  \<open>GetSteerInterface\<close>: the map from a flow key to the interface its rule on the device sends
  it to. An empty next hop reads as a present, empty address. \<open>nh_orders i\<close> is the order of
  the range over the WAN interfaces at the \<open>i\<close>-th rule; the last match wins.
\<close>

definition nexthop_uppers :: "'m registry \<Rightarrow> string list \<Rightarrow> ip \<Rightarrow> string list" where
  "nexthop_uppers reg order ip =
     map Upper (filter (\<lambda>ifc. IP_Equal (IfNextHop ifc) ip)
       (List.map_filter (\<lambda>k. deref reg (NextHop2Interface reg k)) order))"

definition response_entry ::
    "'m registry \<Rightarrow> string list \<Rightarrow> AclRule \<Rightarrow> (string \<rightharpoonup> string) \<Rightarrow> (string \<rightharpoonup> string) outcome" where
  "response_entry reg order v responseMap =
     (case RuleItems v of None \<Rightarrow> Panic nil_deref | Some c \<Rightarrow>
       (case RuleIpv4Matches c of None \<Rightarrow> Panic nil_deref | Some m \<Rightarrow>
         bind_outcome (rule_flow c m (parsed_addr (SourceIpv4 m)) (parsed_addr (DestinationIpv4 m))) (\<lambda>tmpItem.
           Ok (case Nexthop1 c of
                 None \<Rightarrow> responseMap(AsKey tmpItem \<mapsto> [])
               | Some ip \<Rightarrow> foldl (\<lambda>rm u. rm(AsKey tmpItem \<mapsto> u)) responseMap (nexthop_uppers reg order ip)))))"

fun response_map ::
    "'m registry \<Rightarrow> (nat \<Rightarrow> string list) \<Rightarrow> nat \<Rightarrow> AclRule list \<Rightarrow> (string \<rightharpoonup> string) \<Rightarrow> (string \<rightharpoonup> string) outcome" where
  "response_map reg nh_orders i [] rm = Ok rm"
| "response_map reg nh_orders i (v # vs) rm =
     bind_outcome (response_entry reg (nh_orders i) v rm) (response_map reg nh_orders (Suc i) vs)"

definition match_item :: "(string \<rightharpoonup> string) \<Rightarrow> SteerItem \<Rightarrow> bool" where
  "match_item responseMap rule = (responseMap (AsKey (Rule rule)) = Some (NextHop rule))"

definition steer_status :: "(string \<rightharpoonup> string) \<Rightarrow> SteerItem list \<Rightarrow> bool \<times> string list" where
  "steer_status responseMap rules =
     (length (filter (match_item responseMap) rules) = length rules,
      map (\<lambda>rule. if match_item responseMap rule then NextHop rule else []) rules)"

definition GetSteerInterface ::
    "'d netconf \<Rightarrow> 'm registry \<Rightarrow> (nat \<Rightarrow> string list) \<Rightarrow> SteerItem list \<Rightarrow> 'd steering \<Rightarrow>
     (bool \<times> string list) outcome \<times> 'd steering" where
  "GetSteerInterface nc reg nh_orders rules = bind_state (fetch_rules nc) (\<lambda>vs.
     bind_state (\<lambda>st. (response_map reg nh_orders 0 vs Map.empty, st)) (\<lambda>responseMap st.
       (Ok (steer_status responseMap rules), st)))"

section \<open>Cleaning up\<close>

definition default_acl_rule :: AclRule where
  "default_acl_rule =
     \<lparr>RuleItems = Some \<lparr>
        RuleIpv4Matches = Some \<lparr>DestinationIpv4 = ''any'', SourceIpv4 = ''any''\<rparr>,
        RuleMatches = Some \<lparr>L4Match = \<lparr>DestinationPorts = \<lparr>DestinationLowerPort = 0\<rparr>,
          SourcePorts = \<lparr>SourceLowerPort = 0\<rparr>\<rparr>\<rparr>,
        Nexthop1 = None, RuleProtocol = ''any'', RuleType = ''allow''\<rparr>,
      RuleOperation = [], RuleId = DefaultRuleId\<rparr>"

definition SteeringAclCleanup :: "'d netconf \<Rightarrow> 'd steering \<Rightarrow> unit outcome \<times> 'd steering" where
  "SteeringAclCleanup nc = bind_state (NetConfConnector nc) (\<lambda>_.
     bind_state (\<lambda>st. (getAclRulesDeleteXml, st)) (\<lambda>cleanRulesXML.
     bind_state (session_Exec nc cleanRulesXML) (\<lambda>_.
       configure_rules nc [default_acl_rule])))"

end
