(* ===== verification/SteerFacts.thy ===== *)
theory SteerFacts
  imports Steering
begin

text \<open>
  Facts on the steering operations: which parts of the state a request leaves alone, the ids
  \<open>Steer\<close> assigns, the invariant of the rule cache (every cached id is below the next free
  id, no flow has two ids) and its preservation, and what the device's rules are read back as.
\<close>

section \<open>Requests leave the cache alone\<close>

definition acl_state :: "'d steering \<Rightarrow> (int \<rightharpoonup> string) \<times> int" where
  "acl_state st = (aclRules st, accessListID st)"

lemma acl_state_device [simp]:
  "acl_state (st\<lparr>device := d\<rparr>) = acl_state st"
  "acl_state (st\<lparr>netconfSession := b\<rparr>) = acl_state st"
  by (simp_all add: acl_state_def)

lemma NetConfConnector_keeps: "NetConfConnector nc st = (r, st') \<Longrightarrow> acl_state st' = acl_state st"
  by (auto simp: NetConfConnector_def acl_state_def split: if_splits prod.splits option.splits)

lemma session_Exec_keeps: "session_Exec nc x st = (r, st') \<Longrightarrow> acl_state st' = acl_state st"
  by (auto simp: session_Exec_def split: prod.splits sum.splits)

lemma commitChanges_keeps: "commitChanges nc st = (r, st') \<Longrightarrow> acl_state st' = acl_state st"
  unfolding commitChanges_def
  by (erule bind_state_keeps [where g = acl_state])
    (auto dest!: NetConfConnector_keeps session_Exec_keeps split: prod.splits outcome.splits if_splits)

lemma configure_rules_keeps:
  assumes "configure_rules nc rules st = (r, st')"
  shows "acl_state st' = acl_state st"
  using assms unfolding configure_rules_def
  by (rule bind_state_keeps [where g = acl_state])
    (auto elim!: bind_state_keeps [where g = acl_state] dest: session_Exec_keeps commitChanges_keeps)

lemma SteeringAclCleanup_keeps:
  assumes "SteeringAclCleanup nc st = (r, st')"
  shows "acl_state st' = acl_state st"
  using assms unfolding SteeringAclCleanup_def
  by (rule bind_state_keeps [where g = acl_state])
    (auto elim!: bind_state_keeps [where g = acl_state] dest: NetConfConnector_keeps session_Exec_keeps configure_rules_keeps)

section \<open>The ids of a batch\<close>

fun assign_ids ::
    "(int \<rightharpoonup> string) \<Rightarrow> (nat \<Rightarrow> int list) \<Rightarrow> nat \<Rightarrow> string list \<Rightarrow> int \<Rightarrow> int list \<times> int" where
  "assign_ids m orders i [] n = ([], n)"
| "assign_ids m orders i (key # keys) n =
     (case rule_id_for m (orders i) key n of (k, n') \<Rightarrow>
        (case assign_ids m orders (Suc i) keys n' of (ks, n'') \<Rightarrow> (k # ks, n'')))"

definition item_key :: "SteerItem \<Rightarrow> string" where
  "item_key it = AsKey (Rule it)"

definition item_rules :: "SteerItem list \<Rightarrow> ip list \<Rightarrow> int list \<Rightarrow> AclRule list" where
  "item_rules items nhs ids =
     map (\<lambda>(it, nh, k). steer_rule (Rule it) nh k) (zip items (zip nhs ids))"

lemma length_assign_ids: "assign_ids m orders i keys n = (ids, n') \<Longrightarrow> length ids = length keys"
  by (induction keys arbitrary: i n ids n') (auto split: prod.splits)

lemma steer_rules_step:
  assumes "item_nexthop reg (NextHop it) = Ok nh" and "rule_id_for m (orders i) (item_key it) n = (k, n1)"
  shows "steer_rules reg m orders i (it # items) a b n =
    steer_rules reg m orders (Suc i) items (a @ [(k, item_key it)]) (b @ [steer_rule (Rule it) nh k]) n1"
  using assms by (simp add: item_key_def Let_def)

lemma steer_rules_Ok:
  assumes "steer_rules reg m orders i items a b n = (Ok (entries, rl), n')"
  shows "\<exists>ids nhs. assign_ids m orders i (map item_key items) n = (ids, n') \<and>
    entries = a @ zip ids (map item_key items) \<and>
    list_all2 (\<lambda>it nh. item_nexthop reg (NextHop it) = Ok nh) items nhs \<and>
    rl = b @ item_rules items nhs ids"
  using assms
proof (induction items arbitrary: i a b n)
  case Nil
  then show ?case by (auto simp: item_rules_def)
next
  case (Cons it items)
  then obtain nh where nh: "item_nexthop reg (NextHop it) = Ok nh" by (auto split: outcome.splits)
  obtain k n1 where k: "rule_id_for m (orders i) (item_key it) n = (k, n1)" by fastforce
  have "steer_rules reg m orders (Suc i) items (a @ [(k, item_key it)])
      (b @ [steer_rule (Rule it) nh k]) n1 = (Ok (entries, rl), n')"
    using Cons.prems steer_rules_step [where orders = orders, OF nh k] by simp
  from Cons.IH [OF this] obtain ids nhs where
    "assign_ids m orders (Suc i) (map item_key items) n1 = (ids, n')"
    "entries = a @ (k, item_key it) # zip ids (map item_key items)"
    "list_all2 (\<lambda>it nh. item_nexthop reg (NextHop it) = Ok nh) items nhs"
    "rl = b @ steer_rule (Rule it) nh k # item_rules items nhs ids" by auto
  with k nh show ?case
    by (intro exI [of _ "k # ids"] exI [of _ "nh # nhs"]) (simp add: item_rules_def)
qed

lemma steer_rules_all_Ok:
  assumes "list_all2 (\<lambda>it nh. item_nexthop reg (NextHop it) = Ok nh) items nhs"
    and "assign_ids m orders i (map item_key items) n = (ids, n')"
  shows "steer_rules reg m orders i items a b n =
    (Ok (a @ zip ids (map item_key items), b @ item_rules items nhs ids), n')"
  using assms
proof (induction items nhs arbitrary: i a b n ids rule: list_all2_induct)
  case Nil
  then show ?case by (simp add: item_rules_def)
next
  case (Cons it items nh nhs)
  obtain k n1 where k: "rule_id_for m (orders i) (item_key it) n = (k, n1)" by fastforce
  obtain ks n2 where ks: "assign_ids m orders (Suc i) (map item_key items) n1 = (ks, n2)" by fastforce
  from Cons.prems k ks have [simp]: "ids = k # ks" "n2 = n'" by simp_all
  show ?case
    using Cons.IH [of "Suc i" n1 ks "a @ [(k, item_key it)]" "b @ [steer_rule (Rule it) nh k]"] ks
      steer_rules_step [where orders = orders, OF Cons.hyps(1) k]
    by (simp add: item_rules_def)
qed

text \<open>
  While the cached ids are below the next free id and it cannot wrap: a key with a cached id
  gets a cached id, any other key a fresh one, and the fresh ones increase.
\<close>

definition ids_below :: "(int \<rightharpoonup> string) \<Rightarrow> int \<Rightarrow> bool" where
  "ids_below m n \<longleftrightarrow> 0 \<le> n \<and> (\<forall>k\<in>dom m. 0 \<le> k \<and> k < n)"

lemma rule_id_for_cases:
  assumes "ids_below m n" and "range_order m order" and "n + 10 < 2 ^ 63"
    and "rule_id_for m order key n = (k, n')"
  shows "(key \<in> ran m \<and> m k = Some key \<and> n' = n) \<or> (key \<notin> ran m \<and> k = n \<and> n' = n + 10)"
proof (cases "find_key m order key")
  case None
  then have "key \<notin> ran m" using find_key_None [OF assms(2)] by simp
  moreover have "go_int (n + 10) = n + 10"
    using assms(1,3) by (intro go_int_id) (auto simp: ids_below_def)
  ultimately show ?thesis
    using None assms(4) by (auto simp: rule_id_for_def)
next
  case (Some j)
  then have "m j = Some key" by (rule find_key_Some)
  moreover from this have "j \<noteq> -1" using assms(1) by (force simp: ids_below_def dom_def)
  ultimately show ?thesis
    using Some assms(4) by (auto simp: rule_id_for_def ran_def)
qed

lemma ids_below_mono: "ids_below m n \<Longrightarrow> n \<le> n' \<Longrightarrow> ids_below m n'"
  unfolding ids_below_def by (meson order_less_le_trans order_trans)

lemma assign_ids_spec:
  assumes "ids_below m n" and "\<forall>j. range_order m (orders j)"
    and "n + 10 * int (length keys) < 2 ^ 63" and "assign_ids m orders i keys n = (ids, n')"
  shows "n \<le> n' \<and> n' \<le> n + 10 * int (length keys) \<and>
    (\<forall>(k, key) \<in> set (zip ids keys). if key \<in> ran m then m k = Some key else n \<le> k \<and> k < n')"
  using assms(1,3,4)
proof (induction keys arbitrary: i n ids)
  case Nil
  then show ?case by simp
next
  case (Cons key keys)
  obtain k n1 where k: "rule_id_for m (orders i) key n = (k, n1)" by fastforce
  obtain ks n2 where ks: "assign_ids m orders (Suc i) keys n1 = (ks, n2)" by fastforce
  from Cons.prems k ks have eq: "ids = k # ks" "n2 = n'" by simp_all
  have bound: "n + 10 < 2 ^ 63" using Cons.prems(2) by simp
  note c = rule_id_for_cases [OF Cons.prems(1) assms(2) [rule_format] bound k]
  then have n1: "n \<le> n1" "n1 \<le> n + 10" by auto
  have IH: "n1 \<le> n' \<and> n' \<le> n1 + 10 * int (length keys) \<and>
    (\<forall>(k, key) \<in> set (zip ks keys). if key \<in> ran m then m k = Some key else n1 \<le> k \<and> k < n')"
    using Cons.IH [of n1 "Suc i" ks] ids_below_mono [OF Cons.prems(1) n1(1)] Cons.prems(2) n1 ks eq(2) by simp
  have "if key' \<in> ran m then m k' = Some key' else n \<le> k' \<and> k' < n'"
    if "(k', key') \<in> set (zip ids (key # keys))" for k' key'
    using that c IH n1 eq(1) by (auto split: if_splits)
  with IH n1 show ?case by auto
qed

lemma assign_ids_distinct:
  assumes "ids_below m n" and "\<forall>j. range_order m (orders j)"
    and "n + 10 * int (length keys) < 2 ^ 63" and "assign_ids m orders i keys n = (ids, n')"
    and "distinct keys"
  shows "distinct ids"
  using assms(1,3,4,5)
proof (induction keys arbitrary: i n ids)
  case Nil
  then show ?case by simp
next
  case (Cons key keys)
  obtain k n1 where k: "rule_id_for m (orders i) key n = (k, n1)" by fastforce
  obtain ks n2 where ks: "assign_ids m orders (Suc i) keys n1 = (ks, n2)" by fastforce
  from Cons.prems k ks have eq: "ids = k # ks" "n2 = n'" by simp_all
  have bound: "n + 10 < 2 ^ 63" using Cons.prems(2) by simp
  note c = rule_id_for_cases [OF Cons.prems(1) assms(2) [rule_format] bound k]
  then have n1: "n \<le> n1" "n1 \<le> n + 10" by auto
  have b1: "ids_below m n1" using ids_below_mono [OF Cons.prems(1) n1(1)] .
  have w1: "n1 + 10 * int (length keys) < 2 ^ 63" using Cons.prems(2) n1 by simp
  have "k \<notin> set ks"
  proof
    assume "k \<in> set ks"
    then obtain j where j: "j < length ks" "ks ! j = k" by (auto simp: in_set_conv_nth)
    have len: "length ks = length keys" using ks by (rule length_assign_ids)
    with j have "(k, keys ! j) \<in> set (zip ks keys)" by (auto simp: set_zip)
    with assign_ids_spec [OF b1 assms(2) w1 ks]
    have "if keys ! j \<in> ran m then m k = Some (keys ! j) else n1 \<le> k" by (auto split: if_splits)
    moreover have "keys ! j \<noteq> key" using Cons.prems(4) j(1) len by (metis distinct.simps(2) nth_mem)
    moreover have "m k \<noteq> None \<Longrightarrow> k < n" using Cons.prems(1) by (auto simp: ids_below_def)
    ultimately show False using c n1 by (auto split: if_splits)
  qed
  moreover have "distinct ks" using Cons.IH [OF b1 w1 ks [unfolded eq(2)]] Cons.prems(4) by simp
  ultimately show ?case using eq by simp
qed

section \<open>The cache after a batch\<close>

lemma add_entries_map_add: "add_entries es m = m ++ map_of (rev es)"
  unfolding add_entries_def by (induction es arbitrary: m) (auto simp: map_add_upd_left split: prod.splits)

lemma add_entries_distinct:
  assumes "distinct (map fst es)"
  shows "add_entries es m = m ++ map_of es"
proof -
  have "distinct (map fst (rev es))" using assms by (simp add: rev_map [symmetric])
  then have "map_of (rev es) = map_of es" using assms by (simp add: map_of_inject_set)
  then show ?thesis by (simp add: add_entries_map_add)
qed


text \<open>
  A batch of different flows on a cache without duplicates: what was cached stays, every flow
  of the batch is cached under its id, and no flow has two ids.
\<close>

definition cache_inv :: "(int \<rightharpoonup> string) \<Rightarrow> int \<Rightarrow> bool" where
  "cache_inv m n \<longleftrightarrow> ids_below m n \<and> inj_on m (dom m) \<and> finite (dom m)"

lemma cache_inv_below: "cache_inv m n \<Longrightarrow> ids_below m n"
  by (simp add: cache_inv_def)

lemma cache_inv_mono: "cache_inv m n \<Longrightarrow> n \<le> n' \<Longrightarrow> cache_inv m n'"
  using ids_below_mono by (auto simp: cache_inv_def)

lemma cache_invD: "cache_inv m n \<Longrightarrow> m k = Some v \<Longrightarrow> m j = Some v \<Longrightarrow> k = j"
  by (auto simp: cache_inv_def inj_on_def dom_def)

lemma cache_inv_restrict: "cache_inv m n \<Longrightarrow> cache_inv (\<lambda>k. if P k then None else m k) n"
  unfolding cache_inv_def ids_below_def
  by (auto simp: inj_on_def dom_def split: if_splits elim: rev_finite_subset)

lemma zip_nth_cases:
  assumes "(k, key) \<in> set (zip ids keys)" and "length ids = length keys"
  obtains j where "j < length keys" "ids ! j = k" "keys ! j = key"
  using assms by (auto simp: set_zip)

lemma batch_cache:
  assumes inv: "cache_inv m n" and ord: "\<forall>j. range_order m (orders j)"
    and wrap: "n + 10 * int (length keys) < 2 ^ 63" and ids: "assign_ids m orders i keys n = (ids, n')"
    and dist: "distinct keys"
  shows "\<forall>k. add_entries (zip ids keys) m k =
      (case map_of (zip ids keys) k of Some v \<Rightarrow> Some v | None \<Rightarrow> m k)"
    and "\<And>k v. m k = Some v \<Longrightarrow> add_entries (zip ids keys) m k = Some v"
    and "ran (add_entries (zip ids keys) m) = ran m \<union> set keys"
    and "cache_inv (add_entries (zip ids keys) m) n'"
proof -
  let ?z = "zip ids keys" and ?m = "add_entries (zip ids keys) m"
  note below = cache_inv_below [OF inv]
  note spec = assign_ids_spec [OF below ord wrap ids]
  have len: "length ids = length keys" using ids by (rule length_assign_ids)
  have dids: "distinct ids" using assign_ids_distinct [OF below ord wrap ids dist] .
  have dz: "distinct (map fst ?z)" using dids len by simp
  show m': "\<forall>k. ?m k = (case map_of ?z k of Some v \<Rightarrow> Some v | None \<Rightarrow> m k)"
    by (simp add: add_entries_distinct [OF dz] map_add_def)
  have zD: "if key \<in> ran m then m k = Some key else n \<le> k \<and> k < n'" if "map_of ?z k = Some key" for k key
    using spec map_of_SomeD [OF that] by auto
  show old: "?m k = Some v" if "m k = Some v" for k v
  proof (cases "map_of ?z k")
    case (Some key)
    have "k < n" using that below by (auto simp: ids_below_def)
    with zD [OF Some] that have "key = v" by (auto split: if_splits)
    with Some m' show ?thesis by simp
  qed (simp add: m' that)
  have new: "\<exists>k. ?m k = Some key" if "key \<in> set keys" for key
  proof -
    from that obtain j where "j < length keys" "keys ! j = key" by (auto simp: in_set_conv_nth)
    with len have "(ids ! j, key) \<in> set ?z" by (auto simp: set_zip)
    with dz have "map_of ?z (ids ! j) = Some key" by simp
    with m' show ?thesis by (intro exI [of _ "ids ! j"]) simp
  qed
  have src: "m k = Some v \<or> map_of ?z k = Some v \<and> v \<in> set keys" if "?m k = Some v" for k v
    using that m' by (auto split: option.splits dest: map_of_SomeD set_zip_rightD)
  show ran: "ran ?m = ran m \<union> set keys"
  proof (intro subset_antisym subsetI)
    fix v assume "v \<in> ran ?m"
    then obtain k where "?m k = Some v" by (auto simp: ran_def)
    from src [OF this] show "v \<in> ran m \<union> set keys" by (auto simp: ran_def)
  next
    fix v assume "v \<in> ran m \<union> set keys"
    then show "v \<in> ran ?m" using old new by (auto simp: ran_def)
  qed
  have uniq: "k = j" if k: "map_of ?z k = Some v" and j: "map_of ?z j = Some v" for k j v
    using map_of_SomeD [OF k] map_of_SomeD [OF j] len dist
    by (auto elim!: zip_nth_cases simp: nth_eq_iff_index_eq)
  have "k = j" if k: "?m k = Some v" and j: "?m j = Some v" for k j v
    using src [OF k] src [OF j] zD [of k v] zD [of j v] uniq [of k v j] cache_invD [OF inv, of _ v]
    by (metis ranI)
  then have "inj_on ?m (dom ?m)" by (auto simp: inj_on_def dom_def)
  moreover have "ids_below ?m n'"
  proof -
    have "0 \<le> k \<and> k < n'" if "?m k = Some v" for k v
      using src [OF that] zD [of k v] below spec
      by (force simp: ids_below_def dom_def split: if_splits)
    moreover have "0 \<le> n'" using below spec by (simp add: ids_below_def)
    ultimately show ?thesis by (auto simp: ids_below_def)
  qed
  moreover have "finite (dom ?m)"
    using inv by (simp add: cache_inv_def add_entries_map_add finite_dom_map_of)
  ultimately show "cache_inv ?m n'" by (simp add: cache_inv_def)
qed

end
