(* ===== verification/SteerRuns.thy ===== *)
theory SteerRuns
  imports SteerFacts
begin

text \<open>
  Runs of the steering operations: what \<open>Steer\<close> and \<open>RemoveSteer\<close> leave in the cache on
  success and on failure, the step relation over both with any registry, and the invariant of
  the cache over every reachable state.
\<close>

section \<open>What Steer does\<close>

lemma steer_rules_next:
  assumes "ids_below m n" and "\<forall>j. range_order m (orders j)"
    and "n + 10 * int (length items) < 2 ^ 63" and "steer_rules reg m orders i items a b n = (r, n')"
  shows "n \<le> n'"
  using assms(1,3,4)
proof (induction items arbitrary: i a b n)
  case Nil
  then show ?case by simp
next
  case (Cons it items)
  show ?case
  proof (cases "item_nexthop reg (NextHop it)")
    case (Ok nh)
    obtain k n1 where k: "rule_id_for m (orders i) (item_key it) n = (k, n1)" by fastforce
    have "n + 10 < 2 ^ 63" using Cons.prems(2) by simp
    from rule_id_for_cases [OF Cons.prems(1) assms(2) [rule_format] this k]
    have n1: "n \<le> n1" "n1 \<le> n + 10" by auto
    have "ids_below m n1" using ids_below_mono [OF Cons.prems(1) n1(1)] .
    from Cons.IH [OF this] Cons.prems(2,3) n1 steer_rules_step [where orders = orders, OF Ok k] show ?thesis
      by fastforce
  qed (use Cons.prems in auto)
qed

lemma acl_stateD: "acl_state st' = acl_state st \<Longrightarrow> aclRules st' = aclRules st \<and> accessListID st' = accessListID st"
  by (simp add: acl_state_def)

lemma session_Exec_state: "session_Exec nc x st = (r, st') \<Longrightarrow> st' = st\<lparr>device := snd (Exec nc (device st) x)\<rparr>"
  by (auto simp: session_Exec_def split: prod.splits sum.splits)

lemma NetConfConnector_open: "netconfSession st \<Longrightarrow> NetConfConnector nc st = (Ok (), st)"
  by (simp add: NetConfConnector_def)

lemma commitChanges_open:
  assumes "commitChanges nc st = (Ok u, st')" and "netconfSession st"
  shows "st' = st\<lparr>device := snd (Exec nc (device st) Commit)\<rparr>"
proof -
  obtain q s where q: "session_Exec nc Commit st = (q, s)" by fastforce
  with assms have "st' = s"
    by (auto simp: commitChanges_def bind_state_def NetConfConnector_open split: outcome.splits if_splits)
  with session_Exec_state [OF q] show ?thesis by simp
qed

lemma configure_rules_Ok:
  assumes "configure_rules nc rl st = (Ok u, st')" and "netconfSession st"
  shows "\<exists>doc. getAclRuleConfigXml rl = Ok doc \<and>
    device st' = snd (Exec nc (snd (Exec nc (device st) doc)) Commit) \<and> netconfSession st'"
proof -
  from assms(1) obtain doc q s where doc: "getAclRuleConfigXml rl = Ok doc"
    and q: "session_Exec nc doc st = (Ok q, s)" and c: "commitChanges nc s = (Ok u, st')"
    by (auto simp: configure_rules_def bind_state_Ok)
  have s: "s = st\<lparr>device := snd (Exec nc (device st) doc)\<rparr>" using session_Exec_state [OF q] .
  with assms(2) have "netconfSession s" by simp
  with commitChanges_open [OF c] s doc show ?thesis by simp
qed

lemma NetConfConnector_Ok: "NetConfConnector nc st = (Ok u, st') \<Longrightarrow> netconfSession st'"
  by (auto simp: NetConfConnector_def split: if_splits prod.splits option.splits)

lemma Steer_Ok:
  assumes "Steer nc reg orders items st = (Ok u, st')"
  shows "\<exists>ids nhs n'. assign_ids (aclRules st) orders 0 (map item_key items) (accessListID st) = (ids, n') \<and>
    list_all2 (\<lambda>it nh. item_nexthop reg (NextHop it) = Ok nh) items nhs \<and>
    aclRules st' = add_entries (zip ids (map item_key items)) (aclRules st) \<and> accessListID st' = n' \<and>
    (netconfSession st \<and> items \<noteq> [] \<longrightarrow> (\<exists>doc. getAclRuleConfigXml (item_rules items nhs ids) = Ok doc \<and>
       device st' = snd (Exec nc (snd (Exec nc (device st) doc)) Commit)))"
proof -
  from assms obtain s where s: "NetConfConnector nc st = (Ok (), s)"
    and rest: "(case steer_rules reg (aclRules s) orders 0 items [] [] (accessListID s) of
       (Ok (ruleIdxMap, rulesList), nextID) \<Rightarrow>
         (let st' = s\<lparr>accessListID := nextID\<rparr>
          in if rulesList = [] then (Ok (), st')
             else bind_state (configure_rules nc rulesList)
               (\<lambda>_ s. (Ok (), s\<lparr>aclRules := add_entries ruleIdxMap (aclRules s)\<rparr>)) st')
     | (Err err, nextID) \<Rightarrow> (Err err, s\<lparr>accessListID := nextID\<rparr>)
     | (Fatal err, nextID) \<Rightarrow> (Fatal err, s\<lparr>accessListID := nextID\<rparr>)
     | (Panic err, nextID) \<Rightarrow> (Panic err, s\<lparr>accessListID := nextID\<rparr>)
     | (Blocked, nextID) \<Rightarrow> (Blocked, s\<lparr>accessListID := nextID\<rparr>)) = (Ok u, st')"
    by (auto simp: Steer_def bind_state_Ok)
  note same = acl_stateD [OF NetConfConnector_keeps [OF s]]
  from rest obtain es rl n' where
    sr: "steer_rules reg (aclRules s) orders 0 items [] [] (accessListID s) = (Ok (es, rl), n')"
    by (auto split: prod.splits outcome.splits)
  from steer_rules_Ok [OF sr] obtain ids nhs where
    ids: "assign_ids (aclRules st) orders 0 (map item_key items) (accessListID st) = (ids, n')"
    and nhs: "list_all2 (\<lambda>it nh. item_nexthop reg (NextHop it) = Ok nh) items nhs"
    and es: "es = zip ids (map item_key items)" and rl: "rl = item_rules items nhs ids"
    using same by auto
  have len: "length ids = length items" "length nhs = length items"
    using length_assign_ids [OF ids] list_all2_lengthD [OF nhs] by simp_all
  show ?thesis
  proof (cases "items = []")
    case True
    with rest sr es rl same ids show ?thesis
      by (auto simp: item_rules_def add_entries_def)
  next
    case False
    then have ne: "rl \<noteq> []" using len by (cases items; cases ids; cases nhs) (auto simp: rl item_rules_def)
    from rest sr ne obtain s' where c: "configure_rules nc rl (s\<lparr>accessListID := n'\<rparr>) = (Ok (), s')"
      and st': "st' = s'\<lparr>aclRules := add_entries es (aclRules s')\<rparr>"
      by (auto simp: bind_state_Ok Let_def)
    have s': "aclRules s' = aclRules st" "accessListID s' = n'"
      using acl_stateD [OF configure_rules_keeps [OF c]] same by auto
    have "\<exists>doc. getAclRuleConfigXml rl = Ok doc \<and>
        device st' = snd (Exec nc (snd (Exec nc (device st) doc)) Commit)" if "netconfSession st"
      using configure_rules_Ok [OF c] s that st' by (auto simp: NetConfConnector_def)
    with ids nhs es rl st' s' show ?thesis by auto
  qed
qed

lemma Steer_not_Ok:
  assumes "Steer nc reg orders items st = (r, st')" and "\<not> is_ok r"
    and "ids_below (aclRules st) (accessListID st)" and "\<forall>j. range_order (aclRules st) (orders j)"
    and "accessListID st + 10 * int (length items) < 2 ^ 63"
  shows "aclRules st' = aclRules st \<and> accessListID st \<le> accessListID st'"
proof -
  obtain c s where s: "NetConfConnector nc st = (c, s)" by fastforce
  note same = acl_stateD [OF NetConfConnector_keeps [OF s]]
  show ?thesis
  proof (cases "\<exists>u. c = Ok u")
    case False
    with assms(1) s same show ?thesis
      by (auto simp: Steer_def bind_state_def split: outcome.splits)
  next
    case True
    obtain q n' where sr: "steer_rules reg (aclRules s) orders 0 items [] [] (accessListID s) = (q, n')" by fastforce
    have le: "accessListID st \<le> n'"
      using steer_rules_next [OF assms(3,4,5), of reg 0 "[]" "[]" q n'] sr same by simp
    have keep: "bind_state (configure_rules nc rl) (\<lambda>_ s. (Ok (), f s)) (s\<lparr>accessListID := n'\<rparr>) = (r, st') \<Longrightarrow>
        acl_state st' = (aclRules st, n')" for rl f
      using assms(2) same
      by (auto simp: bind_state_def split: prod.splits outcome.splits dest!: configure_rules_keeps)
        (auto simp: acl_state_def)
    show ?thesis
      using assms(1,2) True s sr same le
      by (auto simp: Steer_def bind_state_def [of "NetConfConnector nc"] Let_def
          dest!: keep split: outcome.splits if_splits) (auto simp: acl_state_def)
  qed
qed

text \<open>The conditions under which the ids of a batch are well defined.\<close>

definition batch_ok :: "(nat \<Rightarrow> int list) \<Rightarrow> SteerItem list \<Rightarrow> 'd steering \<Rightarrow> bool" where
  "batch_ok orders items st \<longleftrightarrow> (\<forall>j. range_order (aclRules st) (orders j)) \<and>
     accessListID st + 10 * int (length items) < 2 ^ 63 \<and> distinct (map item_key items)"

text \<open>The steps, with the registry of that moment, and the states a run can reach.\<close>

inductive acl_step :: "'d netconf \<Rightarrow> 'm registry \<Rightarrow> 'd steering \<Rightarrow> 'd steering \<Rightarrow> bool" for nc reg where
  step_steer: "batch_ok orders items st \<Longrightarrow> Steer nc reg orders items st = (r, st') \<Longrightarrow> acl_step nc reg st st'"
| step_remove_steer: "\<forall>j. range_order (aclRules st) (orders j) \<Longrightarrow>
    RemoveSteer nc orders fks st = (r, st') \<Longrightarrow> acl_step nc reg st st'"

inductive acl_reachable :: "'d netconf \<Rightarrow> 'm registry \<Rightarrow> 'd steering \<Rightarrow> bool" for nc where
  acl_start: "aclRules st = Map.empty \<Longrightarrow> accessListID st = 10 \<Longrightarrow> acl_reachable nc reg st"
| acl_more: "acl_reachable nc reg st \<Longrightarrow> acl_step nc reg' st st' \<Longrightarrow> acl_reachable nc reg' st'"

inductive_cases acl_stepE: "acl_step nc reg st st'"

section \<open>What RemoveSteer does\<close>

lemma removals_ids:
  assumes "\<forall>j. range_order m (orders j)"
  shows "RuleId ` set (removals m orders i fks) = {k. \<exists>fk\<in>set fks. m k = Some (AsKey fk)}"
proof (induction fks arbitrary: i)
  case Nil
  then show ?case by simp
next
  case (Cons fk fks)
  have "set (orders i) = dom m" using assms by (simp add: range_order_def)
  then have "RuleId ` set (map delete_rule (filter (\<lambda>k. m k = Some (AsKey fk)) (orders i))) =
      {k. m k = Some (AsKey fk)}"
    by (auto simp: delete_rule_def image_iff)
  with Cons.IH [of "Suc i"] show ?case by (auto simp: image_Un)
qed

definition cached_flow :: "FlowKey list \<Rightarrow> string option \<Rightarrow> bool" where
  "cached_flow fks p \<longleftrightarrow> (\<exists>fk\<in>set fks. p = Some (AsKey fk))"

lemma RemoveSteer_cases:
  assumes "RemoveSteer nc orders fks st = (r, st')" and "\<forall>j. range_order (aclRules st) (orders j)"
  shows "accessListID st' = accessListID st \<and>
    aclRules st' = (if is_ok r then (\<lambda>k. if cached_flow fks (aclRules st k) then None else aclRules st k)
      else aclRules st)"
proof -
  obtain c s where s: "NetConfConnector nc st = (c, s)" by fastforce
  note same = acl_stateD [OF NetConfConnector_keeps [OF s]]
  let ?rm = "removals (aclRules st) orders 0 fks"
  have ids: "RuleId ` set ?rm = {k. cached_flow fks (aclRules st k)}"
    using removals_ids [OF assms(2)] by (simp add: cached_flow_def)
  show ?thesis
  proof (cases "(\<exists>u. c = Ok u) \<and> ?rm \<noteq> []")
    case False
    show ?thesis
    proof (cases "\<exists>u. c = Ok u")
      case True
      with False have empty: "?rm = []" by simp
      with ids have "\<not> cached_flow fks (aclRules st k)" for k by auto
      with assms(1) s same True empty show ?thesis
        by (auto simp: RemoveSteer_def bind_state_def)
    next
      case False
      with assms(1) s same show ?thesis
        by (auto simp: RemoveSteer_def bind_state_def split: outcome.splits)
    qed
  next
    case True
    obtain c2 s2 where c2: "configure_rules nc ?rm s = (c2, s2)" by fastforce
    note same2 = acl_stateD [OF configure_rules_keeps [OF c2]]
    have del: "foldl (\<lambda>m k. m(k := None)) m (map RuleId ?rm) =
        (\<lambda>k. if cached_flow fks (aclRules st k) then None else m k)" for m :: "int \<rightharpoonup> string"
      unfolding foldl_delete using ids by auto
    have "(r, st') = (case c2 of
        Ok _ \<Rightarrow> (Ok (), s2\<lparr>aclRules := foldl (\<lambda>m k. m(k := None)) (aclRules s2) (map RuleId ?rm)\<rparr>)
      | Err e \<Rightarrow> (Err e, s2) | Fatal e \<Rightarrow> (Fatal e, s2) | Panic e \<Rightarrow> (Panic e, s2) | Blocked \<Rightarrow> (Blocked, s2))"
      using assms(1) s same True c2 by (auto simp: RemoveSteer_def bind_state_def Let_def split: outcome.splits)
    then show ?thesis
      unfolding del using same same2 by (cases c2) (auto simp: fun_eq_iff)
  qed
qed

lemma acl_step_inv:
  assumes "acl_step nc reg st st'" and "cache_inv (aclRules st) (accessListID st)"
  shows "cache_inv (aclRules st') (accessListID st')"
  using assms(1)
proof (cases rule: acl_step.cases)
  case (step_steer orders items r)
  note ok = step_steer(1) [unfolded batch_ok_def]
  show ?thesis
  proof (cases "is_ok r")
    case True
    then obtain u where "r = Ok u" by (auto simp: is_ok_iff)
    with Steer_Ok step_steer(2) obtain ids n' where
      "assign_ids (aclRules st) orders 0 (map item_key items) (accessListID st) = (ids, n')"
      "aclRules st' = add_entries (zip ids (map item_key items)) (aclRules st)" "accessListID st' = n'"
      by blast
    with batch_cache(4) [OF assms(2)] ok show ?thesis by fastforce
  next
    case False
    with Steer_not_Ok [OF step_steer(2)] ok cache_inv_below [OF assms(2)] cache_inv_mono [OF assms(2)]
    show ?thesis by auto
  qed
next
  case (step_remove_steer orders fks r)
  from RemoveSteer_cases [OF step_remove_steer(2,1)] cache_inv_restrict [OF assms(2)] assms(2) show ?thesis
    by (auto split: if_splits)
qed

lemma acl_reachable_inv: "acl_reachable nc reg st \<Longrightarrow> cache_inv (aclRules st) (accessListID st)"
proof (induction rule: acl_reachable.induct)
  case (acl_start st reg)
  then show ?case by (simp add: cache_inv_def ids_below_def)
next
  case (acl_more reg st reg' st')
  then show ?case using acl_step_inv by blast
qed

end
