(* ===== verification/SteerDevice.thy ===== *)
theory SteerDevice
  imports SteerRuns
begin

text \<open>
  What the code reads back from a device that holds the rules \<open>Steer\<close> configured: the flow
  of each rule, the interface its next hop belongs to, and the cache \<open>InitNetConf\<close> builds.
\<close>

section \<open>One rule\<close>

lemma IP_Equal_v4:
  assumes "is_v4 x" and "IP_Equal y x"
  shows "is_v4 y \<and> To4 y = To4 x"
  using assms unfolding is_v4_def To4_def IP_Equal_def by (auto split: if_splits)

lemma canonical_ip_v4: "is_v4 ip \<Longrightarrow> is_v4 (canonical_ip ip) \<and> To4 (canonical_ip ip) = To4 ip"
  by (cases "ip = []") (auto simp: canonical_ip_def is_v4_def To4_canonical [unfolded is_v4_def])

lemma parsed_addr_32: "is_v4 ip \<Longrightarrow> parsed_addr (IP_String ip @ ''/32'') = v4InV6Prefix @ To4 ip"
  using ParseCIDR_String [of ip 32] by (auto simp: parsed_addr_def utoa_eval)

lemma ParseCIDR_32: "is_v4 ip \<Longrightarrow> \<exists>net. ParseCIDR (IP_String ip @ ''/32'') = Ok (v4InV6Prefix @ To4 ip, net)"
  using ParseCIDR_String [of ip 32] by (simp add: utoa_eval)

text \<open>The flow a rule of \<open>Steer\<close> is read back as.\<close>

definition read_flow :: "FlowKey \<Rightarrow> FlowKey" where
  "read_flow fk = \<lparr>Protocol = protocol_of (FlowProto_String (Protocol fk)),
     SrcAddr = v4InV6Prefix @ To4 (SrcAddr fk), DstAddr = v4InV6Prefix @ To4 (DstAddr fk),
     SrcPort = SrcPort fk, DstPort = DstPort fk\<rparr>"

definition known_protocol :: "FlowKey \<Rightarrow> bool" where
  "known_protocol fk \<longleftrightarrow> Protocol fk = TCP \<or> Protocol fk = UDP"

lemma read_flow_key:
  assumes "v4_flow fk" and "known_protocol fk"
  shows "AsKey (read_flow fk) = AsKey fk"
proof -
  have v4: "is_v4 (SrcAddr fk)" "is_v4 (DstAddr fk)" using assms(1) by (simp_all add: v4_flow_def)
  then have "v4_flow (read_flow fk)"
    by (simp add: v4_flow_def read_flow_def is_v4_def To4_canonical [unfolded is_v4_def])
  moreover have "flow_id (read_flow fk) = flow_id fk"
    using v4 assms(2) by (auto simp: flow_id_def read_flow_def To4_canonical protocol_of_String known_protocol_def)
  ultimately show ?thesis using flow_key.key_eq assms(1) by blast
qed

lemma canonical_steer_rule: "canonical_rule (steer_rule fk nh k) = steer_rule fk (canonical_ip nh) k"
  by (simp add: canonical_rule_def steer_rule_def canonical_items_def)

lemma readable_steer_rule:
  "0 \<le> k \<Longrightarrow> k < 2 ^ 63 \<Longrightarrow> nh = [] \<or> is_v4 nh \<Longrightarrow> readable_rule (steer_rule fk nh k)"
  by (simp add: readable_rule_def steer_rule_def v4_nexthop_def)

lemma readable_item_rules:
  assumes "\<forall>nh\<in>set nhs. nh = [] \<or> is_v4 nh" and "\<forall>k\<in>set ids. 0 \<le> k \<and> k < 2 ^ 63"
  shows "list_all readable_rule (item_rules items nhs ids)"
proof -
  have "readable_rule r" if "r \<in> set (item_rules items nhs ids)" for r
  proof -
    from that obtain it nh k where z: "(it, nh, k) \<in> set (zip items (zip nhs ids))"
      and r: "r = steer_rule (Rule it) nh k"
      by (auto simp: item_rules_def)
    note nk = set_zip_rightD [OF z]
    from set_zip_leftD [OF nk] set_zip_rightD [OF nk] assms have "nh = [] \<or> is_v4 nh" "0 \<le> k" "k < 2 ^ 63"
      by blast+
    with r show ?thesis by (simp add: readable_steer_rule)
  qed
  then show ?thesis by (simp add: list_all_iff)
qed

section \<open>The reply\<close>

lemma fetch_rules_reply:
  assumes "netconfSession st" and "getAclRuleFilterXml = Ok f"
    and "Exec nc (device st) f = (Inr [acl_reply xs], d)"
    and "AclRules_xml rules = Ok xs" and "list_all readable_rule rules"
  shows "fetch_rules nc st = (Ok (map canonical_rule rules), st\<lparr>device := d\<rparr>)"
proof -
  have "Rules_read zero_Rules xs = Ok (zero_Rules\<lparr>RuleList := map canonical_rule rules\<rparr>)"
    using Rules_read_round [OF assms(5), of zero_Rules] assms(4) by (auto simp: zero_Rules_def)
  then show ?thesis
    by (simp add: fetch_rules_def bind_state_def NetConfConnector_def panic_on_err_def session_Exec_def
        assms(1) assms(2) assms(3) Data_Unmarshal_reply response_rules_def)
qed

section \<open>GetSteerInterface\<close>

text \<open>
  An item the device can be asked about: IPv4, TCP or UDP, to a registered WAN interface with
  an IPv4 next hop that no other WAN interface has.
\<close>

definition steerable :: "'m registry \<Rightarrow> SteerItem \<Rightarrow> ip \<Rightarrow> bool" where
  "steerable reg it nh \<longleftrightarrow> v4_flow (Rule it) \<and> known_protocol (Rule it) \<and> NextHop it \<noteq> [] \<and>
     item_nexthop reg (NextHop it) = Ok nh \<and> is_v4 nh \<and>
     (\<forall>v j. registered reg v = Some j \<and> IsWan j \<and> is_v4 (IfNextHop j) \<and> To4 (IfNextHop j) = To4 nh \<longrightarrow>
        v = NextHop it)"

lemma nexthop_uppers_steerable:
  assumes "registry_inv reg" and "range_order (NextHop2Interface reg) order" and "steerable reg it nh"
  shows "nexthop_uppers reg order (canonical_ip nh) \<noteq> [] \<and>
    set (nexthop_uppers reg order (canonical_ip nh)) = {NextHop it}"
proof -
  let ?c = "canonical_ip nh" and ?u = "NextHop it"
  have v4: "is_v4 nh" and c: "is_v4 ?c" "To4 ?c = To4 nh"
    using assms(3) canonical_ip_v4 by (auto simp: steerable_def)
  have wan: "deref reg (NextHop2Interface reg v) = Some i \<longleftrightarrow> registered reg v = Some i \<and> IsWan i" for v i
    using find_by_nexthop [OF assms(1)] by (simp add: findInterfaceByNextHop_def)
  obtain ifc where ifc: "deref reg (NextHop2Interface reg ?u) = Some ifc" "IfNextHop ifc = nh"
    using assms(3) by (auto simp: steerable_def item_nexthop_def findInterfaceByNextHop_def split: option.splits)
  have "?u \<in> set order"
    using ifc assms(2) by (auto simp: range_order_def deref_def bind_eq_Some_conv)
  moreover have "IP_Equal (IfNextHop ifc) ?c"
    using ifc v4 c by (simp add: IP_Equal_To4)
  moreover have "Upper ifc = ?u"
    using ifc wan registered_Upper registry_inv_sound [OF assms(1)] by blast
  moreover have "ifc \<in> set (List.map_filter (\<lambda>k. deref reg (NextHop2Interface reg k)) order)"
    using calculation(1) ifc(1) unfolding map_filter_set by blast
  ultimately have mem: "?u \<in> set (nexthop_uppers reg order ?c)"
    unfolding nexthop_uppers_def set_map set_filter by (intro image_eqI [where x = ifc]) simp_all
  have "v = ?u" if "v \<in> set (nexthop_uppers reg order ?c)" for v
  proof -
    from that obtain w j where j: "deref reg (NextHop2Interface reg w) = Some j"
      "IP_Equal (IfNextHop j) ?c" "v = Upper j"
      by (auto simp: nexthop_uppers_def map_filter_set)
    with wan have r: "registered reg w = Some j" "IsWan j" by auto
    with registered_Upper [OF registry_inv_sound [OF assms(1)]] j(3) have "v = w" by blast
    moreover have "is_v4 (IfNextHop j)" "To4 (IfNextHop j) = To4 nh"
      using IP_Equal_v4 [OF c(1) j(2)] c(2) by simp_all
    ultimately show ?thesis using assms(3) r by (auto simp: steerable_def)
  qed
  with mem have "set (nexthop_uppers reg order ?c) = {?u}" by blast
  then show ?thesis by (metis empty_set insert_not_empty)
qed

lemma foldl_same_upd:
  "us \<noteq> [] \<Longrightarrow> set us = {u} \<Longrightarrow> foldl (\<lambda>rm u. rm(k \<mapsto> u)) rm us = rm(k \<mapsto> u)"
proof (induction us arbitrary: rm)
  case (Cons a us)
  then show ?case by (cases us) auto
qed simp

lemma response_entry_steerable:
  assumes "registry_inv reg" and "range_order (NextHop2Interface reg) order" and "steerable reg it nh"
  shows "response_entry reg order (canonical_rule (steer_rule (Rule it) nh k)) rm =
    Ok (rm(item_key it \<mapsto> NextHop it))"
proof -
  let ?fk = "Rule it"
  have v4: "is_v4 (SrcAddr ?fk)" "is_v4 (DstAddr ?fk)" and fk: "v4_flow ?fk" "known_protocol ?fk"
    using assms(3) by (simp_all add: steerable_def v4_flow_def)
  have "response_entry reg order (canonical_rule (steer_rule ?fk nh k)) rm =
      Ok (foldl (\<lambda>rm u. rm(AsKey (read_flow ?fk) \<mapsto> u)) rm (nexthop_uppers reg order (canonical_ip nh)))"
    unfolding canonical_steer_rule using v4 by (simp add: response_entry_def steer_rule_def rule_flow_def
        parsed_addr_32 read_flow_def)
  also have "\<dots> = Ok (rm(AsKey ?fk \<mapsto> NextHop it))"
    using nexthop_uppers_steerable [OF assms] by (simp add: foldl_same_upd read_flow_key [OF fk])
  finally show ?thesis by (simp add: item_key_def)
qed

fun items_map :: "(string \<rightharpoonup> string) \<Rightarrow> SteerItem list \<Rightarrow> (string \<rightharpoonup> string)" where
  "items_map rm [] = rm"
| "items_map rm (it # items) = items_map (rm(item_key it \<mapsto> NextHop it)) items"

lemma response_map_steerable:
  assumes "registry_inv reg" and "\<forall>j. range_order (NextHop2Interface reg) (orders j)"
    and "list_all2 (steerable reg) items nhs" and "length ids = length items"
  shows "response_map reg orders i (map canonical_rule (item_rules items nhs ids)) rm =
    Ok (items_map rm items)"
  using assms(3,4)
proof (induction items nhs arbitrary: i ids rm rule: list_all2_induct)
  case Nil
  then show ?case by (simp add: item_rules_def)
next
  case (Cons it items nh nhs)
  then obtain k ks where ids: "ids = k # ks" "length ks = length items" by (cases ids) auto
  have "item_rules (it # items) (nh # nhs) ids = steer_rule (Rule it) nh k # item_rules items nhs ks"
    by (simp add: item_rules_def ids)
  moreover have "response_map reg orders (Suc i) (map canonical_rule (item_rules items nhs ks))
      (rm(item_key it \<mapsto> NextHop it)) =
      Ok (items_map (rm(item_key it \<mapsto> NextHop it)) items)"
    using ids(2) by (rule Cons.IH)
  moreover have "range_order (NextHop2Interface reg) (orders i)" using assms(2) by simp
  note response_entry_steerable [OF assms(1) this Cons.hyps(1), of k rm]
  ultimately show ?case by simp
qed

lemma items_map_other: "k \<notin> item_key ` set items \<Longrightarrow> items_map rm items k = rm k"
  by (induction items arbitrary: rm) auto

lemma items_map_append: "items_map rm (xs @ ys) = items_map (items_map rm xs) ys"
  by (induction xs arbitrary: rm) auto

lemma items_map_lookup:
  assumes "distinct (map item_key items)" and "it \<in> set items"
  shows "items_map rm items (item_key it) = Some (NextHop it)"
proof -
  from assms(2) obtain xs ys where "items = xs @ it # ys" by (auto simp: in_set_conv_decomp)
  with assms(1) show ?thesis by (simp add: items_map_append items_map_other)
qed

section \<open>InitNetConf\<close>

lemma init_rule_steer:
  assumes "v4_flow fk" and "known_protocol fk" and "k \<noteq> DefaultRuleId"
  shows "init_rule maxID (canonical_rule (steer_rule fk nh k)) st =
    (Ok (), st\<lparr>aclRules := (aclRules st)(k \<mapsto> AsKey fk),
       accessListID := (if maxID < k then go_int (k + 10) else accessListID st)\<rparr>)"
proof -
  have v4: "is_v4 (SrcAddr fk)" "is_v4 (DstAddr fk)" using assms(1) by (simp_all add: v4_flow_def)
  obtain n1 n2 where p: "ParseCIDR (IP_String (SrcAddr fk) @ ''/32'') = Ok (v4InV6Prefix @ To4 (SrcAddr fk), n1)"
    "ParseCIDR (IP_String (DstAddr fk) @ ''/32'') = Ok (v4InV6Prefix @ To4 (DstAddr fk), n2)"
    using ParseCIDR_32 [OF v4(1)] ParseCIDR_32 [OF v4(2)] by blast
  obtain it m where fields: "RuleItems (steer_rule fk (canonical_ip nh) k) = Some it"
    "RuleIpv4Matches it = Some m"
    "SourceIpv4 m = IP_String (SrcAddr fk) @ ''/32''" "DestinationIpv4 m = IP_String (DstAddr fk) @ ''/32''"
    "rule_flow it m (v4InV6Prefix @ To4 (SrcAddr fk)) (v4InV6Prefix @ To4 (DstAddr fk)) = Ok (read_flow fk)"
    by (simp add: steer_rule_def rule_flow_def read_flow_def)
  have id: "RuleId (steer_rule fk (canonical_ip nh) k) = k" by (simp add: steer_rule_def)
  have "init_rule maxID (canonical_rule (steer_rule fk nh k)) st =
      (let st' = AclRuleCacheAdd (read_flow fk) k st
       in (Ok (), if maxID < k then st'\<lparr>accessListID := go_int (k + 10)\<rparr> else st'))"
    unfolding canonical_steer_rule init_rule_def
    by (simp only: fields id p assms(3) if_False option.case prod.case outcome.case bind_state_def)
  then show ?thesis
    by (simp add: AclRuleCacheAdd_def read_flow_key [OF assms(1,2)])
qed

lemma init_rules_steer:
  assumes "list_all (\<lambda>it. v4_flow (Rule it) \<and> known_protocol (Rule it)) items"
    and "length nhs = length items" and "length ids = length items" and "DefaultRuleId \<notin> set ids"
  shows "init_rules maxID (map canonical_rule (item_rules items nhs ids)) st =
    (Ok (), st\<lparr>aclRules := add_entries (zip ids (map item_key items)) (aclRules st),
       accessListID := foldl (\<lambda>n k. if maxID < k then go_int (k + 10) else n) (accessListID st) ids\<rparr>)"
  using assms
proof (induction items arbitrary: nhs ids st)
  case Nil
  then show ?case by (simp add: item_rules_def add_entries_def)
next
  case (Cons it items)
  then obtain nh nhs' k ks where c: "nhs = nh # nhs'" "ids = k # ks"
    by (metis length_Suc_conv length_Cons)
  have split: "item_rules (it # items) nhs ids = steer_rule (Rule it) nh k # item_rules items nhs' ks"
    by (simp add: item_rules_def c)
  from Cons.prems c have k: "k \<noteq> DefaultRuleId" "v4_flow (Rule it)" "known_protocol (Rule it)" by auto
  note one = init_rule_steer [OF k(2,3,1), of maxID nh st]
  show ?case
    unfolding split
    using Cons.IH [of nhs' ks] Cons.prems c one
    by (simp add: bind_state_def add_entries_def item_key_def)
qed

end
