(* ===== verification/SteerProps.thy ===== *)
theory SteerProps
  imports SteerDevice RegistryProps
begin

text \<open>
  The properties of policy steering: the rule cache over all runs of \<open>Steer\<close> and
  \<open>RemoveSteer\<close>, what each does to the cache and asks of the device, their round trip, what
  \<open>GetSteerInterface\<close> finds on a device that holds the rules, and what a restart recovers
  from such a device.
\<close>

section \<open>A device that accepts everything\<close>

definition log_device :: "xml list netconf" where
  "log_device = \<lparr>DialSSH = (\<lambda>d. (None, d)), Exec = (\<lambda>d x. (Inr [], d @ [x]))\<rparr>"

definition steer_start :: "xml list steering" where
  "steer_start = \<lparr>aclRules = Map.empty, accessListID = 10, netconfSession = True, device = []\<rparr>"

definition web_flow :: "u16 \<Rightarrow> FlowKey" where
  "web_flow port = \<lparr>Protocol = TCP, SrcAddr = IPv4 10 0 0 1, DstAddr = IPv4 10 0 0 2, SrcPort = port, DstPort = 80\<rparr>"

definition to_halo0 :: "u16 \<Rightarrow> SteerItem" where
  "to_halo0 port = \<lparr>Rule = web_flow port, NextHop = ''halo0''\<rparr>"

lemma web_flow_v4 [simp]: "v4_flow (web_flow port)"
  by (simp add: v4_flow_def web_flow_def)

lemma web_flow_key: "AsKey (web_flow a) = AsKey (web_flow b) \<longleftrightarrow> a = b"
  by (simp add: flow_key.key_eq) (simp add: flow_id_def web_flow_def)

lemma to_halo0_key [simp]: "item_key (to_halo0 a) = AsKey (web_flow a)" "NextHop (to_halo0 a) = ''halo0''"
    "Rule (to_halo0 a) = web_flow a"
  by (simp_all add: item_key_def to_halo0_def)

lemma steer_start_reachable [simp]: "acl_reachable log_device reg steer_start"
  by (rule acl_start) (simp_all add: steer_start_def)

lemma steer_start_fields [simp]:
  "aclRules steer_start = Map.empty" "accessListID steer_start = 10" "netconfSession steer_start"
  "device steer_start = []"
  by (simp_all add: steer_start_def)

lemma halo0_nexthop [simp]: "item_nexthop one_wan ''halo0'' = Ok (IPv4 10 0 0 1)"
proof -
  have "registered one_wan ''halo0'' = Some (wan_interface ''halo0'' ''ge1'' 7)"
    by (simp add: registered_one_wan)
  moreover have "IsWan (wan_interface ''halo0'' ''ge1'' 7)" by simp
  ultimately have "deref one_wan (findInterfaceByNextHop one_wan ''halo0'') = Some (wan_interface ''halo0'' ''ge1'' 7)"
    using find_by_nexthop [OF reachable_inv [OF reachable_one_wan]] by blast
  then show ?thesis by (simp add: item_nexthop_def)
qed

section \<open>The cache\<close>

text \<open>
  \<^bold>\<open>C1\<close>. In every state that calls of \<open>Steer\<close> and \<open>RemoveSteer\<close> can reach from an empty
  cache with 10 as the next id, whether they succeed or fail, on any device and any registries,
  as long as no single call of \<open>Steer\<close> names a flow twice (see \<open>repeated_flow_gets_two_ids\<close>) and
  the ids stay below 2^63: every cached rule id is at least 0 and below the next id to be given
  out, so a new rule never overwrites another flow's, and no flow has two ids. A cache that a
  restart read from the device is not such a state (see \<open>restart_overwrites_rule\<close>).
\<close>

theorem acl_cache_invariant:
  assumes "acl_reachable nc reg st"
  shows "(\<forall>k v. aclRules st k = Some v \<longrightarrow> 0 \<le> k \<and> k < accessListID st) \<and>
    (\<forall>k j v. aclRules st k = Some v \<longrightarrow> aclRules st j = Some v \<longrightarrow> k = j)"
proof (intro conjI allI impI)
  note inv = acl_reachable_inv [OF assms]
  fix k j v assume k: "aclRules st k = Some v"
  with cache_inv_below [OF inv] show "0 \<le> k" "k < accessListID st" by (auto simp: ids_below_def)
  assume "aclRules st j = Some v"
  with cache_invD [OF inv] k show "k = j" by blast
qed

lemma Steer_batch:
  assumes "cache_inv (aclRules st) (accessListID st)" and "batch_ok orders items st"
    and "Steer nc reg orders items st = (Ok u, st')"
  shows "\<forall>k v. aclRules st k = Some v \<longrightarrow> aclRules st' k = Some v"
    and "ran (aclRules st') = ran (aclRules st) \<union> item_key ` set items"
    and "cache_inv (aclRules st') (accessListID st')"
proof -
  from Steer_Ok [OF assms(3)] obtain ids n' where
    ids: "assign_ids (aclRules st) orders 0 (map item_key items) (accessListID st) = (ids, n')"
    and st': "aclRules st' = add_entries (zip ids (map item_key items)) (aclRules st)" "accessListID st' = n'"
    by blast
  from assms(2) have ok: "\<forall>j. range_order (aclRules st) (orders j)"
    "accessListID st + 10 * int (length (map item_key items)) < 2 ^ 63" "distinct (map item_key items)"
    by (simp_all add: batch_ok_def)
  note b = batch_cache [OF assms(1) ok(1,2) ids ok(3)]
  show "\<forall>k v. aclRules st k = Some v \<longrightarrow> aclRules st' k = Some v" using b(2) st' by simp
  show "ran (aclRules st') = ran (aclRules st) \<union> item_key ` set items" using b(3) st' by simp
  show "cache_inv (aclRules st') (accessListID st')" using b(4) st' by simp
qed

text \<open>
  \<^bold>\<open>C2\<close>. \<open>Steer\<close> and the cache, in any state whose cache has no flow under two ids and only
  non-negative ids below the next one, which all reachable states of C1 are, and for a call that
  does not name a flow twice and does not take the ids to 2^63. A successful call keeps every
  cached rule under its id and adds exactly the flows of the call; a call that fails, whether on
  an unknown next hop, in the encoding, on the device or in the commit, leaves the cache as it
  was (it may use up ids).
\<close>

theorem Steer_spec:
  assumes "cache_inv (aclRules st) (accessListID st)" and "batch_ok orders items st"
    and "Steer nc reg orders items st = (r, st')"
  shows "if is_ok r
    then (\<forall>k v. aclRules st k = Some v \<longrightarrow> aclRules st' k = Some v) \<and>
      ran (aclRules st') = ran (aclRules st) \<union> item_key ` set items
    else aclRules st' = aclRules st \<and> accessListID st \<le> accessListID st'"
proof -
  note inv = assms(1)
  show ?thesis
  proof (cases "is_ok r")
    case True
    then obtain u where "r = Ok u" by (auto simp: is_ok_iff)
    with assms(3) have ok: "Steer nc reg orders items st = (Ok u, st')" by simp
    from Steer_batch [OF inv assms(2) ok] True show ?thesis by simp
  next
    case False
    with Steer_not_Ok [OF assms(3) False cache_inv_below [OF inv]] assms(2) show ?thesis
      by (simp add: batch_ok_def)
  qed
qed

lemma configure_rules_accepts:
  assumes "\<And>d x. \<exists>q. fst (Exec nc d x) = Inr q" and "netconfSession st" and "list_all encodable_nexthop rl"
  shows "\<exists>st'. configure_rules nc rl st = (Ok (), st')"
proof -
  from assms(3) obtain xs where "AclRules_xml rl = Ok xs" using AclRules_xml_Ok by blast
  then obtain doc where doc: "getAclRuleConfigXml rl = Ok doc" by (simp add: getAclRuleConfigXml_doc)
  have ex: "\<exists>q. session_Exec nc x s = (Ok q, s\<lparr>device := snd (Exec nc (device s) x)\<rparr>)" for x s
    using assms(1) [of "device s" x] by (auto simp: session_Exec_def split: prod.splits)
  obtain q where q: "session_Exec nc doc st = (Ok q, st\<lparr>device := snd (Exec nc (device st) doc)\<rparr>)"
    using ex by blast
  let ?s = "st\<lparr>device := snd (Exec nc (device st) doc)\<rparr>"
  obtain q' where q': "session_Exec nc Commit ?s = (Ok q', ?s\<lparr>device := snd (Exec nc (device ?s) Commit)\<rparr>)"
    using ex by blast
  have "netconfSession ?s" using assms(2) by simp
  then show ?thesis
    by (simp add: configure_rules_def bind_state_def doc q commitChanges_def NetConfConnector_open q')
qed

lemma encodable_steer_rule: "encodable_nexthop (steer_rule fk nh k) \<longleftrightarrow> length nh \<in> {0, 4, 16}"
  by (simp add: encodable_nexthop_def steer_rule_def)

lemma item_rules_encodable:
  assumes "\<forall>nh\<in>set nhs. length nh \<in> {0, 4, 16}"
  shows "list_all encodable_nexthop (item_rules items nhs ids)"
proof -
  have "encodable_nexthop r" if "r \<in> set (item_rules items nhs ids)" for r
  proof -
    from that obtain it nh k where z: "(it, nh, k) \<in> set (zip items (zip nhs ids))"
      and r: "r = steer_rule (Rule it) nh k"
      by (auto simp: item_rules_def)
    have "nh \<in> set nhs" using set_zip_leftD [OF set_zip_rightD [OF z]] .
    with assms r show ?thesis by (simp add: encodable_steer_rule)
  qed
  then show ?thesis by (simp add: list_all_iff)
qed

lemma Steer_accepts:
  assumes "\<And>d x. \<exists>q. fst (Exec nc d x) = Inr q" and "netconfSession st" and "items \<noteq> []"
    and "list_all2 (\<lambda>it nh. item_nexthop reg (NextHop it) = Ok nh \<and> length nh \<in> {0, 4, 16}) items nhs"
  shows "\<exists>st' ids doc. Steer nc reg orders items st = (Ok (), st') \<and> length ids = length items \<and>
    getAclRuleConfigXml (item_rules items nhs ids) = Ok doc \<and>
    device st' = snd (Exec nc (snd (Exec nc (device st) doc)) Commit) \<and> netconfSession st'"
proof -
  obtain ids n' where ids: "assign_ids (aclRules st) orders 0 (map item_key items) (accessListID st) = (ids, n')"
    by fastforce
  have nhs: "list_all2 (\<lambda>it nh. item_nexthop reg (NextHop it) = Ok nh) items nhs"
    using assms(4) by (rule list_all2_mono) simp
  note sr = steer_rules_all_Ok [OF nhs ids, of "[]" "[]"]
  have len: "length ids = length items" "length nhs = length items"
    using length_assign_ids [OF ids] list_all2_lengthD [OF nhs] by simp_all
  have ne: "item_rules items nhs ids \<noteq> []"
    using len assms(3) by (cases items; cases ids; cases nhs) (auto simp: item_rules_def)
  have "\<forall>nh\<in>set nhs. length nh \<in> {0, 4, 16}"
    using assms(4) by (induction items nhs rule: list_all2_induct) simp_all
  then have enc: "list_all encodable_nexthop (item_rules items nhs ids)"
    by (rule item_rules_encodable)
  have "netconfSession (st\<lparr>accessListID := n'\<rparr>)" using assms(2) by simp
  from configure_rules_accepts [OF assms(1) this enc] obtain s where s: "configure_rules nc (item_rules items nhs ids) (st\<lparr>accessListID := n'\<rparr>) = (Ok (), s)" ..
  then have "\<exists>st'. Steer nc reg orders items st = (Ok (), st') \<and> device st' = device s \<and>
      netconfSession st' = netconfSession s"
    using ne sr by (simp add: Steer_def bind_state_def NetConfConnector_open [OF assms(2)])
  moreover obtain doc where "getAclRuleConfigXml (item_rules items nhs ids) = Ok doc"
    "device s = snd (Exec nc (snd (Exec nc (device st) doc)) Commit)" "netconfSession s"
    using configure_rules_Ok [OF s] assms(2) by auto
  ultimately show ?thesis using len(1) by metis
qed

lemma log_device_accepts: "\<exists>q. fst (Exec log_device d x) = Inr q"
  by (simp add: log_device_def)

lemma batch_ok_start: "batch_ok (\<lambda>_. []) [to_halo0 1, to_halo0 2] steer_start"
  by (simp add: batch_ok_def web_flow_key)

lemma steer_start_batch:
  "\<exists>st'. Steer log_device one_wan (\<lambda>_. []) [to_halo0 1, to_halo0 2] steer_start = (Ok (), st')"
proof -
  have "list_all2 (\<lambda>it nh. item_nexthop one_wan (NextHop it) = Ok nh \<and> length nh \<in> {0, 4, 16})
      [to_halo0 1, to_halo0 2] [IPv4 10 0 0 1, IPv4 10 0 0 1]" by simp
  from Steer_accepts [where orders = "\<lambda>_. []", OF log_device_accepts steer_start_fields(3) list.distinct(2) this]
  show ?thesis by blast
qed

theorem acl_cache_invariant_witness:
  "\<exists>st k. Steer log_device one_wan (\<lambda>_. []) [to_halo0 1, to_halo0 2] steer_start = (Ok (), st) \<and>
     aclRules st k = Some (AsKey (web_flow 2)) \<and> 0 \<le> k \<and> k < accessListID st"
proof -
  obtain st where st: "Steer log_device one_wan (\<lambda>_. []) [to_halo0 1, to_halo0 2] steer_start = (Ok (), st)"
    using steer_start_batch by blast
  have "acl_reachable log_device one_wan st"
    by (rule acl_more [OF steer_start_reachable step_steer [OF batch_ok_start st]])
  note inv = acl_cache_invariant [OF this]
  have "AsKey (web_flow 2) \<in> ran (aclRules st)"
    using Steer_batch(2) [OF acl_reachable_inv [OF steer_start_reachable] batch_ok_start st] by simp
  with inv st show ?thesis by (auto simp: ran_def)
qed

theorem Steer_spec_witness:
  "\<exists>st. Steer log_device one_wan (\<lambda>_. []) [to_halo0 1, to_halo0 2] steer_start = (Ok (), st) \<and>
     ran (aclRules st) = {AsKey (web_flow 1), AsKey (web_flow 2)}"
proof -
  obtain st where st: "Steer log_device one_wan (\<lambda>_. []) [to_halo0 1, to_halo0 2] steer_start = (Ok (), st)"
    using steer_start_batch by blast
  from Steer_spec [OF acl_reachable_inv [OF steer_start_reachable [of one_wan]] batch_ok_start st] st show ?thesis by simp
qed

text \<open>
  \<^bold>\<open>C23\<close>. \<open>Steer\<close> succeeds whenever it can: with an open session, a device that accepts
  every request, and at least one item, each naming no next hop or a registered WAN interface
  whose next-hop address has 0, 4 or 16 bytes, it returns no error; the device has then seen
  exactly one configuration document, holding one rule per item in their order with the assigned
  ids, and one commit. (For no items it sends nothing, and for an unknown next hop it returns an
  error.)
\<close>

theorem Steer_succeeds:
  assumes "\<And>d x. \<exists>q. fst (Exec nc d x) = Inr q" and "netconfSession st" and "items \<noteq> []"
    and "list_all2 (\<lambda>it nh. item_nexthop reg (NextHop it) = Ok nh \<and> length nh \<in> {0, 4, 16}) items nhs"
  shows "\<exists>st' ids doc. Steer nc reg orders items st = (Ok (), st') \<and> length ids = length items \<and>
    getAclRuleConfigXml (item_rules items nhs ids) = Ok doc \<and>
    device st' = snd (Exec nc (snd (Exec nc (device st) doc)) Commit)"
  using Steer_accepts [OF assms] by blast

theorem Steer_succeeds_witness:
  "\<exists>st' doc. Steer log_device one_wan (\<lambda>_. []) [to_halo0 1, to_halo0 2] steer_start = (Ok (), st') \<and>
     device st' = [doc, Commit]"
proof -
  have "\<exists>st' ids doc. Steer log_device one_wan (\<lambda>_. []) [to_halo0 1, to_halo0 2] steer_start = (Ok (), st') \<and>
      length ids = length [to_halo0 1, to_halo0 2] \<and>
      getAclRuleConfigXml (item_rules [to_halo0 1, to_halo0 2] [IPv4 10 0 0 1, IPv4 10 0 0 1] ids) = Ok doc \<and>
      device st' = snd (Exec log_device (snd (Exec log_device (device steer_start) doc)) Commit)"
    by (rule Steer_succeeds) (simp_all add: log_device_def IPv4_def v4InV6Prefix_def)
  then show ?thesis by (auto simp: log_device_def)
qed

section \<open>Removing\<close>

text \<open>
  \<^bold>\<open>C18\<close>. \<open>RemoveSteer\<close>: on success exactly the cached rules of the given flows are gone,
  every other rule keeps its id; flows that are not cached are ignored; a failure changes
  nothing, and no id is used up either way. The device is asked to delete exactly those rules.
\<close>

theorem RemoveSteer_spec:
  assumes "RemoveSteer nc orders fks st = (r, st')" and "\<forall>j. range_order (aclRules st) (orders j)"
  shows "accessListID st' = accessListID st \<and>
    (if is_ok r
     then (\<forall>k. aclRules st' k = (if \<exists>fk\<in>set fks. aclRules st k = Some (AsKey fk) then None else aclRules st k))
     else aclRules st' = aclRules st) \<and>
    RuleId ` set (removals (aclRules st) orders 0 fks) =
      {k. \<exists>fk\<in>set fks. aclRules st k = Some (AsKey fk)}"
  using RemoveSteer_cases [OF assms] removals_ids [OF assms(2)] by (simp add: cached_flow_def)

definition one_rule :: "xml list steering" where
  "one_rule = steer_start\<lparr>aclRules := [10 \<mapsto> AsKey (web_flow 1)], accessListID := 20\<rparr>"

lemma RemoveSteer_one_rule:
  "\<exists>st'. RemoveSteer log_device (\<lambda>_. [10]) [web_flow 1] one_rule = (Ok (), st')"
proof -
  have "list_all encodable_nexthop [delete_rule 10]" by (simp add: encodable_nexthop_def delete_rule_def)
  moreover have "\<exists>q. fst (Exec log_device d x) = Inr q" for d x by (simp add: log_device_def)
  moreover have "netconfSession one_rule" by (simp add: one_rule_def)
  ultimately obtain s where "configure_rules log_device [delete_rule 10] one_rule = (Ok (), s)"
    using configure_rules_accepts by blast
  then show ?thesis
    by (simp add: RemoveSteer_def bind_state_def NetConfConnector_def one_rule_def)
qed

theorem RemoveSteer_spec_witness:
  "\<exists>st'. RemoveSteer log_device (\<lambda>_. [10]) [web_flow 1] one_rule = (Ok (), st') \<and> aclRules st' 10 = None"
proof -
  obtain st' where st': "RemoveSteer log_device (\<lambda>_. [10]) [web_flow 1] one_rule = (Ok (), st')"
    using RemoveSteer_one_rule by blast
  have "\<forall>j. range_order (aclRules one_rule) [10]" by (simp add: range_order_def one_rule_def)
  from RemoveSteer_spec [OF st' this] have "aclRules st' 10 = None" by (simp add: one_rule_def)
  with st' show ?thesis by blast
qed

text \<open>
  \<^bold>\<open>C6\<close>. Steering flows that were not steered, each named once, and removing them again, both
  with success, restores the cache exactly, for any device, registries and orders of the ranges,
  from any state whose cache has no flow under two ids and only non-negative ids below the next
  one, with the ids of the call below 2^63. After a restart the second condition can fail, and a
  new flow then takes the id of another (see \<open>restart_overwrites_rule\<close>).
\<close>

theorem steer_remove_roundtrip:
  assumes "cache_inv (aclRules st) (accessListID st)" and "batch_ok orders items st"
    and "Steer nc reg orders items st = (Ok u, st1)"
    and "item_key ` set items \<inter> ran (aclRules st) = {}"
    and "\<forall>j. range_order (aclRules st1) (orders1 j)"
    and "RemoveSteer nc orders1 (map Rule items) st1 = (Ok v, st2)"
  shows "aclRules st2 = aclRules st"
proof
  fix k
  note b = Steer_batch [OF assms(1-3)]
  have r: "aclRules st2 k = (if aclRules st1 k \<in> Some ` item_key ` set items then None else aclRules st1 k)"
    using RemoveSteer_cases [OF assms(6,5)] by (auto simp: cached_flow_def item_key_def)
  show "aclRules st2 k = aclRules st k"
  proof (cases "aclRules st k")
    case None
    have "aclRules st1 k = None \<or> aclRules st1 k \<in> Some ` item_key ` set items"
    proof (rule ccontr)
      assume no: "\<not> ?thesis"
      then obtain w where w: "aclRules st1 k = Some w" "w \<notin> item_key ` set items" by auto
      with b(2) have "w \<in> ran (aclRules st)" by (metis UnE ranI)
      then obtain j where j: "aclRules st j = Some w" by (auto simp: ran_def)
      with b(1) have "aclRules st1 j = Some w" by blast
      with cache_invD [OF b(3)] w(1) have "j = k" by blast
      with j None show False by simp
    qed
    with r None show ?thesis by auto
  next
    case (Some w)
    with assms(4) have "w \<notin> item_key ` set items" by (auto simp: ran_def)
    with r b(1) Some show ?thesis by auto
  qed
qed


lemma RemoveSteer_accepts:
  assumes "\<And>d x. \<exists>q. fst (Exec nc d x) = Inr q" and "netconfSession st"
  shows "\<exists>st'. RemoveSteer nc orders fks st = (Ok (), st')"
proof -
  have "list_all encodable_nexthop (removals m orders i fks)" for m i
    by (induction fks arbitrary: i) (auto simp: list_all_iff encodable_nexthop_def delete_rule_def)
  from configure_rules_accepts [OF assms this]
  obtain s where "configure_rules nc (removals (aclRules st) orders 0 fks) st = (Ok (), s)" by blast
  then show ?thesis
    by (auto simp: RemoveSteer_def bind_state_def NetConfConnector_open [OF assms(2)] Let_def)
qed

lemma Steer_one:
  assumes "Steer nc reg orders [it] st = (Ok u, st')" and "find_key (aclRules st) (orders 0) (item_key it) = None"
  shows "aclRules st' = (aclRules st)(accessListID st \<mapsto> item_key it)"
  using Steer_Ok [OF assms(1)] assms(2) by (auto simp: rule_id_for_def add_entries_def Let_def)

theorem steer_remove_roundtrip_witness:
  "\<exists>st1 st2. Steer log_device one_wan (\<lambda>_. []) [to_halo0 1] steer_start = (Ok (), st1) \<and>
     aclRules st1 = [10 \<mapsto> AsKey (web_flow 1)] \<and>
     RemoveSteer log_device (\<lambda>_. [10]) [web_flow 1] st1 = (Ok (), st2) \<and> aclRules st2 = Map.empty"
proof -
  have "list_all2 (\<lambda>it nh. item_nexthop one_wan (NextHop it) = Ok nh \<and> length nh \<in> {0, 4, 16})
      [to_halo0 1] [IPv4 10 0 0 1]" by simp
  from Steer_accepts [where orders = "\<lambda>_. []", OF log_device_accepts steer_start_fields(3) list.distinct(2) this]
  obtain st1 where
    s: "Steer log_device one_wan (\<lambda>_. []) [to_halo0 1] steer_start = (Ok (), st1)" and open': "netconfSession st1"
    by blast
  have st1: "aclRules st1 = [10 \<mapsto> AsKey (web_flow 1)]"
    using Steer_one [OF s] by (simp add: find_key_def)
  from open' obtain st2 where r: "RemoveSteer log_device (\<lambda>_. [10]) (map Rule [to_halo0 1]) st1 = (Ok (), st2)"
    using RemoveSteer_accepts [OF log_device_accepts] by blast
  have "batch_ok (\<lambda>_. []) [to_halo0 1] steer_start" by (simp add: batch_ok_def)
  moreover have "\<forall>j::nat. range_order (aclRules st1) [10]" by (simp add: st1 range_order_def)
  ultimately have "aclRules st2 = Map.empty"
    using steer_remove_roundtrip [OF acl_reachable_inv [OF steer_start_reachable [of one_wan]] _ s _ _ r] by simp
  with s st1 r show ?thesis by auto
qed


section \<open>Verifying against the device\<close>

text \<open>
  \<^bold>\<open>C8\<close>. What \<open>Steer\<close> configures, \<open>GetSteerInterface\<close> finds: for different IPv4 TCP or
  UDP flows, each to a named next hop that is a registered WAN interface whose IPv4 next-hop
  address no other WAN interface has, on a device that returns the configured rules in its
  running configuration, the status is true and the names are the requested ones, in order,
  whatever order the interface map is ranged in. For other protocols see
  \<open>other_protocols_never_verify\<close>; an item without a next hop is not covered.
\<close>

theorem steered_rules_verify:
  assumes "reg_reachable tm reg" and "\<forall>j. range_order (NextHop2Interface reg) (orders j)"
    and "list_all2 (steerable reg) items nhs" and "distinct (map item_key items)"
    and "length ids = length items" and "\<forall>k\<in>set ids. 0 \<le> k \<and> k < 2 ^ 63"
    and "AclRules_xml (item_rules items nhs ids) = Ok xs"
    and "netconfSession st" and "getAclRuleFilterXml = Ok f"
    and "Exec nc (device st) f = (Inr [acl_reply xs], d)"
  shows "GetSteerInterface nc reg orders items st = (Ok (True, map NextHop items), st\<lparr>device := d\<rparr>)"
proof -
  note inv = reachable_inv [OF assms(1)]
  have nh: "\<forall>nh\<in>set nhs. is_v4 nh"
    using assms(3) by (induction items nhs rule: list_all2_induct) (auto simp: steerable_def)
  have "list_all readable_rule (item_rules items nhs ids)"
    using nh assms(6) by (intro readable_item_rules) simp_all
  from fetch_rules_reply [OF assms(8-10,7) this]
  have fetch: "fetch_rules nc st = (Ok (map canonical_rule (item_rules items nhs ids)), st\<lparr>device := d\<rparr>)" .
  have rm: "response_map reg orders 0 (map canonical_rule (item_rules items nhs ids)) Map.empty =
      Ok (items_map Map.empty items)"
    using response_map_steerable [OF inv assms(2,3,5)] .
  have m: "match_item (items_map Map.empty items) it" if "it \<in> set items" for it
    using items_map_lookup [OF assms(4) that] by (simp add: match_item_def item_key_def)
  then have "steer_status (items_map Map.empty items) items = (True, map NextHop items)"
    by (simp add: steer_status_def)
  with fetch rm show ?thesis by (simp add: GetSteerInterface_def bind_state_def)
qed

definition reply_device :: "xml list \<Rightarrow> unit netconf" where
  "reply_device xs = \<lparr>DialSSH = (\<lambda>d. (None, d)), Exec = (\<lambda>d x. (Inr [acl_reply xs], d))\<rparr>"

definition fresh_process :: "unit steering" where
  "fresh_process = \<lparr>aclRules = Map.empty, accessListID = 10, netconfSession = True, device = ()\<rparr>"

lemma fresh_process_fields [simp]:
  "aclRules fresh_process = Map.empty" "accessListID fresh_process = 10" "netconfSession fresh_process"
  by (simp_all add: fresh_process_def)

lemma to_halo0_steerable: "steerable one_wan (to_halo0 p) (IPv4 10 0 0 1)"
  by (auto simp: steerable_def known_protocol_def web_flow_def registered_one_wan split: if_splits)
    (simp add: v4_flow_def)

lemma rules_marshal: "list_all encodable_nexthop rs \<Longrightarrow> \<exists>xs. AclRules_xml rs = Ok xs"
  by (simp add: AclRules_xml_Ok)

lemma filter_marshals: "\<exists>f. getAclRuleFilterXml = Ok f"
  using getAclRuleFilterXml_Ok by (simp add: is_ok_iff)

lemma wan_range: "\<forall>j::nat. range_order (NextHop2Interface one_wan) [''halo0'']"
  by (simp add: one_wan_eq range_order_def)

theorem steered_rules_verify_witness:
  "\<exists>xs st'. AclRules_xml (item_rules [to_halo0 1] [IPv4 10 0 0 1] [10]) = Ok xs \<and>
     GetSteerInterface (reply_device xs) one_wan (\<lambda>_. [''halo0'']) [to_halo0 1] fresh_process =
       (Ok (True, [''halo0'']), st')"
proof -
  obtain xs where xs: "AclRules_xml (item_rules [to_halo0 1] [IPv4 10 0 0 1] [10]) = Ok xs"
    using rules_marshal [OF item_rules_encodable [of "[IPv4 10 0 0 1]"]] by auto
  obtain f where f: "getAclRuleFilterXml = Ok f" using filter_marshals by blast
  have "GetSteerInterface (reply_device xs) one_wan (\<lambda>_. [''halo0'']) [to_halo0 1] fresh_process =
      (Ok (True, map NextHop [to_halo0 1]), fresh_process\<lparr>device := ()\<rparr>)"
    by (rule steered_rules_verify [OF reachable_one_wan wan_range _ _ _ _ xs _ f])
      (simp_all add: to_halo0_steerable reply_device_def)
  with xs show ?thesis by auto
qed

text \<open>
  A flow of another protocol never verifies: its rule's protocol text is read as
  protocol 0, so even on a device that holds exactly the rule \<open>Steer\<close> configured for it,
  \<open>GetSteerInterface\<close> reports false and no interface.
\<close>

theorem other_protocols_never_verify:
  assumes "v4_flow (Rule it)" and "\<not> known_protocol (Rule it)" and "Protocol (Rule it) \<noteq> 0"
    and "nh = [] \<or> is_v4 nh" and "0 \<le> k" and "k < 2 ^ 63"
    and "AclRules_xml [steer_rule (Rule it) nh k] = Ok xs"
    and "netconfSession st" and "getAclRuleFilterXml = Ok f"
    and "Exec nc (device st) f = (Inr [acl_reply xs], d)"
  shows "GetSteerInterface nc reg orders [it] st = (Ok (False, [[]]), st\<lparr>device := d\<rparr>)"
proof -
  let ?fk = "Rule it"
  have fetch: "fetch_rules nc st = (Ok [canonical_rule (steer_rule ?fk nh k)], st\<lparr>device := d\<rparr>)"
    using fetch_rules_reply [OF assms(8-10,7)] readable_steer_rule [OF assms(5,6,4)] by simp
  have v4: "is_v4 (SrcAddr ?fk)" "is_v4 (DstAddr ?fk)" using assms(1) by (simp_all add: v4_flow_def)
  have "v4_flow (read_flow ?fk)"
    using v4 by (simp add: v4_flow_def read_flow_def is_v4_def To4_canonical [unfolded is_v4_def])
  moreover have "flow_id (read_flow ?fk) \<noteq> flow_id ?fk"
    using assms(2,3) by (simp add: flow_id_def read_flow_def protocol_of_String known_protocol_def)
  ultimately have key: "AsKey (read_flow ?fk) \<noteq> AsKey ?fk" using flow_key.key_eq assms(1) by blast
  have other: "foldl (\<lambda>rm u. rm(k' \<mapsto> u)) m us j = m j" if "j \<noteq> k'" for m :: "string \<rightharpoonup> string" and us k' j
    using that by (induction us arbitrary: m) auto
  have "response_map reg orders 0 [canonical_rule (steer_rule ?fk nh k)] Map.empty =
      Ok (foldl (\<lambda>rm u. rm(AsKey (read_flow ?fk) \<mapsto> u)) Map.empty (nexthop_uppers reg (orders 0) (canonical_ip nh)))"
    unfolding canonical_steer_rule using v4
    by (simp add: response_entry_def steer_rule_def rule_flow_def parsed_addr_32 read_flow_def)
  with fetch other key show ?thesis
    by (simp add: GetSteerInterface_def bind_state_def steer_status_def match_item_def)
qed

definition icmp_item :: SteerItem where
  "icmp_item = \<lparr>Rule = (web_flow 0)\<lparr>Protocol := 1\<rparr>, NextHop = ''halo0''\<rparr>"

theorem other_protocols_never_verify_witness:
  "\<exists>xs st'. AclRules_xml [steer_rule (Rule icmp_item) (IPv4 10 0 0 1) 10] = Ok xs \<and>
     GetSteerInterface (reply_device xs) one_wan (\<lambda>_. [''halo0'']) [icmp_item] fresh_process = (Ok (False, [[]]), st')"
proof -
  obtain xs where xs: "AclRules_xml [steer_rule (Rule icmp_item) (IPv4 10 0 0 1) 10] = Ok xs"
    using rules_marshal [of "[steer_rule (Rule icmp_item) (IPv4 10 0 0 1) 10]"]
    by (auto simp: encodable_steer_rule)
  obtain f where f: "getAclRuleFilterXml = Ok f" using filter_marshals by blast
  have "GetSteerInterface (reply_device xs) one_wan (\<lambda>_. [''halo0'']) [icmp_item] fresh_process =
      (Ok (False, [[]]), fresh_process\<lparr>device := ()\<rparr>)"
    by (rule other_protocols_never_verify [OF _ _ _ _ _ _ xs _ f])
      (simp_all add: icmp_item_def web_flow_def v4_flow_def known_protocol_def TCP_def UDP_def reply_device_def)
  with xs show ?thesis by blast
qed

section \<open>Restarting\<close>

text \<open>
  \<^bold>\<open>C17\<close>. A restart recovers the cache: from a device that returns the rules \<open>Steer\<close>
  configured for IPv4 TCP and UDP flows, with no next hop or an IPv4 one, under distinct ids that
  fit 64 bits and are not that of the default rule, \<open>InitNetConf\<close> rebuilds from an empty cache
  exactly the ids and keys of these rules. A rule of another protocol is read with protocol 0,
  so that its flow is not recovered.
\<close>

theorem restart_restores_cache:
  assumes "list_all (\<lambda>it. v4_flow (Rule it) \<and> known_protocol (Rule it)) items"
    and "length nhs = length items" and "\<forall>nh\<in>set nhs. nh = [] \<or> is_v4 nh"
    and "length ids = length items" and "distinct ids" and "\<forall>k\<in>set ids. 0 \<le> k \<and> k < 2 ^ 63"
    and "DefaultRuleId \<notin> set ids" and "AclRules_xml (item_rules items nhs ids) = Ok xs"
    and "netconfSession st" and "aclRules st = Map.empty" and "getAclRuleFilterXml = Ok f"
    and "Exec nc (device st) f = (Inr [acl_reply xs], d)"
  shows "\<exists>st'. InitNetConf nc st = (Ok (), st') \<and> aclRules st' = map_of (zip ids (map item_key items))"
proof -
  have "list_all readable_rule (item_rules items nhs ids)"
    using assms(3,6) by (rule readable_item_rules)
  from fetch_rules_reply [OF assms(9,11,12,8) this]
  have fetch: "fetch_rules nc st = (Ok (map canonical_rule (item_rules items nhs ids)), st\<lparr>device := d\<rparr>)" .
  have "add_entries (zip ids (map item_key items)) Map.empty = map_of (zip ids (map item_key items))"
    using assms(4,5) by (subst add_entries_distinct) simp_all
  with fetch assms(10) show ?thesis
    by (simp add: InitNetConf_def bind_state_def init_rules_steer [OF assms(1,2,4,7)])
qed

theorem restart_restores_cache_witness:
  "\<exists>xs st'. AclRules_xml (item_rules [to_halo0 1, to_halo0 2] [IPv4 10 0 0 1, IPv4 10 0 0 1] [10, 20]) = Ok xs \<and>
     InitNetConf (reply_device xs) fresh_process = (Ok (), st') \<and>
     aclRules st' = [10 \<mapsto> AsKey (web_flow 1), 20 \<mapsto> AsKey (web_flow 2)]"
proof -
  let ?nhs = "[IPv4 10 0 0 1, IPv4 10 0 0 1]"
  obtain xs where xs: "AclRules_xml (item_rules [to_halo0 1, to_halo0 2] ?nhs [10, 20]) = Ok xs"
    using rules_marshal [OF item_rules_encodable [of ?nhs]] by auto
  obtain f where f: "getAclRuleFilterXml = Ok f" using filter_marshals by blast
  have "\<exists>st'. InitNetConf (reply_device xs) fresh_process = (Ok (), st') \<and>
      aclRules st' = map_of (zip [10, 20] (map item_key [to_halo0 1, to_halo0 2]))"
    by (rule restart_restores_cache [OF _ _ _ _ _ _ _ xs _ _ f])
      (simp_all add: known_protocol_def web_flow_def v4_flow_def DefaultRuleId_def reply_device_def)
  with xs show ?thesis by (auto simp: fun_eq_iff)
qed

text \<open>
  But a restart may hand out an id in use: \<open>InitNetConf\<close> moves the next id only
  past rules above the id it started with. With one flow steered under the first id, 10, the
  restarted process caches it and still gives out 10 next, so that steering a second flow
  replaces the first in the cache, and on the device.
\<close>

theorem restart_overwrites_rule:
  assumes "v4_flow (Rule it)" and "known_protocol (Rule it)" and "nh = [] \<or> is_v4 nh"
    and "AclRules_xml [steer_rule (Rule it) nh 10] = Ok xs"
    and "netconfSession st" and "aclRules st = Map.empty" and "accessListID st = 10"
    and "getAclRuleFilterXml = Ok f" and "Exec nc (device st) f = (Inr [acl_reply xs], d)"
    and "InitNetConf nc st = (r, st1)" and "item_key it2 \<noteq> item_key it"
    and "Steer nc reg (\<lambda>_. [10]) [it2] st1 = (Ok u, st2)"
  shows "aclRules st1 10 = Some (item_key it) \<and> aclRules st2 10 = Some (item_key it2) \<and>
    item_key it \<notin> ran (aclRules st2)"
proof -
  have "readable_rule (steer_rule (Rule it) nh 10)" using assms(3) by (intro readable_steer_rule) simp_all
  then have fetch: "fetch_rules nc st = (Ok [canonical_rule (steer_rule (Rule it) nh 10)], st\<lparr>device := d\<rparr>)"
    using fetch_rules_reply [OF assms(5,8,9,4)] by simp
  have "init_rules 10 [canonical_rule (steer_rule (Rule it) nh 10)] (st\<lparr>device := d\<rparr>) =
      (Ok (), st\<lparr>device := d, aclRules := [10 \<mapsto> item_key it], accessListID := 10\<rparr>)"
    using init_rule_steer [OF assms(1,2), of 10 10 nh "st\<lparr>device := d\<rparr>"] assms(6,7)
    by (simp add: bind_state_def DefaultRuleId_def item_key_def)
  with fetch assms(7,10) have st1: "aclRules st1 = [10 \<mapsto> item_key it]" "accessListID st1 = 10"
    by (auto simp: InitNetConf_def bind_state_def)
  moreover have "aclRules st2 = (aclRules st1)(10 \<mapsto> item_key it2)"
    using Steer_one [OF assms(12)] assms(11) st1 by (simp add: find_key_def)
  ultimately show ?thesis using assms(11) by (auto simp: ran_def)
qed

theorem restart_overwrites_rule_witness:
  "\<exists>xs st1 st2. InitNetConf (reply_device xs) fresh_process = (Ok (), st1) \<and>
     Steer (reply_device xs) one_wan (\<lambda>_. [10]) [to_halo0 2] st1 = (Ok (), st2) \<and>
     aclRules st1 10 = Some (AsKey (web_flow 1)) \<and> aclRules st2 10 = Some (AsKey (web_flow 2))"
proof -
  let ?nhs = "[IPv4 10 0 0 1]"
  obtain xs where xs: "AclRules_xml [steer_rule (web_flow 1) (IPv4 10 0 0 1) 10] = Ok xs"
    using rules_marshal [of "[steer_rule (web_flow 1) (IPv4 10 0 0 1) 10]"] by (auto simp: encodable_steer_rule)
  obtain f where f: "getAclRuleFilterXml = Ok f" using filter_marshals by blast
  have fl: "v4_flow (Rule (to_halo0 1))" "known_protocol (Rule (to_halo0 1))"
    by (simp_all add: known_protocol_def web_flow_def v4_flow_def)
  have "fetch_rules (reply_device xs) fresh_process =
      (Ok [canonical_rule (steer_rule (web_flow 1) (IPv4 10 0 0 1) 10)], fresh_process)"
    using fetch_rules_reply [OF _ f _ xs, of fresh_process "reply_device xs" "()"] readable_steer_rule
    by (simp add: reply_device_def)
  then obtain st1 where i: "InitNetConf (reply_device xs) fresh_process = (Ok (), st1)" and o1: "netconfSession st1"
    using init_rule_steer [OF fl, of 10 10 "IPv4 10 0 0 1" fresh_process]
    by (auto simp: InitNetConf_def bind_state_def DefaultRuleId_def)
  have acc: "\<exists>q. fst (Exec (reply_device xs) d x) = Inr q" for d x by (simp add: reply_device_def)
  have nh: "list_all2 (\<lambda>it nh. item_nexthop one_wan (NextHop it) = Ok nh \<and> length nh \<in> {0, 4, 16})
      [to_halo0 2] ?nhs" by simp
  from Steer_accepts [where orders = "\<lambda>_. [10]", OF acc o1 list.distinct(2) nh]
  obtain st2 where s: "Steer (reply_device xs) one_wan (\<lambda>_. [10]) [to_halo0 2] st1 = (Ok (), st2)" by blast
  have "aclRules st1 10 = Some (item_key (to_halo0 1)) \<and> aclRules st2 10 = Some (item_key (to_halo0 2)) \<and>
      item_key (to_halo0 1) \<notin> ran (aclRules st2)"
    by (rule restart_overwrites_rule [OF fl _ _ _ _ _ f _ i _ s])
      (use xs in \<open>simp_all add: reply_device_def web_flow_key\<close>)
  with i s show ?thesis by auto
qed

text \<open>
  A flow named twice in one call gets two ids: the cache is only consulted, not
  updated, while the batch is built, so a new flow that appears twice is configured and cached
  under 10 and under 20. This is why the invariant asks for batches without repetitions.
\<close>

theorem repeated_flow_gets_two_ids:
  assumes "aclRules st = Map.empty" and "accessListID st = 10"
    and "Steer nc reg (\<lambda>_. []) [it, it] st = (Ok u, st')"
  shows "aclRules st' = [10 \<mapsto> item_key it, 20 \<mapsto> item_key it]"
  using Steer_Ok [OF assms(3)] assms(1,2)
  by (auto simp: rule_id_for_def find_key_def Let_def add_entries_def go_int_def)

theorem repeated_flow_gets_two_ids_witness:
  "\<exists>st'. Steer log_device one_wan (\<lambda>_. []) [to_halo0 1, to_halo0 1] steer_start = (Ok (), st') \<and>
     aclRules st' 10 = aclRules st' 20"
proof -
  have nh: "list_all2 (\<lambda>it nh. item_nexthop one_wan (NextHop it) = Ok nh \<and> length nh \<in> {0, 4, 16})
      [to_halo0 1, to_halo0 1] [IPv4 10 0 0 1, IPv4 10 0 0 1]" by simp
  from Steer_accepts [where orders = "\<lambda>_. []", OF log_device_accepts steer_start_fields(3) list.distinct(2) nh]
  obtain st' where s: "Steer log_device one_wan (\<lambda>_. []) [to_halo0 1, to_halo0 1] steer_start = (Ok (), st')"
    by blast
  with repeated_flow_gets_two_ids [OF _ _ s] show ?thesis by simp
qed

end
