(* ===== verification/Wire.thy ===== *)
theory Wire
  imports GoStrings
begin

text \<open>
  Byte buffers: big-endian integers (\<open>encoding/binary\<close>), writing at an offset of a slice,
  \<open>bytes.Buffer.Next\<close>, and one \<open>Read\<close> of a socket. The interface of a fixed-width field,
  \<open>byte_codec\<close>, gives what a reader finds at an offset after writes; it is interpreted for the
  two integer widths of the TWAMP messages.
\<close>

type_synonym byte = u8

section \<open>Big-endian integers\<close>

definition PutUint16 :: "u16 \<Rightarrow> byte list" where
  "PutUint16 v = [ucast (drop_bit 8 v), ucast v]"

definition PutUint32 :: "u32 \<Rightarrow> byte list" where
  "PutUint32 v = [ucast (drop_bit 24 v), ucast (drop_bit 16 v), ucast (drop_bit 8 v), ucast v]"

fun Uint16 :: "byte list \<Rightarrow> u16 outcome" where
  "Uint16 (a # b # bs) = Ok (ucast a * 256 + ucast b)"
| "Uint16 bs = Panic ''index out of range''"

fun Uint32 :: "byte list \<Rightarrow> u32 outcome" where
  "Uint32 (a # b # c # d # bs) = Ok (((ucast a * 256 + ucast b) * 256 + ucast c) * 256 + ucast d)"
| "Uint32 bs = Panic ''index out of range''"

text \<open>Reading back what was put, as numbers: the bytes are the digits to the base 256.\<close>

lemma unat_byte: "unat (ucast (w :: 'a::len word) :: byte) = unat w mod 256"
  by (simp add: unsigned_ucast_eq take_bit_eq_mod)

lemma unat_drop: "unat (drop_bit n (w :: 'a::len word)) = unat w div 2 ^ n"
proof -
  have "unat (drop_bit n w) = drop_bit n (take_bit LENGTH('a) (unat w))"
    by (rule unsigned_drop_bit_eq)
  then show ?thesis by (simp add: drop_bit_eq_div take_bit_nat_eq_self)
qed

lemma byte_to_word: "(ucast (b :: byte) :: 'a::len word) = word_of_nat (unat b)"
  by simp

lemma Uint16_Put: "Uint16 (PutUint16 v @ bs) = Ok v"
proof -
  have "unat v < 256 * 256" using unsigned_less [of v, where 'a = nat] by simp
  then have d: "unat v div 256 < 256" by (simp add: less_mult_imp_div_less)
  let ?n = "unat v div 256 mod 256 * 256 + unat v mod 256"
  have n: "?n = unat v" using d by simp
  have "ucast (ucast (drop_bit 8 v) :: byte) * 256 + ucast (ucast v :: byte) = (word_of_nat ?n :: u16)"
    by (simp only: byte_to_word unat_byte unat_drop of_nat_add of_nat_mult of_nat_numeral power_numeral_even
        power_numeral_odd) simp
  then have "ucast (ucast (drop_bit 8 v) :: byte) * 256 + ucast (ucast v :: byte) = v"
    unfolding n by simp
  then show ?thesis by (simp only: PutUint16_def append.simps Uint16.simps)
qed

lemma Uint32_Put: "Uint32 (PutUint32 v @ bs) = Ok v"
proof -
  let ?q = "\<lambda>k. unat v div 256 ^ k"
  have q: "?q 3 = ?q 2 div 256" "?q 2 = ?q 1 div 256" "?q 1 = unat v div 256"
    by (simp_all add: div_mult2_eq [symmetric])
  have "unat v < 256 * (256 * (256 * 256))" using unsigned_less [of v, where 'a = nat] by simp
  then have top: "?q 3 < 256" by (simp add: less_mult_imp_div_less)
  let ?n = "((?q 3 mod 256 * 256 + ?q 2 mod 256) * 256 + ?q 1 mod 256) * 256 + unat v mod 256"
  have "?q 3 mod 256 * 256 + ?q 2 mod 256 = ?q 2" using top q(1) by simp
  then have n: "?n = unat v" using q by simp
  have "((ucast (ucast (drop_bit 24 v) :: byte) * 256 + ucast (ucast (drop_bit 16 v) :: byte)) * 256 +
      ucast (ucast (drop_bit 8 v) :: byte)) * 256 + ucast (ucast v :: byte) = (word_of_nat ?n :: u32)"
    by (simp only: byte_to_word unat_byte unat_drop of_nat_add of_nat_mult of_nat_numeral power_numeral_even
        power_numeral_odd) simp
  then have "((ucast (ucast (drop_bit 24 v) :: byte) * 256 + ucast (ucast (drop_bit 16 v) :: byte)) * 256 +
      ucast (ucast (drop_bit 8 v) :: byte)) * 256 + ucast (ucast v :: byte) = v"
    unfolding n by simp
  then show ?thesis by (simp only: PutUint32_def append.simps Uint32.simps)
qed


lemma length_Put [simp]: "length (PutUint16 v) = 2" "length (PutUint32 w) = 4"
  by (simp_all add: PutUint16_def PutUint32_def)

section \<open>Writing at an offset\<close>

text \<open>\<open>binary.BigEndian.PutUintN(b[off:], v)\<close> and \<open>b[off] = v\<close>: out of range is a panic.\<close>

definition put_at :: "nat \<Rightarrow> byte list \<Rightarrow> byte list \<Rightarrow> byte list outcome" where
  "put_at off bs b =
     (if length b < off then Panic ''slice bounds out of range''
      else if length b < off + length bs then Panic ''index out of range''
      else Ok (take off b @ bs @ drop (off + length bs) b))"

fun put_all :: "(nat \<times> byte list) list \<Rightarrow> byte list \<Rightarrow> byte list outcome" where
  "put_all [] b = Ok b"
| "put_all ((off, bs) # ws) b = bind_outcome (put_at off bs b) (put_all ws)"

definition fits :: "nat \<Rightarrow> nat \<times> byte list \<Rightarrow> bool" where
  "fits n w \<longleftrightarrow> fst w + length (snd w) \<le> n"

definition apart :: "nat \<times> byte list \<Rightarrow> nat \<times> byte list \<Rightarrow> bool" where
  "apart v w \<longleftrightarrow> fst v + length (snd v) \<le> fst w \<or> fst w + length (snd w) \<le> fst v"

lemma put_at_Ok: "fits (length b) (off, bs) \<Longrightarrow> \<exists>b'. put_at off bs b = Ok b' \<and> length b' = length b"
  by (simp add: put_at_def fits_def)

lemma put_at_here: "put_at off bs b = Ok b' \<Longrightarrow> take (length bs) (drop off b') = bs"
  by (auto simp: put_at_def split: if_splits)

lemma put_at_apart:
  assumes "put_at off bs b = Ok b'" and "apart (off, bs) (i, cs)"
  shows "take (length cs) (drop i b') = take (length cs) (drop i b)"
proof (rule nth_equalityI)
  from assms(1) have b': "b' = take off b @ bs @ drop (off + length bs) b" and le: "off + length bs \<le> length b"
    by (auto simp: put_at_def split: if_splits)
  then have len: "length b' = length b" by simp
  then show "length (take (length cs) (drop i b')) = length (take (length cs) (drop i b))" by simp
  fix j assume "j < length (take (length cs) (drop i b'))"
  then have "j < length cs" "i + j < length b" using len by auto
  moreover have "b' ! (i + j) = b ! (i + j)"
    using assms(2) le \<open>j < length cs\<close> \<open>i + j < length b\<close>
    by (auto simp: b' nth_append apart_def)
  ultimately show "take (length cs) (drop i b') ! j = take (length cs) (drop i b) ! j"
    using len by simp
qed

text \<open>Writes that fit and keep apart all succeed, and each is found again.\<close>

lemma put_all_Ok:
  "list_all (fits (length b)) ws \<Longrightarrow> \<exists>b'. put_all ws b = Ok b' \<and> length b' = length b"
proof (induction ws arbitrary: b)
  case (Cons w ws)
  obtain off bs where w: "w = (off, bs)" by (cases w)
  with Cons.prems obtain b1 where "put_at off bs b = Ok b1" "length b1 = length b"
    using put_at_Ok by force
  with Cons.IH [of b1] Cons.prems w show ?case by auto
qed simp

lemma put_all_other:
  "put_all ws b = Ok b' \<Longrightarrow> list_all (\<lambda>w. apart w (i, cs)) ws \<Longrightarrow>
   take (length cs) (drop i b') = take (length cs) (drop i b)"
proof (induction ws arbitrary: b)
  case (Cons w ws)
  obtain off bs where w: "w = (off, bs)" by (cases w)
  with Cons.prems(1) obtain b1 where "put_at off bs b = Ok b1" "put_all ws b1 = Ok b'"
    by (auto simp: bind_outcome_Ok_iff)
  with Cons.IH [of b1] Cons.prems(2) put_at_apart [of off bs b b1 i cs] w show ?case by auto
qed simp

fun pairwise_apart :: "(nat \<times> byte list) list \<Rightarrow> bool" where
  "pairwise_apart [] = True"
| "pairwise_apart (w # ws) = (list_all (\<lambda>v. apart v w) ws \<and> pairwise_apart ws)"

lemma put_all_here:
  "put_all ws b = Ok b' \<Longrightarrow> pairwise_apart ws \<Longrightarrow> (off, bs) \<in> set ws \<Longrightarrow>
   take (length bs) (drop off b') = bs"
proof (induction ws arbitrary: b)
  case (Cons w ws)
  obtain o1 bs1 where w: "w = (o1, bs1)" by (cases w)
  with Cons.prems(1) obtain b1 where one: "put_at o1 bs1 b = Ok b1" and rest: "put_all ws b1 = Ok b'"
    by (auto simp: bind_outcome_Ok_iff)
  show ?case
  proof (cases "(off, bs) \<in> set ws")
    case True
    with Cons.IH [OF rest] Cons.prems(2) show ?thesis by simp
  next
    case False
    with Cons.prems(3) w have [simp]: "off = o1" "bs = bs1" by auto
    have "take (length bs) (drop off b') = take (length bs) (drop off b1)"
      using put_all_other [OF rest, of off bs] Cons.prems(2) w by simp
    with put_at_here [OF one] show ?thesis by simp
  qed
qed simp

section \<open>The interface of a field\<close>

text \<open>
  A field is put as a fixed number of bytes and read from the front of a buffer; reading what
  was put gives the value, and a buffer that is too short is an error of the reader.
\<close>

locale byte_codec =
  fixes put :: "'a \<Rightarrow> byte list" and get :: "byte list \<Rightarrow> 'a outcome" and width :: nat
  assumes length_put: "length (put v) = width"
    and get_put: "get (put v @ bs) = Ok v"
begin

lemma get_prefix: "take width b = put v \<Longrightarrow> get b = Ok v"
  by (metis append_take_drop_id get_put)

text \<open>A field written among others into a buffer is read back at its offset.\<close>

lemma get_written:
  assumes "put_all ws b = Ok b'" and "pairwise_apart ws" and "(off, put v) \<in> set ws"
  shows "get (drop off b') = Ok v"
  using put_all_here [OF assms] by (intro get_prefix) (simp add: length_put)

lemma put_inj: "put v = put w \<Longrightarrow> v = w"
  using get_put [of v "[]"] get_put [of w "[]"] by simp

end

interpretation u16_be: byte_codec PutUint16 Uint16 2
  by unfold_locales (simp_all add: Uint16_Put)

interpretation u32_be: byte_codec PutUint32 Uint32 4
  by unfold_locales (simp_all add: Uint32_Put)

section \<open>Buffers and sockets\<close>

text \<open>\<open>bytes.Buffer.Next\<close> takes what is there, at most \<open>n\<close> bytes.\<close>

definition Next :: "nat \<Rightarrow> byte list \<Rightarrow> byte list \<times> byte list" where
  "Next n buf = (take n buf, drop n buf)"

text \<open>\<open>buf.Next(1)[0]\<close>\<close>

fun first_byte :: "byte list \<Rightarrow> byte outcome" where
  "first_byte (b # bs) = Ok b"
| "first_byte [] = Panic ''index out of range''"

text \<open>
  What the next reads of a socket will return: the bytes of one arrival and the error that
  comes with them. A stream keeps what one \<open>Read\<close> did not take, a datagram socket drops it.
  With nothing to arrive a \<open>Read\<close> without a deadline blocks.
\<close>

type_synonym arrivals = "(byte list \<times> string option) list"

fun stream_Read :: "nat \<Rightarrow> arrivals \<Rightarrow> ((byte list \<times> string option) \<times> arrivals) option" where
  "stream_Read n [] = None"
| "stream_Read n ((bs, err) # rest) =
     (if length bs \<le> n then Some ((bs, err), rest)
      else Some ((take n bs, None), (drop n bs, err) # rest))"

fun datagram_Read :: "nat \<Rightarrow> arrivals \<Rightarrow> ((byte list \<times> string option) \<times> arrivals) option" where
  "datagram_Read n [] = None"
| "datagram_Read n ((bs, err) # rest) = Some ((take n bs, err), rest)"

end
