(* ===== verification/TwampTime.thy ===== *)
theory TwampTime
  imports Prelude
begin

text \<open>
  TWAMP timestamps (\<open>pkg/twamp/timestamp.go\<close>): the code moves a time by 70 calendar years
  with \<open>time.Time.AddDate\<close> and sends its seconds and nanoseconds. A time is its nanoseconds
  since 1970; the local zone is a fixed offset in seconds. The calendar is the one of Go's
  \<open>time\<close> package, with the same cycle arithmetic. The main facts: the way there and back is
  the identity except on 29 February, where it gains a day.
\<close>

section \<open>The calendar\<close>

definition is_leap :: "int \<Rightarrow> bool" where
  "is_leap year \<longleftrightarrow> year mod 4 = 0 \<and> (year mod 100 \<noteq> 0 \<or> year mod 400 = 0)"

text \<open>Days from 1 January of year 1 to 1 January of a year, by cycles of 400, 100 and 4 years.\<close>

definition days_before_year :: "int \<Rightarrow> int" where
  "days_before_year year =
     (let y = year - 1;
          n400 = y div 400; y1 = y - 400 * n400;
          n100 = y1 div 100; y2 = y1 - 100 * n100;
          n4 = y2 div 4; y3 = y2 - 4 * n4
      in 146097 * n400 + 36524 * n100 + 1461 * n4 + 365 * y3)"

text \<open>The year of a day and the day of that year; the last day of a long cycle is cut back.\<close>

definition year_yday :: "int \<Rightarrow> int \<times> int" where
  "year_yday d =
     (let n400 = d div 146097; d1 = d - 146097 * n400;
          c = d1 div 36524; n100 = c - c div 4; d2 = d1 - 36524 * n100;
          n4 = d2 div 1461; d3 = d2 - 1461 * n4;
          e = d3 div 365; n1 = e - e div 4
      in (400 * n400 + 100 * n100 + 4 * n4 + n1 + 1, d3 - 365 * n1))"

definition daysBefore :: "int list" where
  "daysBefore = [0, 31, 59, 90, 120, 151, 181, 212, 243, 273, 304, 334, 365]"

text \<open>Month (from 1) and day of a day of the year; the leap day is skipped over first.\<close>

definition month_day :: "bool \<Rightarrow> int \<Rightarrow> int \<times> int" where
  "month_day leap yday =
     (if leap \<and> yday = 59 then (2, 29)
      else (let day = (if leap \<and> 59 < yday then yday - 1 else yday);
                m = nat (day div 31);
                month = (if daysBefore ! (m + 1) \<le> day then m + 1 else m)
            in (int month + 1, day - daysBefore ! month + 1)))"

definition yday_of :: "bool \<Rightarrow> int \<Rightarrow> int \<Rightarrow> int" where
  "yday_of leap month day =
     daysBefore ! nat (month - 1) + (if leap \<and> 3 \<le> month then 1 else 0) + day - 1"

definition year_length :: "int \<Rightarrow> int" where
  "year_length year = (if is_leap year then 366 else 365)"

lemma div_cycle: "0 \<le> z \<Longrightarrow> z < k \<Longrightarrow> (k * q + z) div k = (q :: int)"
  by (simp add: div_pos_pos_trivial)

lemma mod_top: "1 \<le> z \<Longrightarrow> z \<le> k \<Longrightarrow> (k * q + z) mod k = 0 \<longleftrightarrow> z = (k :: int)"
  by (cases "z = k") simp_all

lemma small_digits:
  fixes r :: int
  shows "0 \<le> r \<Longrightarrow> r < 400 \<Longrightarrow> 0 \<le> r div 100 \<and> r div 100 \<le> 3"
    and "0 \<le> r \<Longrightarrow> r < 100 \<Longrightarrow> 0 \<le> r div 4 \<and> r div 4 \<le> 24"
  by presburger+

lemma year_digits:
  obtains a b c e :: int where "year - 1 = 400 * a + 100 * b + 4 * c + e"
    "0 \<le> b" "b \<le> 3" "0 \<le> c" "c \<le> 24" "0 \<le> e" "e \<le> 3"
proof -
  let ?a = "(year - 1) div 400" and ?r = "(year - 1) mod 400"
  let ?b = "?r div 100" and ?s = "?r mod 100"
  have "year - 1 = 400 * ?a + 100 * ?b + 4 * (?s div 4) + ?s mod 4" by simp
  moreover have "0 \<le> ?b" "?b \<le> 3" "0 \<le> ?s div 4" "?s div 4 \<le> 24" "0 \<le> ?s mod 4" "?s mod 4 \<le> 3"
    using small_digits(1) [of ?r] small_digits(2) [of ?s] pos_mod_bound [of 4 ?s] by simp_all
  ultimately show thesis by (rule that)
qed

lemma leap_digits:
  assumes "year - 1 = 400 * a + 100 * b + 4 * c + e"
    and "0 \<le> b" "b \<le> 3" "0 \<le> c" "c \<le> 24" "0 \<le> e" "e \<le> (3 :: int)"
  shows "is_leap year \<longleftrightarrow> e = 3 \<and> (c \<noteq> 24 \<or> b = 3)"
proof -
  have y: "year = 400 * a + 100 * b + 4 * c + e + 1" using assms(1) by simp
  have "year mod 4 = 0 \<longleftrightarrow> e = 3"
    using mod_top [of "e + 1" 4 "100 * a + 25 * b + c"] assms y by (simp add: algebra_simps)
  moreover have "year mod 100 = 0 \<longleftrightarrow> 4 * c + e + 1 = 100"
    using mod_top [of "4 * c + e + 1" 100 "4 * a + b"] assms y by (simp add: algebra_simps)
  moreover have "year mod 400 = 0 \<longleftrightarrow> 100 * b + 4 * c + e + 1 = 400"
    using mod_top [of "100 * b + 4 * c + e + 1" 400 a] assms y by (simp add: algebra_simps)
  moreover have "4 * c + e + 1 = 100 \<longleftrightarrow> c = 24 \<and> e = 3" using assms by linarith
  moreover have "100 * b + 4 * c + e + 1 = 400 \<longleftrightarrow> b = 3 \<and> c = 24 \<and> e = 3" using assms by linarith
  ultimately show ?thesis by (auto simp: is_leap_def)
qed

lemma days_digits:
  assumes "year - 1 = 400 * a + 100 * b + 4 * c + e"
    and "0 \<le> b" "b \<le> 3" "0 \<le> c" "c \<le> 24" "0 \<le> e" "e \<le> (3 :: int)"
  shows "days_before_year year = 146097 * a + 36524 * b + 1461 * c + 365 * e"
proof -
  have 1: "(year - 1) div 400 = a"
    using div_cycle [of "100 * b + 4 * c + e" 400 a] assms by (simp add: algebra_simps)
  have 2: "(100 * b + (4 * c + e)) div 100 = b" by (rule div_cycle) (use assms in simp_all)
  have 3: "(4 * c + e) div 4 = c" by (rule div_cycle) (use assms in simp_all)
  have r1: "year - 1 - 400 * a = 100 * b + (4 * c + e)" using assms(1) by simp
  have r2: "100 * b + (4 * c + e) - 100 * b = 4 * c + e" by simp
  show ?thesis by (simp only: days_before_year_def Let_def 1 r1 2 r2 3) simp
qed

lemma year_yday_digits:
  assumes "0 \<le> b" "b \<le> 3" "0 \<le> c" "c \<le> 24" "0 \<le> e" "e \<le> (3 :: int)" "0 \<le> r"
    and "r < 365 \<or> r = 365 \<and> e = 3 \<and> (c \<noteq> 24 \<or> b = 3)"
  shows "year_yday (146097 * a + 36524 * b + 1461 * c + 365 * e + r) =
    (400 * a + 100 * b + 4 * c + e + 1, r)"
proof -
  let ?Z = "365 * e + r" and ?Y = "1461 * c + 365 * e + r" and ?X = "36524 * b + 1461 * c + 365 * e + r"
  have Z: "0 \<le> ?Z" "?Z < 1461" using assms by linarith+
  have X: "0 \<le> ?X" "?X < 146097" using assms by linarith+
  have Y: "0 \<le> ?Y" "?Y < 36524 \<or> ?Y = 36524 \<and> b = 3" using assms by linarith+
  have 1: "(146097 * a + ?X) div 146097 = a" using X by (rule div_cycle)
  have 2: "?X div 36524 - ?X div 36524 div 4 = b"
  proof (cases "?Y < 36524")
    case True
    then have "?X div 36524 = b" using div_cycle [of ?Y 36524 b] Y(1) by (simp add: add.assoc)
    then show ?thesis using assms(1,2) by (simp add: div_pos_pos_trivial)
  next
    case False
    then have "?X = 36524 * 4" "b = 3" using Y(2) by linarith+
    then show ?thesis by simp
  qed
  have 3: "?Y div 1461 = c" using div_cycle [OF Z, of c] by (simp add: add.assoc)
  have 4: "?Z div 365 - ?Z div 365 div 4 = e"
  proof (cases "r < 365")
    case True
    then have "?Z div 365 = e" using assms(7) by (simp add: div_cycle)
    then show ?thesis using assms(5,6) by (simp add: div_pos_pos_trivial)
  next
    case False
    then have "?Z = 365 * 4" "e = 3" using assms(8) by linarith+
    then show ?thesis by simp
  qed
  have r1: "146097 * a + ?X - 146097 * a = ?X" "?X - 36524 * b = ?Y" "?Y - 1461 * c = ?Z" "?Z - 365 * e = r"
    by simp_all
  have "146097 * a + 36524 * b + 1461 * c + 365 * e + r = 146097 * a + ?X" by simp
  then show ?thesis by (simp only: year_yday_def Let_def 1 r1 2 3 4)
qed

text \<open>Going to the day count and back.\<close>

lemma year_yday_days:
  assumes "0 \<le> r" and "r < year_length year"
  shows "year_yday (days_before_year year + r) = (year, r)"
proof -
  obtain a b c e where y: "year - 1 = 400 * a + 100 * b + 4 * c + e"
    "0 \<le> b" "b \<le> 3" "0 \<le> c" "c \<le> 24" "0 \<le> e" "e \<le> 3" by (rule year_digits)
  have "r < 365 \<or> r = 365 \<and> e = 3 \<and> (c \<noteq> 24 \<or> b = 3)"
    using assms(2) leap_digits [OF y] by (auto simp: year_length_def split: if_splits)
  from year_yday_digits [OF y(2-7) assms(1) this] days_digits [OF y] y(1) show ?thesis by simp
qed


text \<open>The month and day of every day of a common year, and through them of a leap year.\<close>

lemma month_day_common_all:
  "list_all (\<lambda>d. case month_day False d of (m, dd) \<Rightarrow> yday_of False m dd = d \<and> (3 \<le> m \<longleftrightarrow> 59 \<le> d)) [0..364]"
  by code_simp

lemma month_day_common:
  assumes "0 \<le> d" and "d < 365" and "month_day False d = (m, dd)"
  shows "yday_of False m dd = d" and "3 \<le> m \<longleftrightarrow> 59 \<le> d"
proof -
  have "d \<in> set [0..364]" using assms(1,2) by simp
  with month_day_common_all assms(3) show "yday_of False m dd = d" "3 \<le> m \<longleftrightarrow> 59 \<le> d"
    unfolding list_all_iff by fastforce+
qed

definition common_day :: "bool \<Rightarrow> int \<Rightarrow> int" where
  "common_day leap yday = (if leap \<and> 59 < yday then yday - 1 else yday)"

lemma month_day_via_common:
  "\<not> (leap \<and> yday = 59) \<Longrightarrow> month_day leap yday = month_day False (common_day leap yday)"
  by (auto simp: month_day_def common_day_def)

lemma yday_of_leap: "yday_of leap m dd = yday_of False m dd + (if leap \<and> 3 \<le> m then 1 else 0)"
  by (simp add: yday_of_def)

definition leap_day :: "int \<Rightarrow> int \<Rightarrow> bool" where
  "leap_day year yday \<longleftrightarrow> is_leap year \<and> yday = 59"

text \<open>Moving a date to another year and reading its month and day there.\<close>

lemma month_day_move:
  assumes "0 \<le> yd" and "yd < (if l then 366 else 365)" and "month_day l yd = (m, dd)"
    and "\<not> (l \<and> yd = 59)"
  shows "yday_of l m dd = yd" and "0 \<le> yday_of l' m dd" and "yday_of l' m dd < (if l' then 366 else 365)"
    and "month_day l' (yday_of l' m dd) = (m, dd)" and "\<not> (l' \<and> yday_of l' m dd = 59)"
proof -
  let ?d = "common_day l yd"
  have md: "month_day False ?d = (m, dd)" using month_day_via_common [OF assms(4)] assms(3) by simp
  have d: "0 \<le> ?d" "?d < 365" using assms(1,2,4) by (auto simp: common_day_def split: if_splits)
  note c = month_day_common [OF d md]
  have yd': "yday_of k m dd = ?d + (if k \<and> 59 \<le> ?d then 1 else 0)" for k
    using c yday_of_leap [of k m dd] by simp
  show "yday_of l m dd = yd" using assms(4) yd' [of l] by (auto simp: common_day_def split: if_splits)
  show "0 \<le> yday_of l' m dd" "yday_of l' m dd < (if l' then 366 else 365)" using yd' [of l'] d by auto
  show no: "\<not> (l' \<and> yday_of l' m dd = 59)" using yd' [of l'] by auto
  have "common_day l' (yday_of l' m dd) = ?d" using yd' [of l'] by (auto simp: common_day_def)
  with month_day_via_common [OF no] md show "month_day l' (yday_of l' m dd) = (m, dd)" by simp
qed

section \<open>Times\<close>

text \<open>A time in nanoseconds since 1970, in a zone \<open>zone\<close> seconds east.\<close>

definition unix_days :: int where
  "unix_days = 719162"

definition date_of :: "int \<Rightarrow> int \<Rightarrow> int \<times> int" where
  "date_of zone t = year_yday ((t div 1000000000 + zone) div 86400 + unix_days)"

definition AddDate :: "int \<Rightarrow> int \<Rightarrow> int \<Rightarrow> int" where
  "AddDate zone years t =
     (let local = t div 1000000000 + zone;
          (year, yday) = date_of zone t;
          (month, day) = month_day (is_leap year) yday;
          days = days_before_year (year + years) + yday_of (is_leap (year + years)) month day
      in ((days - unix_days) * 86400 + local mod 86400 - zone) * 1000000000 + t mod 1000000000)"

record TwampTimestamp =
  Integer :: u32
  Fraction :: u32

definition NewTwampTimestamp :: "int \<Rightarrow> int \<Rightarrow> TwampTimestamp" where
  "NewTwampTimestamp zone t =
     (let t' = AddDate zone 70 t
      in \<lparr>Integer = word_of_int (t' div 1000000000), Fraction = word_of_int (t' mod 1000000000)\<rparr>)"

definition NewTimestamp :: "int \<Rightarrow> u32 \<Rightarrow> u32 \<Rightarrow> int" where
  "NewTimestamp zone sec nsec = AddDate zone (- 70) (uint sec * 1000000000 + uint nsec)"

definition GetTime :: "int \<Rightarrow> TwampTimestamp \<Rightarrow> int" where
  "GetTime zone ts = AddDate zone (- 70) (uint (Integer ts) * 1000000000 + uint (Fraction ts))"

section \<open>There and back\<close>

text \<open>The parts of a shifted time.\<close>

lemma AddDate_parts:
  assumes "date_of zone t = (year, yday)" and "month_day (is_leap year) yday = (m, dd)"
    and "D = days_before_year (year + years) + yday_of (is_leap (year + years)) m dd"
  shows "AddDate zone years t mod 1000000000 = t mod 1000000000"
    and "AddDate zone years t div 1000000000 + zone = (D - unix_days) * 86400 + (t div 1000000000 + zone) mod 86400"
proof -
  define A where "A = (D - unix_days) * 86400 + (t div 1000000000 + zone) mod 86400 - zone"
  have "AddDate zone years t = A * 1000000000 + t mod 1000000000"
    unfolding A_def using assms by (simp add: AddDate_def Let_def)
  then have "AddDate zone years t mod 1000000000 = t mod 1000000000" "AddDate zone years t div 1000000000 = A"
    by simp_all
  then show "AddDate zone years t mod 1000000000 = t mod 1000000000"
    "AddDate zone years t div 1000000000 + zone = (D - unix_days) * 86400 + (t div 1000000000 + zone) mod 86400"
    by (simp_all add: A_def)
qed

text \<open>The quotient of a cycle, cut back on its last day.\<close>

lemma cut_back:
  assumes "0 \<le> d" and "d \<le> 4 * k" and "(0 :: int) < k"
  shows "0 \<le> d div k - d div k div 4 \<and> d div k - d div k div 4 \<le> 3 \<and>
    0 \<le> d - k * (d div k - d div k div 4) \<and>
    (d - k * (d div k - d div k div 4) < k \<or> d - k * (d div k - d div k div 4) = k \<and> d div k - d div k div 4 = 3)"
proof -
  define x where "x = d div k"
  have eq: "d = x * k + d mod k" by (simp add: x_def)
  have x: "x * k \<le> d" "d < x * k + k"
    using pos_mod_bound [OF assms(3), of d] pos_mod_sign [OF assms(3), of d] eq by linarith+
  have x0: "0 \<le> x" using assms(1,3) by (simp add: x_def pos_imp_zdiv_nonneg_iff)
  have "x * k < 5 * k" using x(1) assms(2,3) by linarith
  then have "x < 5" using assms(3) by simp
  then consider "x \<le> 3" | "x = 4" using x0 by linarith
  then show ?thesis
  proof cases
    case 1
    then have "x div 4 = 0" using x0 by simp
    with 1 x x0 show ?thesis by (simp add: x_def [symmetric] mult.commute)
  next
    case 2
    then have "d = 4 * k" using x(1) assms(2) by simp
    with 2 assms(3) show ?thesis by (simp add: x_def [symmetric])
  qed
qed

lemma year_yday_bounds:
  assumes "year_yday d = (year, r)"
  shows "0 \<le> r \<and> r < year_length year \<and> d = days_before_year year + r"
proof -
  define n d1 where "n = d div 146097" and "d1 = d mod 146097"
  have d: "d = 146097 * n + d1" "0 \<le> d1" "d1 < 146097" by (simp_all add: n_def d1_def)
  define b d2 where "b = d1 div 36524 - d1 div 36524 div 4" and "d2 = d1 - 36524 * b"
  have b: "0 \<le> b" "b \<le> 3" "0 \<le> d2" "d2 < 36524 \<or> d2 = 36524 \<and> b = 3"
    using cut_back [of d1 36524] d(2,3) unfolding b_def d2_def by auto
  define c d3 where "c = d2 div 1461" and "d3 = d2 mod 1461"
  have c: "0 \<le> c" "c \<le> 24" "d2 = 1461 * c + d3" "0 \<le> d3" "d3 < 1461"
    "d2 = 36524 \<longrightarrow> c = 24 \<and> d3 = 1460"
  proof -
    show eq: "d2 = 1461 * c + d3" and d3: "0 \<le> d3" "d3 < 1461" by (simp_all add: c_def d3_def)
    show c0: "0 \<le> c" using b(3) by (simp add: c_def pos_imp_zdiv_nonneg_iff)
    show "c \<le> 24" using eq d3 b(4) by linarith
    show "d2 = 36524 \<longrightarrow> c = 24 \<and> d3 = 1460" by (simp add: c_def d3_def)
  qed
  define e q where "e = d3 div 365 - d3 div 365 div 4" and "q = d3 - 365 * e"
  have e: "0 \<le> e" "e \<le> 3" "0 \<le> q" "q < 365 \<or> q = 365 \<and> e = 3"
    using cut_back [of d3 365] c(4,5) unfolding e_def q_def by auto
  have last: "q < 365 \<or> q = 365 \<and> e = 3 \<and> (c \<noteq> 24 \<or> b = 3)"
  proof (cases "q < 365")
    case False
    with e(4) have qe: "q = 365" "e = 3" by simp_all
    then have "d3 = 1460" by (simp add: q_def)
    moreover have "c \<noteq> 24 \<or> d2 = 36524" using c(3) \<open>d3 = 1460\<close> by simp
    ultimately have "c \<noteq> 24 \<or> b = 3" using b(4) by auto
    with qe show ?thesis by simp
  qed simp
  have d': "d = 146097 * n + 36524 * b + 1461 * c + 365 * e + q"
    using d(1) c(3) by (simp add: d2_def q_def)
  let ?y = "400 * n + 100 * b + 4 * c + e + 1"
  have "year_yday d = (?y, q)"
    unfolding d' by (rule year_yday_digits [OF b(1,2) c(1,2) e(1,2,3) last])
  with assms have y: "year = ?y" "r = q" by simp_all
  have dig: "year - 1 = 400 * n + 100 * b + 4 * c + e" using y by simp
  note lp = leap_digits [OF dig b(1,2) c(1,2) e(1,2)]
  have "q < year_length year" using last lp by (cases "is_leap year") (auto simp: year_length_def)
  moreover have "d = days_before_year year + q"
    using days_digits [OF dig b(1,2) c(1,2) e(1,2)] d' by linarith
  ultimately show ?thesis using e(3) y(2) by simp
qed

lemma AddDate_back:
  assumes "date_of zone t = (year, yday)" and "\<not> leap_day year yday"
  shows "AddDate zone (- k) (AddDate zone k t) = t"
proof -
  obtain m dd where md: "month_day (is_leap year) yday = (m, dd)" by fastforce
  let ?D = "days_before_year (year + k) + yday_of (is_leap (year + k)) m dd"
  let ?local = "t div 1000000000 + zone" and ?t1 = "AddDate zone k t"
  have dt: "year_yday (?local div 86400 + unix_days) = (year, yday)" using assms(1) by (simp add: date_of_def)
  note bd = year_yday_bounds [OF dt]
  have yd: "0 \<le> yday" "yday < (if is_leap year then 366 else 365)" "\<not> (is_leap year \<and> yday = 59)"
    using bd assms(2) by (auto simp: year_length_def leap_day_def split: if_splits)
  note mv = month_day_move(1) [OF yd(1,2) md yd(3)]
    month_day_move(2-4) [OF yd(1,2) md yd(3), of "is_leap (year + k)"]
  note p = AddDate_parts [OF assms(1) md refl, of k]
  have "(86400 * (?D - unix_days) + ?local mod 86400) div 86400 = ?D - unix_days"
    by (rule div_cycle) simp_all
  then have "(?t1 div 1000000000 + zone) div 86400 + unix_days = ?D"
    unfolding p(2) by (simp only: mult.commute)
  moreover have lm: "(?t1 div 1000000000 + zone) mod 86400 = ?local mod 86400"
    unfolding p(2) by (simp only: mod_mult_self3 mod_mod_trivial)
  moreover have "year_yday ?D = (year + k, yday_of (is_leap (year + k)) m dd)"
    by (rule year_yday_days) (use mv in \<open>simp_all add: year_length_def\<close>)
  ultimately have dt1: "date_of zone ?t1 = (year + k, yday_of (is_leap (year + k)) m dd)"
    by (simp add: date_of_def)
  note q = AddDate_parts [OF dt1 mv(4) refl, of "- k"]
  have "AddDate zone (- k) ?t1 div 1000000000 + zone =
      (days_before_year year + yday - unix_days) * 86400 + ?local mod 86400"
    unfolding q(2) lm using mv(1) by simp
  also have "days_before_year year + yday - unix_days = ?local div 86400" using bd by simp
  finally have "AddDate zone (- k) ?t1 div 1000000000 = t div 1000000000" by simp
  moreover have "AddDate zone (- k) ?t1 mod 1000000000 = t mod 1000000000" using q(1) p(1) by simp
  ultimately show ?thesis by (metis div_mult_mod_eq)
qed


text \<open>From 29 February the way there and back gains a day.\<close>

lemma leap_day_facts:
  "month_day True 59 = (2, 29)" "yday_of False 2 29 = 59" "month_day False 59 = (3, 1)" "yday_of True 3 1 = 60"
  by code_simp+

lemma AddDate_leap_day:
  assumes "date_of zone t = (year, yday)" and "leap_day year yday" and "\<not> is_leap (year + k)"
  shows "AddDate zone (- k) (AddDate zone k t) = t + 86400 * 1000000000"
proof -
  let ?local = "t div 1000000000 + zone" and ?t1 = "AddDate zone k t" and ?D = "days_before_year (year + k) + 59"
  have l: "is_leap year" "yday = 59" using assms(2) by (simp_all add: leap_day_def)
  have md: "month_day (is_leap year) yday = (2, 29)" using l leap_day_facts by simp
  have D: "?D = days_before_year (year + k) + yday_of (is_leap (year + k)) 2 29" using assms(3) leap_day_facts by simp
  note p = AddDate_parts [OF assms(1) md D]
  have "(86400 * (?D - unix_days) + ?local mod 86400) div 86400 = ?D - unix_days" by (rule div_cycle) simp_all
  then have "(?t1 div 1000000000 + zone) div 86400 + unix_days = ?D" unfolding p(2) by (simp only: mult.commute)
  moreover have "year_yday ?D = (year + k, 59)" by (rule year_yday_days) (simp_all add: year_length_def)
  ultimately have dt1: "date_of zone ?t1 = (year + k, 59)" by (simp add: date_of_def)
  have lm: "(?t1 div 1000000000 + zone) mod 86400 = ?local mod 86400"
    unfolding p(2) by (simp only: mod_mult_self3 mod_mod_trivial)
  have md1: "month_day (is_leap (year + k)) 59 = (3, 1)" using assms(3) leap_day_facts by simp
  have D1: "days_before_year year + 60 = days_before_year (year + k + - k) + yday_of (is_leap (year + k + - k)) 3 1"
    using l leap_day_facts by simp
  note q = AddDate_parts [OF dt1 md1 D1]
  have dt: "year_yday (?local div 86400 + unix_days) = (year, yday)" using assms(1) by (simp add: date_of_def)
  have b: "?local div 86400 + unix_days = days_before_year year + 59" using year_yday_bounds [OF dt] l by simp
  have b': "days_before_year year + 60 - unix_days = ?local div 86400 + 1" using b by linarith
  have "AddDate zone (- k) ?t1 div 1000000000 + zone = (?local div 86400 + 1) * 86400 + ?local mod 86400"
    unfolding q(2) lm b' by (rule refl)
  then have "AddDate zone (- k) ?t1 div 1000000000 = t div 1000000000 + 86400" by simp
  moreover have "AddDate zone (- k) ?t1 mod 1000000000 = t mod 1000000000" using q(1) p(1) by simp
  ultimately show ?thesis
    using div_mult_mod_eq [of "AddDate zone (- k) ?t1" 1000000000] div_mult_mod_eq [of t 1000000000] by linarith
qed

lemma leap_plus_70: "is_leap year \<Longrightarrow> \<not> is_leap (year + 70)"
proof -
  assume "is_leap year"
  then have "year mod 4 = 0" by (simp add: is_leap_def)
  then have "(year + 70) mod 4 = 2" by presburger
  then show ?thesis by (simp add: is_leap_def)
qed

text \<open>The wire form holds a shifted time exactly while its seconds fit 32 bits, until 2036.\<close>

definition in_era :: "int \<Rightarrow> int \<Rightarrow> bool" where
  "in_era zone t \<longleftrightarrow> 0 \<le> AddDate zone 70 t \<and> AddDate zone 70 t < 2 ^ 32 * 1000000000"

lemma NewTwampTimestamp_exact:
  assumes "in_era zone t"
  shows "uint (Integer (NewTwampTimestamp zone t)) * 1000000000 + uint (Fraction (NewTwampTimestamp zone t)) =
    AddDate zone 70 t"
proof -
  let ?s = "AddDate zone 70 t"
  have "?s div 1000000000 * 1000000000 \<le> ?s"
    using div_mult_mod_eq [of ?s 1000000000] pos_mod_sign [of 1000000000 ?s] by linarith
  then have "0 \<le> ?s div 1000000000" "?s div 1000000000 < 2 ^ 32"
    using assms by (auto simp: in_era_def pos_imp_zdiv_nonneg_iff)
  then have "uint (word_of_int (?s div 1000000000) :: u32) = ?s div 1000000000"
    by (simp add: uint_word_of_int)
  moreover have "?s mod 1000000000 < 2 ^ 32" using pos_mod_bound [of 1000000000 ?s] by simp
  then have "uint (word_of_int (?s mod 1000000000) :: u32) = ?s mod 1000000000"
    by (simp add: uint_word_of_int)
  ultimately show ?thesis by (simp add: NewTwampTimestamp_def Let_def)
qed

lemma GetTime_NewTwampTimestamp:
  assumes "in_era zone t"
  shows "GetTime zone (NewTwampTimestamp zone t) = AddDate zone (- 70) (AddDate zone 70 t)"
  by (simp add: GetTime_def NewTwampTimestamp_exact [OF assms])

end
