(* ===== verification/TwampControl.thy ===== *)
theory TwampControl
  imports Wire TwampTime NetIP
begin

text \<open>
  The TWAMP control connection (\<open>pkg/twamp/client.go\<close>, \<open>connection.go\<close>, \<open>session.go\<close>):
  greeting, setup and start messages, session requests, and the start and stop of test
  sessions, over a stream socket. A connection is what it has sent and what its next reads
  will return; writes are not checked by the code. Decoders follow the order in which the code
  takes bytes from its buffer.
\<close>

section \<open>The connection\<close>

record TwampConnection =
  LocalAddr :: string
  RemoteAddr :: string
  pending :: arrivals
  sent :: "byte list list"
  conn_closed :: bool

definition conn_Write :: "byte list \<Rightarrow> TwampConnection \<Rightarrow> unit outcome \<times> TwampConnection" where
  "conn_Write bs c = (Ok (), c\<lparr>sent := sent c @ [bs]\<rparr>)"

definition conn_Close :: "TwampConnection \<Rightarrow> TwampConnection" where
  "conn_Close c = c\<lparr>conn_closed := True\<rparr>"

text \<open>
  One \<open>Read\<close> into a zeroed buffer of the wanted size. A read that returns fewer bytes without
  an error leaves the rest of the buffer zero; an error is reported in the words of the code
  when the read is short, as it is when it is complete.
\<close>

definition read_result :: "nat \<Rightarrow> byte list \<times> string option \<Rightarrow> byte list outcome" where
  "read_result n r =
     (case r of
        (bs, None) \<Rightarrow> Ok (bs @ replicate (n - length bs) 0)
      | (bs, Some err) \<Rightarrow>
          if length bs < n
          then Err (''readFromSocket: expected '' @ utoa n @ '' bytes, got '' @ utoa (length bs))
          else Err err)"

definition readFromSocket :: "nat \<Rightarrow> TwampConnection \<Rightarrow> byte list outcome \<times> TwampConnection" where
  "readFromSocket n c =
     (case stream_Read n (pending c) of
        None \<Rightarrow> (Blocked, c)
      | Some (r, rest) \<Rightarrow> (read_result n r, c\<lparr>pending := rest\<rparr>))"

text \<open>\<open>net.SplitHostPort\<close>\<close>

definition SplitHostPort :: "string \<Rightarrow> (string \<times> string) outcome" where
  "SplitHostPort hostport =
     (let after = rev (takeWhile (\<lambda>c. c \<noteq> CHR '':'') (rev hostport));
          i = length hostport - length after - 1;
          host0 = take i hostport;
          inner = takeWhile (\<lambda>c. c \<noteq> CHR '']'') hostport;
          end = length inner
      in if CHR '':'' \<notin> set hostport then Err ''missing port in address''
         else if hd hostport = CHR ''['' then
           (if CHR '']'' \<notin> set hostport then Err ''missing ']' in address''
            else if Suc end = length hostport then Err ''missing port in address''
            else if Suc end \<noteq> i then
              (if hostport ! Suc end = CHR '':'' then Err ''too many colons in address''
               else Err ''missing port in address'')
            else if CHR ''['' \<in> set (drop 1 hostport) then Err ''unexpected '[' in address''
            else if CHR '']'' \<in> set (drop (Suc end) hostport) then Err ''unexpected ']' in address''
            else Ok (drop 1 inner, after))
         else if CHR '':'' \<in> set host0 then Err ''too many colons in address''
         else if CHR ''['' \<in> set hostport then Err ''unexpected '[' in address''
         else if CHR '']'' \<in> set hostport then Err ''unexpected ']' in address''
         else Ok (host0, after))"

text \<open>The address as a number; an address that is not IPv4 has no four bytes to read.\<close>

definition AddrUint32 :: "string \<Rightarrow> u32 outcome" where
  "AddrUint32 addr =
     (case SplitHostPort addr of
        Ok (host, port) \<Rightarrow> Uint32 (To4 (ParseIP host))
      | _ \<Rightarrow> Ok 0)"

definition LocalAddrUint32 :: "TwampConnection \<Rightarrow> u32 outcome" where
  "LocalAddrUint32 c = AddrUint32 (LocalAddr c)"

definition RemoteAddrUint32 :: "TwampConnection \<Rightarrow> u32 outcome" where
  "RemoteAddrUint32 c = AddrUint32 (RemoteAddr c)"

section \<open>Negotiation\<close>

definition copy_bytes :: "nat \<Rightarrow> byte list \<Rightarrow> byte list" where
  "copy_bytes n src = take n src @ replicate (n - length src) 0"

record TwampServerGreeting =
  Mode :: u32
  Challenge :: "byte list"
  Salt :: "byte list"
  Count :: u32

definition decode_greeting :: "byte list \<Rightarrow> TwampServerGreeting outcome" where
  "decode_greeting buffer =
     (let (_, b1) = Next 12 buffer; (m, b2) = Next 4 b1; (ch, b3) = Next 16 b2;
          (sa, b4) = Next 16 b3; (co, b5) = Next 4 b4
      in bind_outcome (Uint32 m) (\<lambda>mode. bind_outcome (Uint32 co) (\<lambda>count.
           Ok \<lparr>Mode = mode, Challenge = copy_bytes 16 ch, Salt = copy_bytes 16 sa, Count = count\<rparr>)))"

definition getTwampServerGreetingMessage :: "TwampConnection \<Rightarrow> TwampServerGreeting outcome \<times> TwampConnection" where
  "getTwampServerGreetingMessage = bind_state (readFromSocket 64) (\<lambda>buffer c. (decode_greeting buffer, c))"

record TwampClientSetUpResponse =
  setup_Mode :: u32
  setup_KeyID :: "byte list"
  setup_Token :: "byte list"
  setup_ClientIV :: "byte list"

text \<open>\<open>binary.Write\<close> of the struct: its fields in order, big-endian.\<close>

definition encode_setup :: "TwampClientSetUpResponse \<Rightarrow> byte list" where
  "encode_setup r = PutUint32 (setup_Mode r) @ setup_KeyID r @ setup_Token r @ setup_ClientIV r"

definition sendTwampClientSetupResponse :: "TwampConnection \<Rightarrow> unit outcome \<times> TwampConnection" where
  "sendTwampClientSetupResponse = conn_Write (encode_setup
     \<lparr>setup_Mode = 1, setup_KeyID = replicate 80 0, setup_Token = replicate 64 0,
      setup_ClientIV = replicate 16 0\<rparr>)"

record TwampServerStart =
  start_Accept :: byte
  start_ServerIV :: "byte list"
  start_StartTime :: TwampTimestamp

definition decode_start :: "byte list \<Rightarrow> TwampServerStart outcome" where
  "decode_start buffer =
     (let (_, b1) = Next 15 buffer; (a, b2) = Next 1 b1; (iv, b3) = Next 16 b2;
          (i, b4) = Next 4 b3; (f, b5) = Next 4 b4
      in bind_outcome (first_byte a) (\<lambda>accept. bind_outcome (Uint32 i) (\<lambda>sec. bind_outcome (Uint32 f) (\<lambda>frac.
           Ok \<lparr>start_Accept = accept, start_ServerIV = copy_bytes 16 iv,
             start_StartTime = \<lparr>Integer = sec, Fraction = frac\<rparr>\<rparr>))))"

definition getTwampServerStartMessage :: "TwampConnection \<Rightarrow> TwampServerStart outcome \<times> TwampConnection" where
  "getTwampServerStartMessage = bind_state (readFromSocket 48) (\<lambda>buffer c. (decode_start buffer, c))"

text \<open>The accept codes; a code the switch does not list is no error.\<close>

definition checkAcceptStatus :: "nat \<Rightarrow> string \<Rightarrow> unit outcome" where
  "checkAcceptStatus accept context =
     (if accept = 0 then Ok ()
      else if accept = 1 then Err (''ERROR: The '' @ context @ '' failed.'')
      else if accept = 2 then Err (''ERROR: The '' @ context @ '' failed: internal error.'')
      else if accept = 3 then Err (''ERROR: The '' @ context @ '' failed: not supported.'')
      else if accept = 4 then Err (''ERROR: The '' @ context @ '' failed: permanent resource limitation.'')
      else if accept = 5 then Err (''ERROR: The '' @ context @ '' failed: temporary resource limitation.'')
      else Ok ())"

definition check_greeting :: "TwampServerGreeting \<Rightarrow> unit outcome" where
  "check_greeting greeting =
     (if Mode greeting = 0 then Err ''The TWAMP server is not interested in communicating with you.''
      else if Mode greeting = 1 then Ok ()
      else if Mode greeting = 2 then Err ''Authentication is not currently supported.''
      else if Mode greeting = 4 then Err ''Encyption is not currently supported.''
      else Ok ())"

text \<open>\<open>Connect\<close> once the connection is dialled; dialling is the parameter.\<close>

definition negotiate :: "TwampConnection \<Rightarrow> unit outcome \<times> TwampConnection" where
  "negotiate = bind_state getTwampServerGreetingMessage (\<lambda>greeting.
     bind_state (\<lambda>c. (check_greeting greeting, c)) (\<lambda>_.
     bind_state sendTwampClientSetupResponse (\<lambda>_.
     bind_state getTwampServerStartMessage (\<lambda>start c.
       (checkAcceptStatus (unat (start_Accept start)) ''connection'', c)))))"

definition Connect :: "(string \<Rightarrow> TwampConnection outcome) \<Rightarrow> string \<Rightarrow> TwampConnection outcome" where
  "Connect dial hostname = bind_outcome (dial hostname) (\<lambda>conn.
     (case negotiate conn of (r, c) \<Rightarrow> bind_outcome r (\<lambda>_. Ok c)))"

section \<open>Sessions\<close>

record TwampSessionConfig =
  SenderPort :: int
  ReceiverPort :: int
  Padding :: int
  Timeout :: int
  TOS :: int

text \<open>The fields of a Request-TW-Session message, with their offsets.\<close>

definition request_fields :: "TwampSessionConfig \<Rightarrow> u32 \<Rightarrow> u32 \<Rightarrow> TwampTimestamp \<Rightarrow> (nat \<times> byte list) list" where
  "request_fields config local remote start_time =
     [(0, [5]), (12, PutUint16 (word_of_int (SenderPort config))),
      (14, PutUint16 (word_of_int (ReceiverPort config))),
      (16, PutUint32 local), (32, PutUint32 remote),
      (64, PutUint32 (word_of_int (Padding config))),
      (68, PutUint32 (Integer start_time)), (72, PutUint32 (Fraction start_time)),
      (76, PutUint32 (word_of_int (Timeout config))), (80, PutUint32 0),
      (84, PutUint32 (word_of_int (TOS config)))]"

definition Encode :: "int \<Rightarrow> int \<Rightarrow> TwampSessionConfig \<Rightarrow> TwampConnection \<Rightarrow> byte list \<Rightarrow> byte list outcome" where
  "Encode zone now config c b =
     bind_outcome (LocalAddrUint32 c) (\<lambda>local. bind_outcome (RemoteAddrUint32 c) (\<lambda>remote.
       put_all (request_fields config local remote (NewTwampTimestamp zone now)) b))"

record TwampAcceptSession =
  accept_code :: byte
  accept_port :: u16
  accept_sid :: "byte list"

definition NewTwampAcceptSession :: "byte list \<Rightarrow> TwampAcceptSession outcome" where
  "NewTwampAcceptSession buf =
     (let (a, b1) = Next 1 buf; (_, b2) = Next 1 b1; (p, b3) = Next 2 b2; (s, b4) = Next 16 b3
      in bind_outcome (first_byte a) (\<lambda>accept. bind_outcome (Uint16 p) (\<lambda>port.
           Ok \<lparr>accept_code = accept, accept_port = port, accept_sid = copy_bytes 16 s\<rparr>)))"

record TwampSession =
  session_port :: u16
  session_config :: TwampSessionConfig

definition CreateSession ::
    "int \<Rightarrow> int \<Rightarrow> TwampSessionConfig \<Rightarrow> TwampConnection \<Rightarrow> TwampSession outcome \<times> TwampConnection" where
  "CreateSession zone now config =
     bind_state (\<lambda>c. (Encode zone now config c (replicate 112 0), c)) (\<lambda>pdu.
     bind_state (conn_Write pdu) (\<lambda>_.
     bind_state (readFromSocket 48) (\<lambda>acceptBuffer.
     bind_state (\<lambda>c. (NewTwampAcceptSession acceptBuffer, c)) (\<lambda>acceptSession c.
       (bind_outcome (checkAcceptStatus (unat (accept_code acceptSession)) ''session'') (\<lambda>_.
          Ok \<lparr>session_port = accept_port acceptSession, session_config = config\<rparr>), c)))))"

section \<open>Starting and stopping a test\<close>

text \<open>The UDP side, which the package gets from \<open>net\<close> and \<open>ipv4\<close>.\<close>

record ('a, 'u) udp_network =
  ResolveUDPAddr :: "string \<Rightarrow> 'a outcome"
  DialUDP :: "'a \<Rightarrow> 'a \<Rightarrow> 'u outcome"
  SetTTL :: "'u \<Rightarrow> nat \<Rightarrow> string option"
  SetTOS :: "'u \<Rightarrow> int \<Rightarrow> string option"

definition test_host :: "string \<Rightarrow> string" where
  "test_host addr = hd (split_at_char CHR '':'' addr)"

definition SetConnection :: "('a, 'u) udp_network \<Rightarrow> TwampSession \<Rightarrow> 'u \<Rightarrow> 'u outcome" where
  "SetConnection net s conn =
     (case SetTTL net conn 255 of
        Some err \<Rightarrow> Fatal err
      | None \<Rightarrow> (case SetTOS net conn (TOS (session_config s)) of
                   Some err \<Rightarrow> Fatal err
                 | None \<Rightarrow> Ok conn))"

definition open_test :: "('a, 'u) udp_network \<Rightarrow> TwampSession \<Rightarrow> TwampConnection \<Rightarrow> 'u outcome" where
  "open_test net s c =
     bind_outcome (ResolveUDPAddr net (test_host (RemoteAddr c) @ CHR '':'' # utoa (unat (session_port s)))) (\<lambda>remoteAddr.
     bind_outcome (ResolveUDPAddr net (test_host (LocalAddr c) @ CHR '':'' # itoa (SenderPort (session_config s)))) (\<lambda>localAddr.
     bind_outcome (DialUDP net localAddr remoteAddr) (SetConnection net s)))"

definition CreateTest :: "('a, 'u) udp_network \<Rightarrow> TwampSession \<Rightarrow> TwampConnection \<Rightarrow> 'u outcome \<times> TwampConnection" where
  "CreateTest net s =
     bind_state (conn_Write (2 # replicate 31 0)) (\<lambda>_.
     bind_state (readFromSocket 32) (\<lambda>startAckBuffer.
     bind_state (\<lambda>c. (bind_outcome (first_byte startAckBuffer) (\<lambda>accept.
         checkAcceptStatus (unat accept) ''test setup''), c)) (\<lambda>_ c.
       (open_test net s c, c))))"

definition Stop :: "TwampConnection \<Rightarrow> unit outcome \<times> TwampConnection" where
  "Stop = bind_state (\<lambda>c. (put_all [(0, [3]), (1, [0]), (4, PutUint16 1)] (replicate 32 0), c)) conn_Write"

end
