(* ===== verification/TwampTest.thy ===== *)
theory TwampTest
  imports TwampControl
begin

text \<open>
  The TWAMP test (\<open>pkg/twamp/test.go\<close>, \<open>results.go\<close>): one probe and its reply over UDP, and
  the statistics of a series of probes. A probe reads the clock twice; floating-point operations
  are a parameter, the integer durations are 64-bit and wrap.
\<close>

section \<open>The test connection\<close>

record TwampTest =
  test_session :: TwampSession
  seq :: u32
  udp_pending :: arrivals
  udp_sent :: "byte list list"

definition GetRemoteTestPort :: "TwampTest \<Rightarrow> u16" where
  "GetRemoteTestPort t = session_port (test_session t)"

text \<open>What a probe takes from its surroundings: the two clock readings and the random bytes.\<close>

record probe =
  sent_at :: int
  finished_at :: int
  rand_byte :: "nat \<Rightarrow> byte"

definition test_fields :: "u32 \<Rightarrow> TwampTimestamp \<Rightarrow> (nat \<times> byte list) list" where
  "test_fields n now =
     [(0, PutUint32 n), (4, PutUint32 (Integer now)), (8, PutUint32 (Fraction now)), (12, [1]), (13, [1])]"

definition sendTestMessage :: "int \<Rightarrow> probe \<Rightarrow> bool \<Rightarrow> TwampTest \<Rightarrow> int outcome \<times> TwampTest" where
  "sendTestMessage zone p use_all_zeroes t =
     (let now = NewTwampTimestamp zone (sent_at p);
          totalSize = 14 + Padding (session_config (test_session t))
      in if totalSize < 0 then (Panic ''makeslice: len out of range'', t)
         else case put_all (test_fields (seq t) now) (replicate (nat totalSize) 0) of
                Ok pdu \<Rightarrow>
                  (Ok totalSize,
                   t\<lparr>udp_sent := udp_sent t @
                       [take 14 pdu @ map (\<lambda>x. if use_all_zeroes then 0 else rand_byte p x) [14..<nat totalSize]],
                     seq := seq t + 1\<rparr>)
              | Err e \<Rightarrow> (Err e, t)
              | Fatal e \<Rightarrow> (Fatal e, t)
              | Panic e \<Rightarrow> (Panic e, t)
              | Blocked \<Rightarrow> (Blocked, t))"

section \<open>One probe\<close>

record TwampResults =
  SeqNum :: u32
  Timestamp :: int
  ErrorEstimate :: u16
  ReceiveTimestamp :: int
  SenderSeqNum :: u32
  SenderTimestamp :: int
  SenderErrorEstimate :: u16
  SenderTTL :: byte
  FinishedTimestamp :: int
  SenderSize :: int

definition GetWait :: "TwampResults \<Rightarrow> i64" where
  "GetWait r = Time_Sub (Timestamp r) (ReceiveTimestamp r)"

definition GetRTT :: "TwampResults \<Rightarrow> i64" where
  "GetRTT r = Time_Sub (FinishedTimestamp r) (SenderTimestamp r)"

text \<open>A time of two 32-bit numbers taken from the buffer.\<close>

definition next_time :: "int \<Rightarrow> byte list \<Rightarrow> (int \<times> byte list) outcome" where
  "next_time zone b =
     (let (s, b1) = Next 4 b; (f, b2) = Next 4 b1
      in bind_outcome (Uint32 s) (\<lambda>sec. bind_outcome (Uint32 f) (\<lambda>nsec.
           Ok (NewTimestamp zone sec nsec, b2))))"

definition decode_reply :: "int \<Rightarrow> int \<Rightarrow> int \<Rightarrow> byte list \<Rightarrow> TwampResults outcome" where
  "decode_reply zone n finished buffer =
     (let (s, b1) = Next 4 buffer in
      bind_outcome (Uint32 s) (\<lambda>seqNum.
      bind_outcome (next_time zone b1) (\<lambda>(timestamp, b2).
      (let (e, b3) = Next 2 b2; (_, b4) = Next 2 b3 in
      bind_outcome (Uint16 e) (\<lambda>errorEstimate.
      bind_outcome (next_time zone b4) (\<lambda>(receiveTimestamp, b5).
      (let (q, b6) = Next 4 b5 in
      bind_outcome (Uint32 q) (\<lambda>senderSeqNum.
      bind_outcome (next_time zone b6) (\<lambda>(senderTimestamp, b7).
      (let (g, b8) = Next 2 b7; (_, b9) = Next 2 b8; (l, b10) = Next 1 b9 in
      bind_outcome (Uint16 g) (\<lambda>senderErrorEstimate.
      bind_outcome (first_byte l) (\<lambda>senderTTL.
        Ok \<lparr>SeqNum = seqNum, Timestamp = timestamp, ErrorEstimate = errorEstimate,
          ReceiveTimestamp = receiveTimestamp, SenderSeqNum = senderSeqNum,
          SenderTimestamp = senderTimestamp, SenderErrorEstimate = senderErrorEstimate,
          SenderTTL = senderTTL, FinishedTimestamp = finished, SenderSize = n\<rparr>))))))))))))"

definition read_reply :: "TwampTest \<Rightarrow> byte list outcome \<times> TwampTest" where
  "read_reply t =
     (case datagram_Read 64 (udp_pending t) of
        None \<Rightarrow> (Blocked, t)
      | Some (r, rest) \<Rightarrow> (read_result 64 r, t\<lparr>udp_pending := rest\<rparr>))"

definition Run :: "int \<Rightarrow> probe \<Rightarrow> TwampTest \<Rightarrow> TwampResults outcome \<times> TwampTest" where
  "Run zone p t =
     (let senderSeqNum = seq t
      in bind_state (sendTestMessage zone p False) (\<lambda>n.
         bind_state read_reply (\<lambda>buffer t'.
           (bind_outcome (decode_reply zone n (finished_at p) buffer) (\<lambda>r.
              if senderSeqNum \<noteq> SeqNum r
              then Err (''Expected seq # '' @ utoa (unat senderSeqNum) @ '' but received '' @ utoa (unat (SeqNum r)) @ ''.'' @ [CHR 0x0A])
              else Ok r), t'))) t)"

section \<open>Statistics\<close>

text \<open>The \<open>float64\<close> operations of the statistics.\<close>

record 'f float_ops =
  of_int64 :: "int \<Rightarrow> 'f"
  f_add :: "'f \<Rightarrow> 'f \<Rightarrow> 'f"
  f_sub :: "'f \<Rightarrow> 'f \<Rightarrow> 'f"
  f_mul :: "'f \<Rightarrow> 'f \<Rightarrow> 'f"
  f_div :: "'f \<Rightarrow> 'f \<Rightarrow> 'f"
  f_abs :: "'f \<Rightarrow> 'f"
  f_square :: "'f \<Rightarrow> 'f"
  f_sqrt :: "'f \<Rightarrow> 'f"
  to_int64 :: "'f \<Rightarrow> i64"

record 'f PingResultStats =
  MinRTT :: i64
  MaxRTT :: i64
  Avg :: i64
  StdDev :: i64
  Transmitted :: int
  Received :: int
  Loss :: 'f
  Jitter :: i64

record 'f PingResults =
  Results :: "TwampResults list"
  Stat :: "'f PingResultStats"

definition stdDev :: "'f float_ops \<Rightarrow> TwampResults list \<Rightarrow> i64 \<Rightarrow> i64" where
  "stdDev fp rs mean =
     (let acc = foldl (\<lambda>a r. f_add fp a (f_square fp (of_int64 fp (sint (GetRTT r - mean))))) (of_int64 fp 0) rs;
          variance = f_div fp acc (of_int64 fp (int (length rs) - 1))
      in to_int64 fp (f_sqrt fp variance))"

fun jitter_total :: "'f float_ops \<Rightarrow> 'f \<Rightarrow> TwampResults list \<Rightarrow> 'f \<Rightarrow> 'f" where
  "jitter_total fp lastrtt [] acc = acc"
| "jitter_total fp lastrtt (r # rs) acc =
     (let rtt = of_int64 fp (sint (GetRTT r))
      in jitter_total fp rtt rs (f_add fp acc (f_abs fp (f_sub fp lastrtt rtt))))"

definition jitter :: "'f float_ops \<Rightarrow> TwampResults list \<Rightarrow> i64" where
  "jitter fp rs =
     (case rs of
        [] \<Rightarrow> 0
      | r # rest \<Rightarrow>
          if rest = [] then 0
          else to_int64 fp (f_div fp (jitter_total fp (of_int64 fp (sint (GetRTT r))) rest (of_int64 fp 0))
                 (of_int64 fp (int (length rs) - 1))))"

text \<open>The running values of the loop of \<open>RunX\<close>.\<close>

record tally =
  t_Min :: i64
  t_Max :: i64
  t_Total :: i64
  t_Transmitted :: int
  t_Received :: int
  t_Results :: "TwampResults list"

definition empty_tally :: tally where
  "empty_tally = \<lparr>t_Min = 0, t_Max = 0, t_Total = 0, t_Transmitted = 0, t_Received = 0, t_Results = []\<rparr>"

definition count_result :: "nat \<Rightarrow> TwampResults \<Rightarrow> tally \<Rightarrow> tally" where
  "count_result i r a =
     (let rtt = GetRTT r;
          a1 = (if i = 0 then a\<lparr>t_Min := rtt, t_Max := rtt\<rparr> else a);
          a2 = (if sint rtt < sint (t_Min a1) then a1\<lparr>t_Min := rtt\<rparr> else a1);
          a3 = (if sint (t_Max a2) < sint rtt then a2\<lparr>t_Max := rtt\<rparr> else a2)
      in a3\<lparr>t_Total := t_Total a3 + rtt, t_Received := t_Received a3 + 1, t_Results := t_Results a3 @ [r]\<rparr>)"

fun probe_loop :: "int \<Rightarrow> nat \<Rightarrow> probe list \<Rightarrow> tally \<Rightarrow> TwampTest \<Rightarrow> tally outcome \<times> TwampTest" where
  "probe_loop zone i [] a t = (Ok a, t)"
| "probe_loop zone i (p # ps) a t =
     (let a' = a\<lparr>t_Transmitted := t_Transmitted a + 1\<rparr>
      in case Run zone p t of
           (Ok r, t') \<Rightarrow> probe_loop zone (Suc i) ps (count_result i r a') t'
         | (Err e, t') \<Rightarrow> probe_loop zone (Suc i) ps a' t'
         | (Fatal e, t') \<Rightarrow> (Fatal e, t')
         | (Panic e, t') \<Rightarrow> (Panic e, t')
         | (Blocked, t') \<Rightarrow> (Blocked, t'))"

text \<open>The division of the total by the count asked for; none at all is a panic.\<close>

definition average :: "i64 \<Rightarrow> int \<Rightarrow> i64 outcome" where
  "average acc n =
     (if n = 0 then Panic ''integer divide by zero''
      else Ok (word_of_int (go_quot (sint acc) n)))"

definition summarize :: "'f float_ops \<Rightarrow> bool \<Rightarrow> int \<Rightarrow> tally \<Rightarrow> 'f PingResults outcome" where
  "summarize fp with_jitter n a =
     bind_outcome (average (t_Total a) n) (\<lambda>avg.
       Ok \<lparr>Results = t_Results a,
           Stat = \<lparr>MinRTT = t_Min a, MaxRTT = t_Max a, Avg = avg,
             StdDev = stdDev fp (t_Results a) avg,
             Transmitted = t_Transmitted a, Received = t_Received a,
             Loss = f_mul fp (f_div fp (of_int64 fp (t_Transmitted a - t_Received a))
                      (of_int64 fp (t_Transmitted a))) (of_int64 fp 100),
             Jitter = (if with_jitter then jitter fp (t_Results a) else 0)\<rparr>\<rparr>)"

definition RunX :: "'f float_ops \<Rightarrow> int \<Rightarrow> probe list \<Rightarrow> TwampTest \<Rightarrow> 'f PingResults outcome \<times> TwampTest" where
  "RunX fp zone probes = bind_state (probe_loop zone 0 probes empty_tally) (\<lambda>a t.
     (summarize fp True (int (length probes)) a, t))"

end
