(* ===== verification/TwampProps.thy ===== *)
theory TwampProps
  imports TwampTest
begin

text \<open>
  The properties of the TWAMP client: the session request as its receiver reads it, which
  servers the negotiation accepts, what a probe measures, the statistics of a series, and the
  way of a time through its wire form.
\<close>

section \<open>Timestamps\<close>

text \<open>
  \<^bold>\<open>C35\<close>. A timestamp comes back: a time in the era (its seconds, moved by 70 years, fit 32
  bits, which they do until 2036) and not on 29 February is read back from its wire form to the
  nanosecond, in any zone with a fixed offset.
\<close>

theorem timestamp_roundtrip:
  assumes "in_era zone t" and "date_of zone t = (year, yday)" and "\<not> leap_day year yday"
  shows "GetTime zone (NewTwampTimestamp zone t) = t"
  using AddDate_back [OF assms(2,3)] by (simp add: GetTime_NewTwampTimestamp [OF assms(1)])

text \<open>2 July 2021, 12:00:00.5 UTC, and 29 February 2024, noon.\<close>

definition summer :: int where
  "summer = 1625227200500000000"

definition leap_noon :: int where
  "leap_noon = 1709208000000000000"

lemma summer_facts: "in_era 0 summer" "date_of 0 summer = (2021, 182)" "\<not> leap_day 2021 182"
  by code_simp+

lemma leap_noon_facts: "in_era 0 leap_noon" "date_of 0 leap_noon = (2024, 59)" "leap_day 2024 59"
  by code_simp+

theorem timestamp_roundtrip_witness:
  "GetTime 0 (NewTwampTimestamp 0 summer) = summer"
  by (rule timestamp_roundtrip [OF summer_facts])

text \<open>
  On 29 February it does not: the moved date does not exist and becomes 1 March, so a
  time read back is a day late.
\<close>

theorem timestamp_leap_day:
  assumes "in_era zone t" and "date_of zone t = (year, yday)" and "leap_day year yday"
  shows "GetTime zone (NewTwampTimestamp zone t) = t + 86400 * 1000000000"
proof -
  have "\<not> is_leap (year + 70)" using assms(3) leap_plus_70 by (simp add: leap_day_def)
  from AddDate_leap_day [OF assms(2,3) this] show ?thesis
    by (simp add: GetTime_NewTwampTimestamp [OF assms(1)])
qed

theorem timestamp_leap_day_witness:
  "GetTime 0 (NewTwampTimestamp 0 leap_noon) = leap_noon + 86400 * 1000000000"
  by (rule timestamp_leap_day [OF leap_noon_facts])

text \<open>
  The wire form is not the time of RFC 1305 its comment names: seconds since 1900 are
  the seconds since 1970 plus 2208988800. That is what is sent for 2 July 2021, but for
  2 January 2023 the code sends a day more, since the 70 years from there span one more leap
  day than the years from 1900 to 1970.
\<close>

theorem not_ntp_time:
  "uint (Integer (NewTwampTimestamp 0 (1625184000 * 1000000000))) = 1625184000 + 2208988800 \<and>
   uint (Integer (NewTwampTimestamp 0 (1672617600 * 1000000000))) = 1672617600 + 2208988800 + 86400"
  by code_simp

section \<open>The session request\<close>

lemma SplitHostPort_plain:
  assumes "CHR '':'' \<notin> set host" and "CHR ''['' \<notin> set host" and "CHR '']'' \<notin> set host"
    and "CHR '':'' \<notin> set port" and "CHR ''['' \<notin> set port" and "CHR '']'' \<notin> set port"
    and "host \<noteq> []"
  shows "SplitHostPort (host @ CHR '':'' # port) = Ok (host, port)"
proof -
  have "takeWhile (\<lambda>c. c \<noteq> CHR '':'') (rev port @ CHR '':'' # rev host) = rev port"
    using assms(4) by (intro takeWhile_until) simp
  then have after: "rev (takeWhile (\<lambda>c. c \<noteq> CHR '':'') (rev (host @ CHR '':'' # port))) = port" by simp
  have "hd (host @ CHR '':'' # port) \<noteq> CHR ''[''" using assms(2,7) by (cases host) auto
  with assms after show ?thesis by (simp add: SplitHostPort_def Let_def)
qed

lemma AddrUint32_v4:
  assumes "is_v4 ip"
  shows "AddrUint32 (IP_String ip @ CHR '':'' # utoa p) = Uint32 (To4 ip)"
proof -
  have nd: "\<not> is_digit CHR ''[''" "\<not> is_digit CHR '']''" by (simp_all add: is_digit_def)
  have ch: "c \<notin> set (IP_String ip)" if "\<not> is_digit c" "c \<noteq> CHR ''.''" for c
    using that dotted_chars [of c] assms by (auto simp: IP_String_v4)
  have ne: "IP_String ip \<noteq> []"
    using is_v4_obtain [OF assms] by (metis IP_String_v4 [OF assms] append_is_Nil_conv dotted4 utoa_nonempty)
  have "SplitHostPort (IP_String ip @ CHR '':'' # utoa p) = Ok (IP_String ip, utoa p)"
    by (rule SplitHostPort_plain) (use ch nd not_digit_colon utoa_no_sep ne in auto)
  then show ?thesis by (simp add: AddrUint32_def ParseIP_String [OF assms] To4_canonical [OF assms])
qed

lemma Uint32_four: "length b = 4 \<Longrightarrow> \<exists>v. Uint32 b = Ok v"
  by (auto simp: numeral_eq_Suc length_Suc_conv)

lemma Encode_between_v4:
  assumes "LocalAddr c = IP_String lip @ CHR '':'' # utoa lp" and "is_v4 lip"
    and "RemoteAddr c = IP_String rip @ CHR '':'' # utoa rp" and "is_v4 rip"
  obtains l r pdu where "Uint32 (To4 lip) = Ok l" and "Uint32 (To4 rip) = Ok r"
    and "put_all (request_fields config l r (NewTwampTimestamp zone now)) (replicate 112 0) = Ok pdu"
    and "length pdu = 112" and "Encode zone now config c (replicate 112 0) = Ok pdu"
proof -
  obtain l r where l: "Uint32 (To4 lip) = Ok l" and r: "Uint32 (To4 rip) = Ok r"
    using Uint32_four length_To4_v4 assms(2,4) by metis
  let ?ws = "request_fields config l r (NewTwampTimestamp zone now)"
  have "list_all (fits (length (replicate 112 (0 :: byte)))) ?ws"
    by (simp add: request_fields_def fits_def)
  then obtain pdu where pdu: "put_all ?ws (replicate 112 0) = Ok pdu" "length pdu = 112"
    using put_all_Ok by force
  have "Encode zone now config c (replicate 112 0) = Ok pdu"
    using pdu(1) by (simp add: Encode_def LocalAddrUint32_def RemoteAddrUint32_def assms(1,3)
        AddrUint32_v4 assms(2,4) l r)
  with l r pdu show thesis by (rule that)
qed

text \<open>
  \<^bold>\<open>C24\<close>. The session request is the message its receiver expects: between IPv4 endpoints
  \<open>Encode\<close> fills a 112-byte message without a panic, and reading each field at its offset in
  the protocol gives back the command 5, the two ports (mod 2^16), both addresses, the padding,
  timeout and type of service (mod 2^32) and the start time.
\<close>

theorem request_roundtrip:
  assumes "LocalAddr c = IP_String lip @ CHR '':'' # utoa lp" and "is_v4 lip"
    and "RemoteAddr c = IP_String rip @ CHR '':'' # utoa rp" and "is_v4 rip"
    and "ts = NewTwampTimestamp zone now"
  shows "\<exists>pdu. Encode zone now config c (replicate 112 0) = Ok pdu \<and> length pdu = 112 \<and>
    first_byte pdu = Ok 5 \<and>
    Uint16 (drop 12 pdu) = Ok (word_of_int (SenderPort config)) \<and>
    Uint16 (drop 14 pdu) = Ok (word_of_int (ReceiverPort config)) \<and>
    Uint32 (drop 16 pdu) = Uint32 (To4 lip) \<and> Uint32 (drop 32 pdu) = Uint32 (To4 rip) \<and>
    Uint32 (drop 64 pdu) = Ok (word_of_int (Padding config)) \<and>
    Uint32 (drop 68 pdu) = Ok (Integer ts) \<and> Uint32 (drop 72 pdu) = Ok (Fraction ts) \<and>
    Uint32 (drop 76 pdu) = Ok (word_of_int (Timeout config)) \<and>
    Uint32 (drop 84 pdu) = Ok (word_of_int (TOS config))"
proof -
  obtain l r pdu where l: "Uint32 (To4 lip) = Ok l" and r: "Uint32 (To4 rip) = Ok r"
    and pdu: "put_all (request_fields config l r ts) (replicate 112 0) = Ok pdu" "length pdu = 112"
    and enc: "Encode zone now config c (replicate 112 0) = Ok pdu"
    using Encode_between_v4 [OF assms(1-4)] assms(5) by blast
  let ?ws = "request_fields config l r ts"
  have ap: "pairwise_apart ?ws" by (simp add: request_fields_def apart_def)
  note f16 = u16_be.get_written [OF pdu(1) ap] and f32 = u32_be.get_written [OF pdu(1) ap]
  have "take 1 (drop 0 pdu) = [5]" using put_all_here [OF pdu(1) ap, of 0 "[5]"] by (simp add: request_fields_def)
  then have "first_byte pdu = Ok 5" by (cases pdu) simp_all
  moreover have "Uint16 (drop 12 pdu) = Ok (word_of_int (SenderPort config))"
    "Uint16 (drop 14 pdu) = Ok (word_of_int (ReceiverPort config))"
    by (rule f16, simp add: request_fields_def)+
  moreover have "Uint32 (drop 16 pdu) = Ok l" "Uint32 (drop 32 pdu) = Ok r"
    "Uint32 (drop 64 pdu) = Ok (word_of_int (Padding config))"
    "Uint32 (drop 68 pdu) = Ok (Integer ts)" "Uint32 (drop 72 pdu) = Ok (Fraction ts)"
    "Uint32 (drop 76 pdu) = Ok (word_of_int (Timeout config))"
    "Uint32 (drop 84 pdu) = Ok (word_of_int (TOS config))"
    by (rule f32, simp add: request_fields_def)+
  ultimately show ?thesis using enc pdu(2) l r by auto
qed

definition demo_conn :: "arrivals \<Rightarrow> TwampConnection" where
  "demo_conn script = \<lparr>LocalAddr = ''10.0.0.1:40000'', RemoteAddr = ''10.0.0.2:862'',
     pending = script, sent = [], conn_closed = False\<rparr>"

definition demo_config :: TwampSessionConfig where
  "demo_config = \<lparr>SenderPort = 862, ReceiverPort = 863, Padding = 42, Timeout = 1, TOS = 0\<rparr>"

lemma demo_addrs:
  "LocalAddr (demo_conn s) = IP_String (IPv4 10 0 0 1) @ CHR '':'' # utoa 40000"
  "RemoteAddr (demo_conn s) = IP_String (IPv4 10 0 0 2) @ CHR '':'' # utoa 862"
  by (simp_all add: demo_conn_def IP_String_v4 utoa_eval)

theorem request_roundtrip_witness:
  "\<exists>pdu. Encode 0 summer demo_config (demo_conn []) (replicate 112 0) = Ok pdu \<and>
     Uint16 (drop 12 pdu) = Ok 862 \<and> Uint32 (drop 64 pdu) = Ok 42"
  using request_roundtrip [OF demo_addrs(1) _ demo_addrs(2) _ refl, of 0 summer demo_config "[]"]
  by (auto simp: demo_config_def)

text \<open>
  Over IPv6 there is no session: when the connection's local address does not parse to
  an IPv4 address, \<open>CreateSession\<close> panics on the empty slice it reads the number from, before
  anything is sent.
\<close>

theorem ipv6_session_panics:
  assumes "SplitHostPort (LocalAddr c) = Ok (host, port)" and "\<not> is_v4 (ParseIP host)"
  shows "CreateSession zone now config c = (Panic ''index out of range'', c)"
  using assms by (simp add: CreateSession_def bind_state_def Encode_def LocalAddrUint32_def AddrUint32_def is_v4_def)

lemma zeros_not_prefix: "replicate 12 (0 :: byte) \<noteq> v4InV6Prefix"
proof
  assume "replicate 12 (0 :: byte) = v4InV6Prefix"
  then have "replicate 12 (0 :: byte) ! 11 = v4InV6Prefix ! 11" by simp
  then show False by (simp add: v4InV6Prefix_def)
qed

lemma v6_local: "SplitHostPort ''[::]:862'' = Ok (''::'', ''862'')" "\<not> is_v4 (ParseIP ''::'')"
  using zeros_not_prefix
  by (simp_all add: SplitHostPort_def Let_def ParseIP_def parseIPv6_def is_v4_def To4_def)

theorem ipv6_session_panics_witness:
  "fst (CreateSession 0 summer demo_config ((demo_conn [])\<lparr>LocalAddr := ''[::]:862''\<rparr>)) = Panic ''index out of range''"
  using ipv6_session_panics [of "(demo_conn [])\<lparr>LocalAddr := ''[::]:862''\<rparr>" "''::''" "''862''"] v6_local
  by simp

section \<open>Negotiation\<close>

lemma stream_Read_whole: "length bs \<le> n \<Longrightarrow> stream_Read n ((bs, e) # rest) = Some ((bs, e), rest)"
  by simp

lemma readFromSocket_whole:
  "pending c = (bs, None) # rest \<Longrightarrow> length bs \<le> n \<Longrightarrow>
   readFromSocket n c = (Ok (bs @ replicate (n - length bs) 0), c\<lparr>pending := rest\<rparr>)"
  by (simp add: readFromSocket_def read_result_def)

lemma Uint32_len: "4 \<le> length b \<Longrightarrow> \<exists>v. Uint32 b = Ok v"
  by (cases b rule: Uint32.cases) auto

lemma Uint32_take: "Uint32 (take 4 b) = Uint32 b"
  by (cases b rule: Uint32.cases) auto

lemma greeting_read:
  assumes "pending c = (greet, None) # rest" and "length greet = 64" and "Uint32 (drop 12 greet) = Ok mode"
  shows "\<exists>g. getTwampServerGreetingMessage c = (Ok g, c\<lparr>pending := rest\<rparr>) \<and> Mode g = mode"
proof -
  obtain cnt where "Uint32 (drop 48 greet) = Ok cnt" using Uint32_len [of "drop 48 greet"] assms(2) by auto
  then show ?thesis
    using assms by (simp add: getTwampServerGreetingMessage_def bind_state_def readFromSocket_whole
        decode_greeting_def Next_def Uint32_take)
qed

lemma checkAcceptStatus_ok: "is_ok (checkAcceptStatus n context) \<longleftrightarrow> n \<notin> {1 .. 5}"
proof -
  have "n \<in> {1 .. 5} \<longleftrightarrow> n = 1 \<or> n = 2 \<or> n = 3 \<or> n = 4 \<or> n = 5" by auto
  then show ?thesis by (simp add: checkAcceptStatus_def)
qed

lemma start_read:
  assumes "pending c = (start, None) # rest" and "length start \<le> 48"
  shows "\<exists>m. getTwampServerStartMessage c = (Ok m, c\<lparr>pending := rest\<rparr>) \<and>
    start_Accept m = (if 15 < length start then start ! 15 else 0)"
proof -
  define b where "b = start @ replicate (48 - length start) (0 :: byte)"
  have len: "length b = 48" using assms(2) by (simp add: b_def)
  obtain s where s: "Uint32 (drop 32 b) = Ok s" using Uint32_len [of "drop 32 b"] len by auto
  obtain f where f: "Uint32 (drop 36 b) = Ok f" using Uint32_len [of "drop 36 b"] len by auto
  have d: "drop 15 b = b ! 15 # drop 16 b" using len Cons_nth_drop_Suc [of 15 b] by simp
  have b15: "b ! 15 = (if 15 < length start then start ! 15 else 0)"
    using assms(2) by (simp add: b_def nth_append)
  have "readFromSocket 48 c = (Ok b, c\<lparr>pending := rest\<rparr>)"
    using readFromSocket_whole [OF assms] by (simp add: b_def)
  then show ?thesis
    using s f d b15 by (simp add: getTwampServerStartMessage_def bind_state_def decode_start_def Next_def Uint32_take)
qed

text \<open>
  \<^bold>\<open>C36\<close>. Which servers are accepted: on a whole greeting and a whole start message the
  negotiation succeeds exactly if the greeting's mode is none of 0, 2 and 4 and the accept code
  is none of 1 to 5; in particular a server that offers only modes the client does not support
  (mode 6) is accepted, and so is any accept code from 6 to 255. The setup response, 164 bytes
  asking for the unauthenticated mode, is sent exactly if the mode was accepted.
\<close>

theorem negotiate_decides:
  assumes "pending c = (greet, None) # (start, None) # rest" and "length greet = 64" and "length start = 48"
    and "Uint32 (drop 12 greet) = Ok mode" and "negotiate c = (r, c')"
  shows "(is_ok r \<longleftrightarrow> mode \<notin> {0, 2, 4} \<and> unat (start ! 15) \<notin> {1 .. 5}) \<and>
    sent c' = sent c @ (if mode \<in> {0, 2, 4} then [] else [PutUint32 1 @ replicate 160 0])"
proof -
  obtain g where g: "getTwampServerGreetingMessage c = (Ok g, c\<lparr>pending := (start, None) # rest\<rparr>)" "Mode g = mode"
    using greeting_read [OF assms(1,2,4)] by blast
  let ?c2 = "c\<lparr>pending := (start, None) # rest, sent := sent c @ [PutUint32 1 @ replicate 160 0]\<rparr>"
  have wrote: "sendTwampClientSetupResponse (c\<lparr>pending := (start, None) # rest\<rparr>) = (Ok (), ?c2)"
    by (simp add: sendTwampClientSetupResponse_def conn_Write_def encode_setup_def replicate_add [symmetric])
  have "pending ?c2 = (start, None) # rest" by simp
  from start_read [OF this] assms(3) obtain m where
    m: "getTwampServerStartMessage ?c2 = (Ok m, ?c2\<lparr>pending := rest\<rparr>)" "start_Accept m = start ! 15"
    by auto
  show ?thesis
  proof (cases "mode \<in> {0, 2, 4}")
    case True
    then show ?thesis
      using assms(5) g by (auto simp: negotiate_def bind_state_def check_greeting_def)
  next
    case False
    then have "check_greeting g = Ok ()" using g(2) by (auto simp: check_greeting_def)
    then have "negotiate c = (checkAcceptStatus (unat (start ! 15)) ''connection'', ?c2\<lparr>pending := rest\<rparr>)"
      using g m wrote by (simp add: negotiate_def bind_state_def)
    with assms(5) have "r = checkAcceptStatus (unat (start ! 15)) ''connection''"
      and "c' = ?c2\<lparr>pending := rest\<rparr>" by simp_all
    with False show ?thesis by (simp add: checkAcceptStatus_ok)
  qed
qed

definition greeting_bytes :: "byte \<Rightarrow> byte list" where
  "greeting_bytes mode = replicate 15 0 @ mode # replicate 48 0"

definition start_bytes :: "byte \<Rightarrow> byte list" where
  "start_bytes accept = replicate 15 0 @ accept # replicate 32 0"

lemma greeting_bytes_facts:
  "length (greeting_bytes m) = 64" "length (start_bytes a) = 48" "start_bytes a ! 15 = a"
  "Uint32 (drop 12 (greeting_bytes m)) = Ok (ucast m)"
  by (simp_all add: greeting_bytes_def start_bytes_def nth_append drop_append numeral_eq_Suc)

theorem negotiate_decides_witness:
  "is_ok (fst (negotiate (demo_conn [(greeting_bytes 6, None), (start_bytes 9, None)])))"
proof -
  let ?c = "demo_conn [(greeting_bytes 6, None), (start_bytes 9, None)]"
  obtain r c' where n: "negotiate ?c = (r, c')" by fastforce
  have "pending ?c = (greeting_bytes 6, None) # (start_bytes 9, None) # []" by (simp add: demo_conn_def)
  from negotiate_decides [OF this greeting_bytes_facts(1,2,4) n] n show ?thesis
    by (simp add: greeting_bytes_facts)
qed

text \<open>
  A refusal can be missed: the start message is taken from a single read, so when
  the stream delivers fewer than 16 bytes of it first, the accept code the client checks is a
  zero of its own buffer, and the negotiation succeeds whatever the server goes on to say.
\<close>

theorem short_start_accepted:
  assumes "pending c = (greet, None) # (first, None) # rest" and "length greet = 64" and "length first < 16"
    and "Uint32 (drop 12 greet) = Ok mode" and "mode \<notin> {0, 2, 4}"
  shows "is_ok (fst (negotiate c)) \<and> pending (snd (negotiate c)) = rest"
proof -
  obtain g where g: "getTwampServerGreetingMessage c = (Ok g, c\<lparr>pending := (first, None) # rest\<rparr>)" "Mode g = mode"
    using greeting_read [OF assms(1,2,4)] by blast
  obtain bs where wrote: "sendTwampClientSetupResponse (c\<lparr>pending := (first, None) # rest\<rparr>) =
      (Ok (), c\<lparr>pending := (first, None) # rest, sent := bs\<rparr>)"
    by (simp add: sendTwampClientSetupResponse_def conn_Write_def)
  let ?c2 = "c\<lparr>pending := (first, None) # rest, sent := bs\<rparr>"
  have "pending ?c2 = (first, None) # rest" by simp
  from start_read [OF this] assms(3) obtain m where
    m: "getTwampServerStartMessage ?c2 = (Ok m, ?c2\<lparr>pending := rest\<rparr>)" "start_Accept m = 0" by auto
  have "check_greeting g = Ok ()" using g(2) assms(5) by (auto simp: check_greeting_def)
  then show ?thesis using g m wrote by (simp add: negotiate_def bind_state_def checkAcceptStatus_def)
qed

theorem short_start_accepted_witness:
  "is_ok (fst (negotiate (demo_conn [(greeting_bytes 1, None), (take 15 (start_bytes 1), None),
     (drop 15 (start_bytes 1), None)])))"
proof -
  let ?c = "demo_conn [(greeting_bytes 1, None), (take 15 (start_bytes 1), None), (drop 15 (start_bytes 1), None)]"
  have "pending ?c = (greeting_bytes 1, None) # (take 15 (start_bytes 1), None) # [(drop 15 (start_bytes 1), None)]"
    by (simp add: demo_conn_def)
  from short_start_accepted [OF this greeting_bytes_facts(1) _ greeting_bytes_facts(4)] show ?thesis
    by (simp add: greeting_bytes_facts)
qed

end
