(* ===== verification/PingFacts.thy ===== *)
theory PingFacts
  imports TwampTest "HOL-Library.Sublist"
begin

text \<open>
  Facts about one probe and about the loop over a series of them: what is sent, when a probe
  blocks, which results are collected, and the running minimum, maximum and total.
\<close>

section \<open>One probe\<close>

definition sane_padding :: "TwampTest \<Rightarrow> bool" where
  "sane_padding t \<longleftrightarrow> 0 \<le> Padding (session_config (test_session t))"

lemma sendTestMessage_sends:
  assumes "sane_padding t"
  shows "\<exists>pdu. sendTestMessage zone p z t =
    (Ok (14 + Padding (session_config (test_session t))), t\<lparr>udp_sent := udp_sent t @ [pdu], seq := seq t + 1\<rparr>)"
proof -
  let ?n = "14 + Padding (session_config (test_session t))"
  have n: "\<not> ?n < 0" "14 \<le> nat ?n" using assms by (simp_all add: sane_padding_def)
  have "list_all (fits (length (replicate (nat ?n) (0 :: byte)))) (test_fields (seq t) (NewTwampTimestamp zone (sent_at p)))"
    using n(2) by (simp add: test_fields_def fits_def)
  then obtain pdu where "put_all (test_fields (seq t) (NewTwampTimestamp zone (sent_at p))) (replicate (nat ?n) 0) = Ok pdu"
    using put_all_Ok by blast
  with n show ?thesis by (auto simp: sendTestMessage_def Let_def)
qed

lemma Uint_long:
  "4 \<le> length b \<Longrightarrow> \<exists>v. Uint32 b = Ok v" "2 \<le> length b \<Longrightarrow> \<exists>v. Uint16 b = Ok v"
  "1 \<le> length b \<Longrightarrow> \<exists>v. first_byte b = Ok v"
  by (cases b rule: Uint32.cases, auto, cases b rule: Uint16.cases, auto, cases b, auto)

lemma next_time_long: "8 \<le> length b \<Longrightarrow> \<exists>v. next_time zone b = Ok (v, drop 8 b)"
  using Uint_long(1) [of "take 4 b"] Uint_long(1) [of "take 4 (drop 4 b)"]
  by (auto simp: next_time_def Next_def)

lemma decode_reply_long:
  assumes "length b = 64"
  shows "\<exists>r. decode_reply zone n finished b = Ok r \<and> Uint32 (take 4 b) = Ok (SeqNum r)"
proof -
  obtain s where s: "Uint32 (take 4 b) = Ok s" using Uint_long(1) [of "take 4 b"] assms by auto
  obtain t1 where t1: "next_time zone (drop 4 b) = Ok (t1, drop 12 b)"
    using next_time_long [of "drop 4 b"] assms by auto
  obtain e where e: "Uint16 (take 2 (drop 12 b)) = Ok e" using Uint_long(2) [of "take 2 (drop 12 b)"] assms by auto
  obtain t2 where t2: "next_time zone (drop 16 b) = Ok (t2, drop 24 b)"
    using next_time_long [of "drop 16 b"] assms by auto
  obtain q where q: "Uint32 (take 4 (drop 24 b)) = Ok q" using Uint_long(1) [of "take 4 (drop 24 b)"] assms by auto
  obtain t3 where t3: "next_time zone (drop 28 b) = Ok (t3, drop 36 b)"
    using next_time_long [of "drop 28 b"] assms by auto
  obtain g where g: "Uint16 (take 2 (drop 36 b)) = Ok g" using Uint_long(2) [of "take 2 (drop 36 b)"] assms by auto
  obtain l where l: "first_byte (take (Suc 0) (drop 40 b)) = Ok l" using Uint_long(3) [of "take 1 (drop 40 b)"] assms by auto
  show ?thesis using s t1 e t2 q t3 g l by (simp add: decode_reply_def Next_def)
qed

text \<open>
  A probe uses up one arrival and one sequence number; its result, if it has one, has the
  number the probe was sent with.
\<close>

lemma Run_blocks: "sane_padding t \<Longrightarrow> udp_pending t = [] \<Longrightarrow> fst (Run zone p t) = Blocked"
  using sendTestMessage_sends [of t zone p False] by (auto simp: Run_def bind_state_def read_reply_def Let_def)

definition next_test :: "arrivals \<Rightarrow> TwampTest \<Rightarrow> TwampTest \<Rightarrow> bool" where
  "next_test rest t t' \<longleftrightarrow> udp_pending t' = rest \<and> seq t' = seq t + 1 \<and> test_session t' = test_session t \<and>
     length (udp_sent t') = Suc (length (udp_sent t))"

lemma next_test_sane: "next_test rest t t' \<Longrightarrow> sane_padding t' = sane_padding t"
  by (simp add: next_test_def sane_padding_def)

definition reply_buffer :: "byte list \<Rightarrow> byte list" where
  "reply_buffer bs = take 64 bs @ replicate (64 - length bs) 0"

lemma length_reply_buffer: "length (reply_buffer bs) = 64"
  by (simp add: reply_buffer_def)

lemma Run_reads:
  assumes "sane_padding t" and "udp_pending t = (bs, None) # rest"
    and "decode_reply zone (14 + Padding (session_config (test_session t))) (finished_at p) (reply_buffer bs) = Ok r"
  shows "\<exists>t'. next_test rest t t' \<and> Run zone p t =
    ((if seq t \<noteq> SeqNum r
      then Err (''Expected seq # '' @ utoa (unat (seq t)) @ '' but received '' @ utoa (unat (SeqNum r)) @ ''.'' @ [CHR 0x0A])
      else Ok r), t')"
proof -
  have b: "read_result 64 (take 64 bs, None) = Ok (reply_buffer bs)" by (simp add: read_result_def reply_buffer_def)
  obtain pdu where s: "sendTestMessage zone p False t =
      (Ok (14 + Padding (session_config (test_session t))), t\<lparr>udp_sent := udp_sent t @ [pdu], seq := seq t + 1\<rparr>)"
    using sendTestMessage_sends [OF assms(1)] by blast
  show ?thesis
    using s b assms(2,3) by (auto simp: Run_def bind_state_def read_reply_def Let_def next_test_def)
qed

lemma Run_error:
  assumes "sane_padding t" and "udp_pending t = (bs, Some e) # rest"
  shows "\<exists>t' m. next_test rest t t' \<and> Run zone p t = (Err m, t')"
proof -
  obtain pdu where s: "sendTestMessage zone p False t =
      (Ok (14 + Padding (session_config (test_session t))), t\<lparr>udp_sent := udp_sent t @ [pdu], seq := seq t + 1\<rparr>)"
    using sendTestMessage_sends [OF assms(1)] by blast
  show ?thesis
    using s assms(2) by (auto simp: Run_def bind_state_def read_reply_def Let_def next_test_def read_result_def)
qed

text \<open>The sequence number of an arrival, if it can be read.\<close>

definition reply_number :: "byte list \<times> string option \<Rightarrow> u32 option" where
  "reply_number a = (case a of (bs, None) \<Rightarrow> (case Uint32 (take 4 (reply_buffer bs)) of Ok n \<Rightarrow> Some n | _ \<Rightarrow> None)
     | (_, Some _) \<Rightarrow> None)"

lemma Run_answers:
  assumes "sane_padding t" and "udp_pending t = a # rest"
  shows "\<exists>t'. next_test rest t t' \<and>
    (if reply_number a = Some (seq t) then \<exists>r. Run zone p t = (Ok r, t') \<and> SeqNum r = seq t
     else \<exists>m. Run zone p t = (Err m, t'))"
proof (cases a)
  case (Pair bs e)
  show ?thesis
  proof (cases e)
    case None
    obtain r where r: "decode_reply zone (14 + Padding (session_config (test_session t))) (finished_at p)
        (reply_buffer bs) = Ok r" "Uint32 (take 4 (reply_buffer bs)) = Ok (SeqNum r)"
      using decode_reply_long [OF length_reply_buffer] by blast
    from Run_reads [OF assms(1) _ r(1)] assms(2) Pair None r(2) show ?thesis
      by (auto simp: reply_number_def)
  next
    case (Some m)
    with Run_error [OF assms(1)] assms(2) Pair show ?thesis by (fastforce simp: reply_number_def)
  qed
qed

section \<open>A series of probes\<close>

lemma count_result_fields:
  "t_Results (count_result i r a) = t_Results a @ [r]"
  "t_Transmitted (count_result i r a) = t_Transmitted a"
  "t_Received (count_result i r a) = t_Received a + 1"
  "t_Total (count_result i r a) = t_Total a + GetRTT r"
  by (simp_all add: count_result_def Let_def)

lemma count_result_minmax:
  "sint (t_Min (count_result 0 r a)) = sint (GetRTT r)" "sint (t_Max (count_result 0 r a)) = sint (GetRTT r)"
  "0 < i \<Longrightarrow> sint (t_Min (count_result i r a)) = min (sint (t_Min a)) (sint (GetRTT r))"
  "0 < i \<Longrightarrow> sint (t_Max (count_result i r a)) = max (sint (t_Max a)) (sint (GetRTT r))"
  by (auto simp: count_result_def Let_def)

text \<open>
  The loop in two steps: what came of each probe, and the tally of that. A probe is answered if
  the arrival it reads carries its number.
\<close>

fun count_all :: "nat \<Rightarrow> TwampResults option list \<Rightarrow> tally \<Rightarrow> tally" where
  "count_all i [] a = a"
| "count_all i (x # xs) a =
     (let a' = a\<lparr>t_Transmitted := t_Transmitted a + 1\<rparr>
      in count_all (Suc i) xs (case x of None \<Rightarrow> a' | Some r \<Rightarrow> count_result i r a'))"

fun answers :: "u32 \<Rightarrow> arrivals \<Rightarrow> TwampResults option list \<Rightarrow> bool" where
  "answers n as [] = True"
| "answers n [] (x # xs) = False"
| "answers n (a # as) (x # xs) =
     ((case x of None \<Rightarrow> reply_number a \<noteq> Some n | Some r \<Rightarrow> reply_number a = Some n \<and> SeqNum r = n) \<and>
      answers (n + 1) as xs)"

lemma probe_loop_tally:
  "sane_padding t \<Longrightarrow> length ps \<le> length (udp_pending t) \<Longrightarrow>
   \<exists>xs t'. probe_loop zone i ps a t = (Ok (count_all i xs a), t') \<and> length xs = length ps \<and>
     answers (seq t) (udp_pending t) xs"
proof (induction ps arbitrary: i a t)
  case Nil
  then show ?case by (intro exI [of _ "[]"]) simp
next
  case (Cons p ps)
  obtain x rest where pend: "udp_pending t = x # rest" using Cons.prems(2) by (cases "udp_pending t") auto
  from Run_answers [OF Cons.prems(1) pend, of zone p] obtain t' where n: "next_test rest t t'"
    and r: "if reply_number x = Some (seq t) then \<exists>r. Run zone p t = (Ok r, t') \<and> SeqNum r = seq t
      else \<exists>m. Run zone p t = (Err m, t')" by blast
  have t': "sane_padding t'" "udp_pending t' = rest" "seq t' = seq t + 1"
    using n Cons.prems(1) next_test_sane by (auto simp: next_test_def)
  define a' where "a' = a\<lparr>t_Transmitted := t_Transmitted a + 1\<rparr>"
  have len: "length ps \<le> length (udp_pending t')" using Cons.prems(2) pend t' by simp
  show ?case
  proof (cases "reply_number x = Some (seq t)")
    case True
    with r obtain q where q: "Run zone p t = (Ok q, t')" "SeqNum q = seq t" by auto
    obtain xs t2 where ih: "probe_loop zone (Suc i) ps (count_result i q a') t' =
        (Ok (count_all (Suc i) xs (count_result i q a')), t2)" "length xs = length ps" "answers (seq t + 1) rest xs"
      using Cons.IH [OF t'(1) len] t'(2,3) by metis
    show ?thesis using q ih True pend
      by (intro exI [of _ "Some q # xs"] exI [of _ t2]) (simp add: a'_def)
  next
    case False
    with r obtain m where m: "Run zone p t = (Err m, t')" by auto
    obtain xs t2 where ih: "probe_loop zone (Suc i) ps a' t' = (Ok (count_all (Suc i) xs a'), t2)"
        "length xs = length ps" "answers (seq t + 1) rest xs"
      using Cons.IH [OF t'(1) len] t'(2,3) by metis
    show ?thesis using m ih False pend
      by (intro exI [of _ "None # xs"] exI [of _ t2]) (simp add: a'_def)
  qed
qed

lemma probe_loop_blocks:
  "sane_padding t \<Longrightarrow> length (udp_pending t) < length ps \<Longrightarrow> fst (probe_loop zone i ps a t) = Blocked"
proof (induction ps arbitrary: i a t)
  case (Cons p ps)
  show ?case
  proof (cases "udp_pending t")
    case Nil
    obtain t' where "Run zone p t = (Blocked, t')"
      using Run_blocks [OF Cons.prems(1) Nil, of zone p] by (cases "Run zone p t") simp
    then show ?thesis by simp
  next
    case pend: (Cons x rest)
    from Run_answers [OF Cons.prems(1) pend, of zone p] obtain t' where n: "next_test rest t t'"
      and r: "(\<exists>r. Run zone p t = (Ok r, t')) \<or> (\<exists>m. Run zone p t = (Err m, t'))" by (auto split: if_splits)
    have "sane_padding t'" "length (udp_pending t') < length ps"
      using n Cons.prems next_test_sane pend by (auto simp: next_test_def)
    with r Cons.IH show ?thesis by auto
  qed
qed simp

lemma count_all_fields:
  fixes a :: tally
  defines "rs xs \<equiv> List.map_filter id xs"
  shows "t_Results (count_all i xs a) = t_Results a @ rs xs"
    and "t_Transmitted (count_all i xs a) = t_Transmitted a + int (length xs)"
    and "t_Received (count_all i xs a) = t_Received a + int (length (rs xs))"
    and "t_Total (count_all i xs a) = t_Total a + sum_list (map GetRTT (rs xs))"
  unfolding rs_def
  by (induction i xs a rule: count_all.induct)
    (simp_all add: Let_def count_result_fields map_filter_simps add.assoc split: option.splits)

end
