(* ===== verification/PingProps.thy ===== *)
theory PingProps
  imports PingFacts
begin

text \<open>
  The properties of TWAMP measurements: what one probe measures against a reflector that
  follows RFC 5357, when a series of probes comes to an end, and what its statistics are.
\<close>

section \<open>What a probe measures\<close>

text \<open>The reply of a session reflector, field by field as in RFC 5357, 4.2.1.\<close>

definition reflector_reply ::
    "u32 \<Rightarrow> TwampTimestamp \<Rightarrow> u16 \<Rightarrow> TwampTimestamp \<Rightarrow> u32 \<Rightarrow> TwampTimestamp \<Rightarrow> u16 \<Rightarrow> byte \<Rightarrow> byte list \<Rightarrow> byte list" where
  "reflector_reply n stamp err received sn sender serr ttl pad =
     PutUint32 n @ PutUint32 (Integer stamp) @ PutUint32 (Fraction stamp) @ PutUint16 err @ [0, 0] @
     PutUint32 (Integer received) @ PutUint32 (Fraction received) @ PutUint32 sn @
     PutUint32 (Integer sender) @ PutUint32 (Fraction sender) @ PutUint16 serr @ [0, 0] @ [ttl] @ pad"

lemma Next_Put:
  "Next 4 (PutUint32 v @ bs) = (PutUint32 v, bs)" "Next 2 (PutUint16 w @ bs) = (PutUint16 w, bs)"
  "Next 2 (0 # 0 # bs) = ([0, 0], bs)" "Next 1 (x # bs) = ([x], bs)" "Next (Suc 0) (x # bs) = ([x], bs)"
  by (simp_all add: Next_def u32_be.length_put u16_be.length_put)

lemma Uint_Put: "Uint32 (PutUint32 v) = Ok v" "Uint16 (PutUint16 w) = Ok w"
  using u32_be.get_put [of v "[]"] u16_be.get_put [of w "[]"] by simp_all

lemma next_time_Put:
  "next_time zone (PutUint32 (Integer ts) @ PutUint32 (Fraction ts) @ bs) = Ok (GetTime zone ts, bs)"
  by (simp add: next_time_def Next_Put Uint_Put NewTimestamp_def GetTime_def)

lemma reply_buffer_reflector:
  "reply_buffer (reflector_reply n stamp err received sn sender serr ttl pad) =
     reflector_reply n stamp err received sn sender serr ttl (take 23 pad @ replicate (23 - length pad) 0)"
  by (simp add: reply_buffer_def reflector_reply_def u32_be.length_put u16_be.length_put)

lemma decode_reflector:
  "decode_reply zone size1 finished (reflector_reply n stamp err received sn sender serr ttl pad) =
     Ok \<lparr>SeqNum = n, Timestamp = GetTime zone stamp, ErrorEstimate = err,
       ReceiveTimestamp = GetTime zone received, SenderSeqNum = sn, SenderTimestamp = GetTime zone sender,
       SenderErrorEstimate = serr, SenderTTL = ttl, FinishedTimestamp = finished, SenderSize = size1\<rparr>"
  by (simp add: decode_reply_def reflector_reply_def Next_Put Uint_Put next_time_Put)

lemma Run_reflected:
  assumes "sane_padding t"
    and "udp_pending t = (reflector_reply (seq t) stamp err received sn sender serr ttl pad, None) # rest"
  shows "\<exists>r. fst (Run zone p t) = Ok r \<and> SenderTimestamp r = GetTime zone sender \<and>
    FinishedTimestamp r = finished_at p \<and> Timestamp r = GetTime zone stamp \<and>
    ReceiveTimestamp r = GetTime zone received"
proof -
  have "decode_reply zone (14 + Padding (session_config (test_session t))) (finished_at p)
      (reply_buffer (reflector_reply (seq t) stamp err received sn sender serr ttl pad)) =
    Ok \<lparr>SeqNum = seq t, Timestamp = GetTime zone stamp, ErrorEstimate = err,
       ReceiveTimestamp = GetTime zone received, SenderSeqNum = sn, SenderTimestamp = GetTime zone sender,
       SenderErrorEstimate = serr, SenderTTL = ttl, FinishedTimestamp = finished_at p,
       SenderSize = 14 + Padding (session_config (test_session t))\<rparr>"
    by (simp only: reply_buffer_reflector decode_reflector)
  from Run_reads [OF assms this] show ?thesis by auto
qed

text \<open>
  \<^bold>\<open>C22\<close>. A probe measures the round trip: against a reflector that answers its number and
  copies back its timestamp, \<open>Run\<close> returns a result whose round-trip time is the time from the
  sending of the probe to the reading of the reply, and whose wait is the difference of the
  reflector's own two times, all to the nanosecond, outside 29 February.
\<close>

theorem probe_measures:
  assumes "sane_padding t" and "in_era zone (sent_at p)" and "date_of zone (sent_at p) = (year, yday)"
    and "\<not> leap_day year yday" and "sender = NewTwampTimestamp zone (sent_at p)"
    and "udp_pending t = (reflector_reply (seq t) stamp err received sn sender serr ttl pad, None) # rest"
  shows "\<exists>r. fst (Run zone p t) = Ok r \<and> SenderTimestamp r = sent_at p \<and>
    GetRTT r = Time_Sub (finished_at p) (sent_at p) \<and>
    GetWait r = Time_Sub (GetTime zone stamp) (GetTime zone received)"
proof -
  have "GetTime zone sender = sent_at p"
    using AddDate_back [OF assms(3,4)] assms(5) by (simp add: GetTime_NewTwampTimestamp [OF assms(2)])
  with Run_reflected [OF assms(1,6), of zone p] show ?thesis by (auto simp: GetRTT_def GetWait_def)
qed

definition demo_test :: "arrivals \<Rightarrow> TwampTest" where
  "demo_test script = \<lparr>test_session = \<lparr>session_port = 863,
       session_config = \<lparr>SenderPort = 862, ReceiverPort = 863, Padding = 42, Timeout = 1, TOS = 0\<rparr>\<rparr>,
     seq = 0, udp_pending = script, udp_sent = []\<rparr>"

definition demo_probe :: "int \<Rightarrow> probe" where
  "demo_probe now = \<lparr>sent_at = now, finished_at = now + 3000000, rand_byte = (\<lambda>x. 0)\<rparr>"

definition demo_reply :: "u32 \<Rightarrow> int \<Rightarrow> byte list \<times> string option" where
  "demo_reply n now = (reflector_reply n (NewTwampTimestamp 0 now) 1 (NewTwampTimestamp 0 now) n
     (NewTwampTimestamp 0 now) 1 255 [], None)"

text \<open>2 July 2021, 12:00:00.5 UTC, and 29 February 2024, noon.\<close>

definition july :: int where
  "july = 1625227200500000000"

definition february29 :: int where
  "february29 = 1709208000000000000"

lemma july_facts: "in_era 0 july" "date_of 0 july = (2021, 182)" "\<not> leap_day 2021 182"
  by code_simp+

lemma february29_facts: "in_era 0 february29" "date_of 0 february29 = (2024, 59)" "leap_day 2024 59"
  by code_simp+

lemma demo_facts: "sane_padding (demo_test s)" "seq (demo_test s) = 0" "udp_pending (demo_test s) = s"
  "sent_at (demo_probe now) = now" "finished_at (demo_probe now) = now + 3000000"
  by (simp_all add: demo_test_def demo_probe_def sane_padding_def)

lemma demo_reply_number: "reply_number (demo_reply n now) = Some n"
  by (simp add: reply_number_def demo_reply_def reply_buffer_reflector) (simp add: reflector_reply_def Uint_Put u32_be.length_put)

lemma demo_pending:
  "udp_pending (demo_test [demo_reply 0 now]) =
     (reflector_reply (seq (demo_test [demo_reply 0 now])) (NewTwampTimestamp 0 now) 1 (NewTwampTimestamp 0 now) 0
        (NewTwampTimestamp 0 now) 1 255 [], None) # []"
  by (simp add: demo_facts demo_reply_def)

lemma demo_sender: "NewTwampTimestamp 0 now = NewTwampTimestamp 0 (sent_at (demo_probe now))"
  by (simp add: demo_facts)

theorem probe_measures_witness:
  "\<exists>r. fst (Run 0 (demo_probe july) (demo_test [demo_reply 0 july])) = Ok r \<and> GetRTT r = 3000000"
proof -
  have d: "in_era 0 (sent_at (demo_probe july))" "date_of 0 (sent_at (demo_probe july)) = (2021, 182)"
    by (simp_all add: demo_facts july_facts)
  have "Time_Sub (finished_at (demo_probe july)) (sent_at (demo_probe july)) = 3000000"
    by (simp add: Time_Sub_def demo_facts)
  with probe_measures [OF demo_facts(1) d july_facts(3) demo_sender demo_pending] show ?thesis by auto
qed

text \<open>
  On 29 February it does not: for the same reply to a probe sent that day, and read
  within a day, the round-trip time is 24 hours too small, and so negative.
\<close>

theorem probe_leap_day:
  assumes "sane_padding t" and "in_era zone (sent_at p)" and "date_of zone (sent_at p) = (year, yday)"
    and "leap_day year yday" and "sender = NewTwampTimestamp zone (sent_at p)"
    and "udp_pending t = (reflector_reply (seq t) stamp err received sn sender serr ttl pad, None) # rest"
    and "sent_at p \<le> finished_at p" and "finished_at p < sent_at p + 86400 * 1000000000"
  shows "\<exists>r. fst (Run zone p t) = Ok r \<and>
    sint (GetRTT r) = finished_at p - sent_at p - 86400 * 1000000000 \<and> sint (GetRTT r) < 0"
proof -
  have "\<not> is_leap (year + 70)" using assms(4) leap_plus_70 by (simp add: leap_day_def)
  from AddDate_leap_day [OF assms(3,4) this]
  have "GetTime zone sender = sent_at p + 86400 * 1000000000"
    using assms(5) by (simp add: GetTime_NewTwampTimestamp [OF assms(2)])
  moreover have "sint (Time_Sub (finished_at p) (sent_at p + 86400 * 1000000000)) =
      finished_at p - (sent_at p + 86400 * 1000000000)"
    using assms(7,8) by (intro Time_Sub_exact) simp_all
  ultimately show ?thesis
    using Run_reflected [OF assms(1,6), of zone p] assms(8) by (auto simp: GetRTT_def)
qed

theorem probe_leap_day_witness:
  "\<exists>r. fst (Run 0 (demo_probe february29) (demo_test [demo_reply 0 february29])) = Ok r \<and>
     sint (GetRTT r) = 3000000 - 86400000000000"
proof -
  let ?p = "demo_probe february29"
  have d: "in_era 0 (sent_at ?p)" "date_of 0 (sent_at ?p) = (2024, 59)"
    by (simp_all add: demo_facts february29_facts)
  have "sent_at ?p \<le> finished_at ?p" "finished_at ?p < sent_at ?p + 86400 * 1000000000"
    by (simp_all add: demo_facts)
  from probe_leap_day [OF demo_facts(1) d february29_facts(3) demo_sender demo_pending this]
  show ?thesis by (auto simp: demo_facts)
qed

section \<open>A series of probes\<close>

lemma RunX_tally:
  assumes "sane_padding t" and "length ps \<le> length (udp_pending t)"
  shows "\<exists>xs t'. RunX fp zone ps t = (summarize fp True (int (length ps)) (count_all 0 xs empty_tally), t') \<and>
    length xs = length ps \<and> answers (seq t) (udp_pending t) xs"
  using probe_loop_tally [OF assms, of zone 0 empty_tally] by (auto simp: RunX_def bind_state_def)

lemma summarize_Ok: "n \<noteq> 0 \<Longrightarrow> is_ok (summarize fp j n a)"
  by (simp add: summarize_def average_def)

lemma RunX_Ok:
  "sane_padding t \<Longrightarrow> ps \<noteq> [] \<Longrightarrow> length ps \<le> length (udp_pending t) \<Longrightarrow> \<exists>res t'. RunX fp zone ps t = (Ok res, t')"
  using RunX_tally [of t ps fp zone] summarize_Ok [of "int (length ps)" fp True] by (auto simp: is_ok_iff)

text \<open>
  \<^bold>\<open>C30\<close>. A series comes to an end exactly if something arrives for each of its probes: with
  fewer arrivals than probes \<open>RunX\<close> waits for ever (no read has a deadline), so that a single
  lost datagram, which its loss rate is meant to report, keeps it from returning at all.
\<close>

theorem RunX_returns:
  assumes "sane_padding t" and "ps \<noteq> []"
  shows "(length ps \<le> length (udp_pending t) \<longrightarrow> is_ok (fst (RunX fp zone ps t))) \<and>
    (length (udp_pending t) < length ps \<longrightarrow> fst (RunX fp zone ps t) = Blocked)"
proof (intro conjI impI)
  assume "length ps \<le> length (udp_pending t)"
  from RunX_Ok [OF assms this, of fp zone] show "is_ok (fst (RunX fp zone ps t))" by auto
next
  assume "length (udp_pending t) < length ps"
  with probe_loop_blocks [OF assms(1)] obtain t' where "probe_loop zone 0 ps empty_tally t = (Blocked, t')"
    by (metis prod.collapse)
  then show "fst (RunX fp zone ps t) = Blocked" by (simp add: RunX_def bind_state_def)
qed

text \<open>An instance of the floating-point operations for the examples, on whole numbers.\<close>

definition whole_ops :: "int float_ops" where
  "whole_ops = \<lparr>of_int64 = id, f_add = (+), f_sub = (-), f_mul = (*), f_div = (div), f_abs = abs,
     f_square = (\<lambda>x. x * x), f_sqrt = id, to_int64 = word_of_int\<rparr>"

theorem RunX_returns_witness:
  "is_ok (fst (RunX whole_ops 0 [demo_probe july, demo_probe july] (demo_test [demo_reply 0 july, demo_reply 1 july]))) \<and>
   fst (RunX whole_ops 0 [demo_probe july, demo_probe july] (demo_test [demo_reply 0 july])) = Blocked"
  using RunX_returns [OF demo_facts(1), of "[demo_probe july, demo_probe july]" "[demo_reply 0 july, demo_reply 1 july]" whole_ops 0]
    RunX_returns [OF demo_facts(1), of "[demo_probe july, demo_probe july]" "[demo_reply 0 july]" whole_ops 0]
  by (simp add: demo_facts)

lemma RunX_summary:
  assumes "sane_padding t" and "ps \<noteq> []" and "RunX fp zone ps t = (Ok res, t')"
  obtains xs where "length xs = length ps" and "answers (seq t) (udp_pending t) xs"
    and "summarize fp True (int (length ps)) (count_all 0 xs empty_tally) = Ok res"
proof -
  have "length ps \<le> length (udp_pending t)"
  proof (rule ccontr)
    assume "\<not> length ps \<le> length (udp_pending t)"
    with probe_loop_blocks [OF assms(1), of ps zone 0 empty_tally] obtain t2
      where "probe_loop zone 0 ps empty_tally t = (Blocked, t2)" by (cases "probe_loop zone 0 ps empty_tally t") auto
    with assms(3) show False by (simp add: RunX_def bind_state_def)
  qed
  from RunX_tally [OF assms(1) this, of fp zone] assms(3) that show ?thesis by auto
qed

lemma answers_numbers:
  "answers n as xs \<Longrightarrow> subseq (map SeqNum (List.map_filter id xs)) (map (\<lambda>j. n + of_nat j) [0..<length xs])"
proof (induction n as xs rule: answers.induct)
  case (3 n a as x xs)
  have "map (\<lambda>j. n + of_nat j) [0..<length (x # xs)] = n # map (\<lambda>j. (n + 1) + of_nat j) [0..<length xs]"
    by (simp add: upt_conv_Cons map_Suc_upt [symmetric] add.assoc del: upt_Suc)
  with 3 show ?case by (cases x) (auto simp: map_filter_simps)
qed (simp_all add: map_filter_simps)

lemma summarize_fields:
  assumes "summarize fp j n a = Ok res"
  shows "Results res = t_Results a" "MinRTT (Stat res) = t_Min a" "MaxRTT (Stat res) = t_Max a"
    "Transmitted (Stat res) = t_Transmitted a" "Received (Stat res) = t_Received a"
    "Avg (Stat res) = word_of_int (go_quot (sint (t_Total a)) n)"
    "Loss (Stat res) = f_mul fp (f_div fp (of_int64 fp (t_Transmitted a - t_Received a))
       (of_int64 fp (t_Transmitted a))) (of_int64 fp 100)"
  using assms by (auto simp: summarize_def average_def split: if_splits)

text \<open>
  \<^bold>\<open>C29\<close>. What a series reports: as many probes transmitted as asked for, as many received as
  it has results, the results in the order of their sequence numbers, each once, the loss as the
  share of probes without a result, and as the average the total of the results' round-trip
  times divided by the number of probes \<^emph>\<open>sent\<close>, so that every lost probe lowers it.
\<close>

theorem RunX_counts:
  assumes "sane_padding t" and "ps \<noteq> []" and "RunX fp zone ps t = (Ok res, t')"
  shows "Transmitted (Stat res) = int (length ps) \<and>
    Received (Stat res) = int (length (Results res)) \<and> length (Results res) \<le> length ps \<and>
    subseq (map SeqNum (Results res)) (map (\<lambda>j. seq t + of_nat j) [0..<length ps]) \<and>
    Avg (Stat res) = word_of_int (go_quot (sint (sum_list (map GetRTT (Results res)))) (int (length ps))) \<and>
    Loss (Stat res) = f_mul fp (f_div fp (of_int64 fp (int (length ps) - int (length (Results res))))
      (of_int64 fp (int (length ps)))) (of_int64 fp 100)"
proof -
  obtain xs where xs: "length xs = length ps" "answers (seq t) (udp_pending t) xs"
    and res: "summarize fp True (int (length ps)) (count_all 0 xs empty_tally) = Ok res"
    by (rule RunX_summary [OF assms])
  have "subseq (map SeqNum (Results res)) (map (\<lambda>j. seq t + of_nat j) [0..<length ps])"
    using answers_numbers [OF xs(2)] xs(1) by (simp add: summarize_fields [OF res] count_all_fields empty_tally_def)
  moreover from list_emb_length [OF this] have "length (Results res) \<le> length ps" by simp
  ultimately show ?thesis
    using xs(1) by (simp add: summarize_fields(2-) [OF res]) (simp add: summarize_fields(1) [OF res] count_all_fields empty_tally_def)
qed

theorem RunX_counts_witness:
  "\<exists>res t'. RunX whole_ops 0 [demo_probe july, demo_probe july] (demo_test [demo_reply 7 july, demo_reply 1 july]) = (Ok res, t') \<and>
     Transmitted (Stat res) = 2 \<and> Received (Stat res) = int (length (Results res))"
proof -
  let ?t = "demo_test [demo_reply 7 july, demo_reply 1 july]" and ?ps = "[demo_probe july, demo_probe july]"
  obtain res t' where "RunX whole_ops 0 ?ps ?t = (Ok res, t')"
    using RunX_Ok [OF demo_facts(1), of ?ps "[demo_reply 7 july, demo_reply 1 july]" whole_ops 0] by (auto simp: demo_facts)
  with RunX_counts [OF demo_facts(1) _ this] show ?thesis by auto
qed

section \<open>Minimum and maximum\<close>

lemma insert_min_max:
  fixes S :: "int set"
  assumes "finite S"
  shows "Min (insert (min a b) S) = Min (insert a (insert b S))" "Max (insert (max a b) S) = Max (insert a (insert b S))"
  using assms by (cases "S = {}"; simp add: min.assoc max.assoc)+

lemma count_all_running:
  "0 < i \<Longrightarrow> sint (t_Min (count_all i xs a)) = Min (insert (sint (t_Min a)) (sint ` GetRTT ` set (List.map_filter id xs))) \<and>
     sint (t_Max (count_all i xs a)) = Max (insert (sint (t_Max a)) (sint ` GetRTT ` set (List.map_filter id xs)))"
proof (induction i xs a rule: count_all.induct)
  case (2 i x xs a)
  then show ?case
    by (cases x) (simp_all add: map_filter_simps count_result_minmax insert_min_max)
qed (simp add: map_filter_simps)

text \<open>
  The extremes of a series: when its first probe is answered, the minimum and maximum
  are those of the round-trip times of the results. When the first probe is lost they are taken
  together with 0, the value they start from, so that the minimum of positive times is 0.
\<close>

theorem RunX_min_max:
  assumes "sane_padding t" and "ps \<noteq> []" and "RunX fp zone ps t = (Ok res, t')"
    and "rtts = sint ` GetRTT ` set (Results res)" and "first = hd (udp_pending t)"
  shows "(reply_number first = Some (seq t) \<longrightarrow>
      sint (MinRTT (Stat res)) = Min rtts \<and> sint (MaxRTT (Stat res)) = Max rtts) \<and>
    (reply_number first \<noteq> Some (seq t) \<longrightarrow>
      sint (MinRTT (Stat res)) = Min (insert 0 rtts) \<and> sint (MaxRTT (Stat res)) = Max (insert 0 rtts))"
proof -
  obtain xs where xs: "length xs = length ps" "answers (seq t) (udp_pending t) xs"
    and res: "summarize fp True (int (length ps)) (count_all 0 xs empty_tally) = Ok res"
    by (rule RunX_summary [OF assms(1-3)])
  obtain x rest where x: "xs = x # rest" using xs(1) assms(2) by (cases xs) auto
  obtain a as where a: "udp_pending t = a # as" using xs(2) x by (cases "udp_pending t") auto
  have "reply_number first = Some (seq t) \<longleftrightarrow> x \<noteq> None" using xs(2) x a assms(5) by (auto split: option.splits)
  then show ?thesis
    using x by (cases x) (simp_all add: summarize_fields [OF res] assms(4) count_all_fields map_filter_simps
        count_all_running count_result_minmax count_result_fields empty_tally_def)
qed

theorem RunX_min_max_witness:
  "\<exists>res t'. RunX whole_ops 0 [demo_probe july, demo_probe july] (demo_test [demo_reply 7 july, demo_reply 1 july]) = (Ok res, t') \<and>
     sint (MinRTT (Stat res)) = Min (insert 0 (sint ` GetRTT ` set (Results res)))"
proof -
  let ?t = "demo_test [demo_reply 7 july, demo_reply 1 july]" and ?ps = "[demo_probe july, demo_probe july]"
  obtain res t' where r: "RunX whole_ops 0 ?ps ?t = (Ok res, t')"
    using RunX_Ok [OF demo_facts(1), of ?ps "[demo_reply 7 july, demo_reply 1 july]" whole_ops 0] by (auto simp: demo_facts)
  have "reply_number (hd (udp_pending ?t)) \<noteq> Some (seq ?t)"
    by (simp add: demo_facts demo_reply_number)
  with RunX_min_max [OF demo_facts(1) _ r refl refl] r show ?thesis by auto
qed

section \<open>Out of step\<close>

lemma answers_none: "answers n as xs \<Longrightarrow> \<forall>j < length as. reply_number (as ! j) \<noteq> Some (n + of_nat j) \<Longrightarrow>
  List.map_filter id xs = []"
proof (induction n as xs rule: answers.induct)
  case (3 n a as x xs)
  have "reply_number a \<noteq> Some n" using 3(3) by (auto dest: spec [of _ 0])
  with 3(2) have "x = None" by (auto split: option.splits)
  moreover have "\<forall>j < length as. reply_number (as ! j) \<noteq> Some (n + 1 + of_nat j)"
    using 3(3) by (auto simp: add.assoc dest: spec [of _ "Suc _"])
  ultimately show ?case using 3 by (simp add: map_filter_simps)
qed (simp_all add: map_filter_simps)

text \<open>
  One reply too many ends a measurement: if the replies arrive one behind the probes, as
  they do after a single duplicated datagram, no probe of the series ever gets its own reply,
  which is there and read by the next one, and the whole series counts as lost.
\<close>

theorem duplicate_loses_series:
  assumes "sane_padding t" and "ps \<noteq> []" and "length ps \<le> length (udp_pending t)"
    and "map reply_number (udp_pending t) = map (\<lambda>j. Some (seq t + of_nat j - 1)) [0..<length (udp_pending t)]"
  shows "\<exists>res t'. RunX fp zone ps t = (Ok res, t') \<and> Results res = [] \<and>
    Transmitted (Stat res) = int (length ps) \<and> Received (Stat res) = 0"
proof -
  obtain xs t' where r: "RunX fp zone ps t = (summarize fp True (int (length ps)) (count_all 0 xs empty_tally), t')"
    and xs: "length xs = length ps" "answers (seq t) (udp_pending t) xs"
    using RunX_tally [OF assms(1,3), of fp zone] by blast
  obtain res where res: "summarize fp True (int (length ps)) (count_all 0 xs empty_tally) = Ok res"
    using summarize_Ok [of "int (length ps)" fp True] assms(2) by (auto simp: is_ok_iff)
  have "reply_number (udp_pending t ! j) \<noteq> Some (seq t + of_nat j)" if "j < length (udp_pending t)" for j
    using arg_cong [OF assms(4), of "\<lambda>l. l ! j"] that by simp
  with answers_none [OF xs(2)] have "List.map_filter id xs = []" by blast
  with r res xs(1) show ?thesis
    by (simp add: summarize_fields [OF res] count_all_fields empty_tally_def)
qed

theorem duplicate_loses_series_witness:
  "\<exists>res t'. RunX whole_ops 0 [demo_probe july, demo_probe july]
       ((demo_test [demo_reply 0 july, demo_reply 1 july, demo_reply 2 july])\<lparr>seq := 1\<rparr>) = (Ok res, t') \<and>
     Results res = []"
proof -
  let ?s = "[demo_reply 0 july, demo_reply 1 july, demo_reply 2 july]"
  have t: "sane_padding ((demo_test ?s)\<lparr>seq := 1\<rparr>)" "udp_pending ((demo_test ?s)\<lparr>seq := 1\<rparr>) = ?s"
    by (simp_all add: demo_test_def sane_padding_def)
  have "map reply_number ?s = map (\<lambda>j. Some (1 + of_nat j - 1)) [0..<length ?s]"
    by (simp add: demo_reply_number upt_rec)
  with duplicate_loses_series [OF t(1), of "[demo_probe july, demo_probe july]" whole_ops 0] t(2)
  show ?thesis by fastforce
qed

end
