(* ===== verification/Config.thy ===== *)
theory Config
  imports Prelude GoStrings
begin

text \<open>
  The configuration (\<open>pkg/hal/config.go\<close>): what the file sets, the topology maps whose keys the
  file writes with dashes, the environment, the options of \<open>NewDnHal\<close>, and the names of WAN
  interfaces found by their hardware address. The configuration library is a parameter: whether
  the file could be read, and what unmarshalling it does to the record.
\<close>

section \<open>The record\<close>

record NetconfCfg =
  User :: string
  Password :: string

record TwampCfg =
  TwampHost :: string
  TwampCfgPort :: u16

record InterfaceCfg =
  CfgUpper :: string
  CfgLower :: string
  HwAddr :: string
  Ipv4Addr :: string

record TopoCfg =
  TopoNextHop :: "string \<rightharpoonup> string"
  TopoTwamp :: "string \<rightharpoonup> TwampCfg"
  TopoPeer :: "string \<rightharpoonup> string"

record HalCfg =
  Netconf :: NetconfCfg
  DnosAddr :: string
  LocalIfname :: string
  IfcSamplingInterval :: f64
  FlowThreshold :: u64
  SkipTwamp :: bool
  FlushSteer :: bool
  StatsServer :: bool
  Debug :: bool
  Lan :: InterfaceCfg
  Wan :: "InterfaceCfg list"
  Topo :: TopoCfg

section \<open>Keys with dashes\<close>

text \<open>
  The library splits keys at dots, so the file writes an address with dashes; each map is built
  anew with dots, in the order of a range over the old one.
\<close>

definition dash_to_dot :: "string \<Rightarrow> string" where
  "dash_to_dot = replace_char CHR ''-'' CHR ''.''"

definition fix_keys :: "string list \<Rightarrow> (string \<rightharpoonup> 'v) \<Rightarrow> (string \<rightharpoonup> 'v)" where
  "fix_keys order m = foldl (\<lambda>fixed key. fixed(dash_to_dot key := m key)) Map.empty order"

record map_orders =
  nh_order :: "string list"
  twamp_order :: "string list"
  peer_order :: "string list"

definition WorkaroundViperDictDotKeyIssue :: "map_orders \<Rightarrow> HalCfg \<Rightarrow> HalCfg" where
  "WorkaroundViperDictDotKeyIssue ord c =
     c\<lparr>Topo := \<lparr>TopoNextHop = fix_keys (nh_order ord) (TopoNextHop (Topo c)),
        TopoTwamp = fix_keys (twamp_order ord) (TopoTwamp (Topo c)),
        TopoPeer = fix_keys (peer_order ord) (TopoPeer (Topo c))\<rparr>\<rparr>"

section \<open>Loading\<close>

text \<open>The library and the environment: reading the file, unmarshalling it, \<open>DNOS_ADDR\<close>.\<close>

record config_source =
  ReadInConfig :: "string option"
  viper_Unmarshal :: "HalCfg \<Rightarrow> HalCfg"
  env_DNOS_ADDR :: "string option"
  map_ranges :: "HalCfg \<Rightarrow> map_orders"

definition LoadConfig :: "config_source \<Rightarrow> bool \<Rightarrow> HalCfg \<Rightarrow> HalCfg outcome" where
  "LoadConfig src required c =
     bind_outcome (case ReadInConfig src of
         Some err \<Rightarrow> if required then Panic err else Ok ()
       | None \<Rightarrow> Ok ()) (\<lambda>_.
       (let c1 = c\<lparr>DnosAddr := (case env_DNOS_ADDR src of Some a \<Rightarrow> a | None \<Rightarrow> [])\<rparr>;
            c2 = viper_Unmarshal src c1
        in Ok (WorkaroundViperDictDotKeyIssue (map_ranges src c2) c2)))"

section \<open>Interface names by hardware address\<close>

record net_interface =
  sys_Name :: string
  sys_HardwareAddr :: string

definition mac2IfName :: "net_interface list \<Rightarrow> (string \<rightharpoonup> string)" where
  "mac2IfName ifs = foldl (\<lambda>m ifc. m(sys_HardwareAddr ifc \<mapsto> sys_Name ifc)) Map.empty ifs"

definition wan_by_mac :: "(string \<rightharpoonup> string) \<Rightarrow> InterfaceCfg \<Rightarrow> InterfaceCfg" where
  "wan_by_mac names ifc =
     (if HwAddr ifc = [] then ifc
      else case names (HwAddr ifc) of None \<Rightarrow> ifc | Some name \<Rightarrow> ifc\<lparr>CfgUpper := name\<rparr>)"

text \<open>\<open>net.Interfaces\<close> is a parameter; its failure is a fatal log.\<close>

definition UpdateUpperByMac :: "net_interface list outcome \<Rightarrow> HalCfg \<Rightarrow> HalCfg outcome" where
  "UpdateUpperByMac interfaces c =
     (case interfaces of
        Ok ifs \<Rightarrow> Ok (c\<lparr>Wan := map (wan_by_mac (mac2IfName ifs)) (Wan c)\<rparr>)
      | Err err \<Rightarrow> Fatal (''Failed to get local interfaces. Reason: '' @ err)
      | Fatal err \<Rightarrow> Fatal err
      | Panic err \<Rightarrow> Panic err
      | Blocked \<Rightarrow> Blocked)"

section \<open>Facts about the loops\<close>

lemma dash_to_dot_id: "CHR ''-'' \<notin> set s \<Longrightarrow> dash_to_dot s = s"
  by (simp add: dash_to_dot_def replace_char_id)

lemma dash_to_dot_dashed:
  "CHR ''-'' \<notin> set s \<Longrightarrow> dash_to_dot (replace_char CHR ''.'' CHR ''-'' s) = s"
  by (induction s) (auto simp: dash_to_dot_def replace_char_def)

lemma dashed_dash_to_dot:
  "CHR ''.'' \<notin> set s \<Longrightarrow> replace_char CHR ''.'' CHR ''-'' (dash_to_dot s) = s"
  by (induction s) (auto simp: dash_to_dot_def replace_char_def)

lemma dash_to_dot_inj: "CHR ''.'' \<notin> set s \<Longrightarrow> CHR ''.'' \<notin> set t \<Longrightarrow> dash_to_dot s = dash_to_dot t \<Longrightarrow> s = t"
  using dashed_dash_to_dot by metis

lemma fix_keys_foldl:
  assumes "\<forall>k \<in> set order. CHR ''.'' \<notin> set k" and "CHR ''.'' \<notin> set k"
  shows "foldl (\<lambda>fixed key. fixed(dash_to_dot key := m key)) m0 order (dash_to_dot k) =
    (if k \<in> set order then m k else m0 (dash_to_dot k))"
  using assms
proof (induction order arbitrary: m0)
  case (Cons k' order)
  have "dash_to_dot k = dash_to_dot k' \<longleftrightarrow> k = k'" using Cons.prems dash_to_dot_inj by fastforce
  with Cons show ?case by auto
qed simp

lemma fix_keys_lookup:
  assumes "range_order m order" and "\<forall>k \<in> dom m. CHR ''.'' \<notin> set k" and "CHR ''-'' \<notin> set a"
  shows "fix_keys order m a = m (replace_char CHR ''.'' CHR ''-'' a)"
proof -
  let ?k = "replace_char CHR ''.'' CHR ''-'' a"
  have a: "a = dash_to_dot ?k" using dash_to_dot_dashed [OF assms(3)] by simp
  have k: "CHR ''.'' \<notin> set ?k" by (rule replace_char_absent) simp
  have o: "set order = dom m" using assms(1) by (auto simp: range_order_def)
  have "fix_keys order m (dash_to_dot ?k) = (if ?k \<in> set order then m ?k else None)"
    unfolding fix_keys_def using fix_keys_foldl [of order ?k m Map.empty] assms(2) o k by simp
  with a o show ?thesis by (metis domIff)
qed

lemma find_snoc: "List.find P (xs @ ys) = (case List.find P xs of None \<Rightarrow> List.find P ys | Some x \<Rightarrow> Some x)"
  by (induction xs) auto

lemma mac2IfName_foldl:
  "foldl (\<lambda>m ifc. m(sys_HardwareAddr ifc \<mapsto> sys_Name ifc)) m ifs a =
    (case List.find (\<lambda>i. sys_HardwareAddr i = a) (rev ifs) of None \<Rightarrow> m a | Some i \<Rightarrow> Some (sys_Name i))"
  by (induction ifs arbitrary: m) (auto simp: find_snoc split: option.splits)

end
