(* ===== verification/HalInit.thy ===== *)
theory HalInit
  imports Config Registry Flows Steering
begin

text \<open>
  The instance that ties the parts together (\<open>NewDnHal\<close>, \<open>Init\<close>, \<open>InitInterfaces\<close> in
  \<open>pkg/hal/hal.go\<close>) and the two servers over it (\<open>mgmt_server.go\<close>, \<open>stats_server.go\<close>). The
  operating system, the dialled gNMI client and the device are parameters; the goroutines
  \<open>Init\<close> starts are not run here.
\<close>

section \<open>The instance\<close>

record ('m, 'd) hal =
  initialized :: bool
  grpcAddr :: string
  UpdateInterval :: i64
  interfaces :: "'m registry"
  hal_flows :: flows
  hal_steering :: "'d steering"
  config :: HalCfg
  configRequired :: bool

record ('p, 'm, 'd) hal_env =
  grpc_Dial :: "string \<Rightarrow> 'p gnmi_client outcome"
  gnmi_mgr :: "'m target_manager"
  net_Interfaces :: "net_interface list outcome"
  device_api :: "'d netconf"
  Config_source :: config_source
  sampling_interval :: "f64 \<Rightarrow> i64"
  time_Now :: int

section \<open>Interfaces of the configuration\<close>

text \<open>A sequence of \<open>NewInterface\<close> calls, each of which must succeed.\<close>

fun new_interfaces ::
    "'m target_manager \<Rightarrow> string \<Rightarrow> OptionInterface list list \<Rightarrow> 'm registry \<Rightarrow> unit outcome \<times> 'm registry" where
  "new_interfaces tm msg [] reg = (Ok (), reg)"
| "new_interfaces tm msg (options # rest) reg =
     (case NewInterface tm options reg of
        (Ok _, reg') \<Rightarrow> new_interfaces tm msg rest reg'
      | (Err err, reg') \<Rightarrow> (Fatal (msg @ err), reg')
      | (Fatal err, reg') \<Rightarrow> (Fatal err, reg')
      | (Panic err, reg') \<Rightarrow> (Panic err, reg')
      | (Blocked, reg') \<Rightarrow> (Blocked, reg'))"

definition lan_cfg_options :: "'p gnmi_client \<Rightarrow> HalCfg \<Rightarrow> string \<Rightarrow> OptionInterface list" where
  "lan_cfg_options client c name =
     [OptionInterfaceUpper name, OptionInterfaceLower (CfgLower (Lan c)), OptionInterfaceUpdateNetFlowId client]"

text \<open>The first system interface with the configured name becomes the LAN interface.\<close>

definition init_lan ::
    "'m target_manager \<Rightarrow> 'p gnmi_client \<Rightarrow> HalCfg \<Rightarrow> string list \<Rightarrow> 'm registry \<Rightarrow> unit outcome \<times> 'm registry" where
  "init_lan tm client c names reg =
     (case List.find (\<lambda>name. name = CfgUpper (Lan c)) names of
        None \<Rightarrow> (Ok (), reg)
      | Some name \<Rightarrow>
          if CfgLower (Lan c) = [] then (Fatal ''Missing DN interface for HALO_LOCAL'', reg)
          else new_interfaces tm ''Failed to create local interface. Reason:'' [lan_cfg_options client c name] reg)"

text \<open>Reading a missing key of a topology map gives the zero value.\<close>

definition twamp_cfg :: "HalCfg \<Rightarrow> string \<Rightarrow> TwampCfg" where
  "twamp_cfg c addr = (case TopoTwamp (Topo c) addr of Some t \<Rightarrow> t | None \<Rightarrow> \<lparr>TwampHost = [], TwampCfgPort = 0\<rparr>)"

definition wan_cfg_options :: "'p gnmi_client \<Rightarrow> HalCfg \<Rightarrow> InterfaceCfg \<Rightarrow> OptionInterface list" where
  "wan_cfg_options client c cfg =
     [OptionInterfaceUpper (CfgUpper cfg), OptionInterfaceLower (CfgLower cfg),
      OptionInterfaceTwamp (TwampHost (twamp_cfg c (Ipv4Addr cfg))) (TwampCfgPort (twamp_cfg c (Ipv4Addr cfg))),
      OptionInterfaceNextHop (key_or_empty (TopoNextHop (Topo c)) (Ipv4Addr cfg)),
      OptionInterfaceUpdateNetFlowId client]"

text \<open>For each system interface the configured WAN interfaces of that name, in order.\<close>

definition present_wans :: "HalCfg \<Rightarrow> string list \<Rightarrow> InterfaceCfg list" where
  "present_wans c names = concat (map (\<lambda>name. filter (\<lambda>cfg. CfgUpper cfg = name) (Wan c)) names)"

definition init_wans ::
    "'m target_manager \<Rightarrow> 'p gnmi_client \<Rightarrow> HalCfg \<Rightarrow> string list \<Rightarrow> 'm registry \<Rightarrow> unit outcome \<times> 'm registry" where
  "init_wans tm client c names =
     new_interfaces tm ''Failed to create interface. Reason:'' (map (wan_cfg_options client c) (present_wans c names))"

definition sys_names :: "net_interface list outcome \<Rightarrow> string list outcome" where
  "sys_names ifs =
     (case ifs of
        Ok xs \<Rightarrow> Ok (map sys_Name xs)
      | Err err \<Rightarrow> Fatal (''Failed to list network interfaces: '' @ err)
      | Fatal err \<Rightarrow> Fatal err
      | Panic err \<Rightarrow> Panic err
      | Blocked \<Rightarrow> Blocked)"

definition dial_or_die :: "(string \<Rightarrow> 'p gnmi_client outcome) \<Rightarrow> string \<Rightarrow> 'p gnmi_client outcome" where
  "dial_or_die dial addr =
     (case dial addr of
        Err err \<Rightarrow> Fatal (''failed to connect to gRPC server: %s. Reason: %w'' @ addr @ err)
      | r \<Rightarrow> r)"

definition InitInterfaces :: "('p, 'm, 'd) hal_env \<Rightarrow> ('m, 'd) hal \<Rightarrow> unit outcome \<times> ('m, 'd) hal" where
  "InitInterfaces env h0 =
     (let h = h0\<lparr>interfaces := registry_reset (interfaces h0)\<rparr> in
      case bind_outcome (dial_or_die (grpc_Dial env) (grpcAddr h)) (\<lambda>client.
             bind_outcome (sys_names (net_Interfaces env)) (\<lambda>names. Ok (client, names))) of
        Ok (client, names) \<Rightarrow>
          (case init_lan (gnmi_mgr env) client (config h) names (interfaces h) of
             (Ok _, reg1) \<Rightarrow>
               (let h1 = h\<lparr>interfaces := reg1, UpdateInterval := sampling_interval env (IfcSamplingInterval (config h))\<rparr> in
                case init_wans (gnmi_mgr env) client (config h) names reg1 of
                  (r, reg2) \<Rightarrow> (r, h1\<lparr>interfaces := reg2\<rparr>))
           | (r, reg1) \<Rightarrow> (r, h\<lparr>interfaces := reg1\<rparr>))
      | Err e \<Rightarrow> (Err e, h)
      | Fatal e \<Rightarrow> (Fatal e, h)
      | Panic e \<Rightarrow> (Panic e, h)
      | Blocked \<Rightarrow> (Blocked, h))"

section \<open>Start-up\<close>

text \<open>Running an operation of one part on the instance.\<close>

definition on_steering :: "('d steering \<Rightarrow> 'a outcome \<times> 'd steering) \<Rightarrow> ('m, 'd) hal \<Rightarrow> 'a outcome \<times> ('m, 'd) hal" where
  "on_steering f h = (case f (hal_steering h) of (r, st) \<Rightarrow> (r, h\<lparr>hal_steering := st\<rparr>))"

text \<open>The clean-up of the device; its error is only logged.\<close>

definition flush_steer :: "'d netconf \<Rightarrow> ('m, 'd) hal \<Rightarrow> unit outcome \<times> ('m, 'd) hal" where
  "flush_steer nc h =
     (if FlushSteer (config h)
      then case on_steering (SteeringAclCleanup nc) h of
             (Err e, h') \<Rightarrow> (Ok (), h')
           | rs \<Rightarrow> rs
      else (Ok (), h))"

definition Init :: "('p, 'm, 'd) hal_env \<Rightarrow> ('m, 'd) hal \<Rightarrow> unit outcome \<times> ('m, 'd) hal" where
  "Init env h =
     bind_state (\<lambda>h. InitInterfaces env (h\<lparr>grpcAddr := DnosAddr (config h) @ '':50051'',
         hal_steering := (hal_steering h)\<lparr>aclRules := Map.empty\<rparr>\<rparr>)) (\<lambda>_.
     bind_state (flush_steer (device_api env)) (\<lambda>_.
     bind_state (\<lambda>h. (Ok (), h\<lparr>hal_flows := InitFlows (time_Now env)\<rparr>)) (\<lambda>_.
     bind_state (on_steering (InitNetConf (device_api env))) (\<lambda>_ h.
       (Ok (), h\<lparr>initialized := True\<rparr>))))) h"

type_synonym ('m, 'd) OptionHal = "('m, 'd) hal \<Rightarrow> unit outcome \<times> ('m, 'd) hal"

definition OptionHalFlushSteer :: "bool \<Rightarrow> ('m, 'd) OptionHal" where
  "OptionHalFlushSteer opt h = (Ok (), h\<lparr>config := (config h)\<lparr>FlushSteer := opt\<rparr>\<rparr>)"

definition OptionHalStatsServer :: "bool \<Rightarrow> ('m, 'd) OptionHal" where
  "OptionHalStatsServer opt h = (Ok (), h\<lparr>config := (config h)\<lparr>StatsServer := opt\<rparr>\<rparr>)"

definition OptionHalFlowThreshold :: "u64 \<Rightarrow> ('m, 'd) OptionHal" where
  "OptionHalFlowThreshold threshold h = (Ok (), h\<lparr>config := (config h)\<lparr>FlowThreshold := threshold\<rparr>\<rparr>)"

definition OptionHalConfigRequired :: "bool \<Rightarrow> ('m, 'd) OptionHal" where
  "OptionHalConfigRequired opt h = (Ok (), h\<lparr>configRequired := opt\<rparr>)"

fun run_options :: "('m, 'd) OptionHal list \<Rightarrow> ('m, 'd) hal \<Rightarrow> unit outcome \<times> ('m, 'd) hal" where
  "run_options [] = (\<lambda>h. (Ok (), h))"
| "run_options (op # ops) = bind_state
     (\<lambda>h. case op h of
        (Err err, h') \<Rightarrow> (Fatal (''Failed to setup HAL instance. Reason: '' @ err), h')
      | rs \<Rightarrow> rs) (\<lambda>_. run_options ops)"

definition on_config :: "(HalCfg \<Rightarrow> HalCfg outcome) \<Rightarrow> ('m, 'd) hal \<Rightarrow> unit outcome \<times> ('m, 'd) hal" where
  "on_config f h = bind_state (\<lambda>h. (f (config h), h)) (\<lambda>c h. (Ok (), h\<lparr>config := c\<rparr>)) h"

definition configure :: "('p, 'm, 'd) hal_env \<Rightarrow> ('m, 'd) OptionHal list \<Rightarrow> ('m, 'd) hal \<Rightarrow> unit outcome \<times> ('m, 'd) hal" where
  "configure env options = bind_state (run_options options) (\<lambda>_.
     bind_state (\<lambda>h. on_config (LoadConfig (Config_source env) (configRequired h)) h) (\<lambda>_.
     bind_state (on_config (UpdateUpperByMac (net_Interfaces env))) (\<lambda>_. run_options options)))"

definition NewDnHal :: "('p, 'm, 'd) hal_env \<Rightarrow> ('m, 'd) OptionHal list \<Rightarrow> ('m, 'd) hal \<Rightarrow> unit outcome \<times> ('m, 'd) hal" where
  "NewDnHal env options h =
     (if initialized h then (Ok (), h)
      else bind_state (configure env options) (\<lambda>_. Init env) h)"

end
