(* ===== verification/Servers.thy ===== *)
theory Servers
  imports HalInit
begin

text \<open>
  The gRPC services over the instance: the management service that adds and removes interfaces
  (\<open>pkg/hal/mgmt_server.go\<close>) and the statistics service (\<open>pkg/hal/stats_server.go\<close>). A reply
  stream is the list of messages sent to it.
\<close>

section \<open>Management\<close>

definition DEFAULT_TWAMP_PORT :: u16 where
  "DEFAULT_TWAMP_PORT = 862"

definition parseTwampAddr :: "string \<Rightarrow> (string \<times> u16) outcome" where
  "parseTwampAddr addr =
     (case split_at_char CHR '':'' addr of
        [] \<Rightarrow> Err (''invalid twamp address: '' @ addr)
      | [peer] \<Rightarrow> Ok (peer, DEFAULT_TWAMP_PORT)
      | peer # port # _ \<Rightarrow> bind_outcome (ParseUint port 16) (\<lambda>port64. Ok (peer, word_of_nat port64)))"

text \<open>What both additions share: a connection to the device, then \<open>NewInterface\<close> on the registry.\<close>

definition add_interface ::
    "('p, 'm, 'd) hal_env \<Rightarrow> ('p gnmi_client \<Rightarrow> OptionInterface list) \<Rightarrow> ('m, 'd) hal \<Rightarrow> unit outcome \<times> ('m, 'd) hal" where
  "add_interface env options h =
     (case grpc_Dial env (grpcAddr h) of
        Ok client \<Rightarrow>
          (case NewInterface (gnmi_mgr env) (options client) (interfaces h) of
             (r, reg) \<Rightarrow> (bind_outcome r (\<lambda>_. Ok ()), h\<lparr>interfaces := reg\<rparr>))
      | Err err \<Rightarrow> (Err (''failed to connect to gRPC server: '' @ grpcAddr h @ ''. Reason: '' @ err), h)
      | Fatal err \<Rightarrow> (Fatal err, h)
      | Panic err \<Rightarrow> (Panic err, h)
      | Blocked \<Rightarrow> (Blocked, h))"

definition AddLanInterface :: "('p, 'm, 'd) hal_env \<Rightarrow> string \<Rightarrow> string \<Rightarrow> ('m, 'd) hal \<Rightarrow> unit outcome \<times> ('m, 'd) hal" where
  "AddLanInterface env upper lower = add_interface env (\<lambda>client.
     [OptionInterfaceUpper upper, OptionInterfaceLower lower, OptionInterfaceUpdateNetFlowId client])"

record AddWanInterfaceArgs =
  arg_Upper :: string
  arg_Lower :: string
  arg_NextHop :: string
  arg_Twamp :: string

definition AddWanInterface :: "('p, 'm, 'd) hal_env \<Rightarrow> AddWanInterfaceArgs \<Rightarrow> ('m, 'd) hal \<Rightarrow> unit outcome \<times> ('m, 'd) hal" where
  "AddWanInterface env args = bind_state (\<lambda>h. (parseTwampAddr (arg_Twamp args), h)) (\<lambda>(peer, port).
     add_interface env (\<lambda>client.
       [OptionInterfaceUpper (arg_Upper args), OptionInterfaceLower (arg_Lower args),
        OptionInterfaceTwamp peer port, OptionInterfaceNextHop (arg_NextHop args),
        OptionInterfaceUpdateNetFlowId client]))"

definition DeleteInterface :: "('p, 'm, 'd) hal_env \<Rightarrow> string \<Rightarrow> ('m, 'd) hal \<Rightarrow> unit outcome \<times> ('m, 'd) hal" where
  "DeleteInterface env upper h =
     (case RemoveInterface (gnmi_mgr env) upper (interfaces h) of (r, reg) \<Rightarrow> (r, h\<lparr>interfaces := reg\<rparr>))"

section \<open>Statistics\<close>

record pb_Interface =
  pb_Name :: string
  pb_Stats :: InterfaceTelemetry

text \<open>Sending one interface; an address without an object is a nil pointer.\<close>

definition send_interface :: "'m registry \<Rightarrow> nat option \<Rightarrow> pb_Interface outcome" where
  "send_interface reg p =
     (case deref reg p of
        None \<Rightarrow> Panic ''nil pointer''
      | Some ifc \<Rightarrow> Ok \<lparr>pb_Name = Upper ifc, pb_Stats = Stats ifc\<rparr>)"

fun send_all :: "'m registry \<Rightarrow> nat option list \<Rightarrow> pb_Interface list \<Rightarrow> pb_Interface list \<times> unit outcome" where
  "send_all reg [] stream = (stream, Ok ())"
| "send_all reg (p # ps) stream =
     (case send_interface reg p of
        Ok m \<Rightarrow> send_all reg ps (stream @ [m])
      | Err e \<Rightarrow> (stream, Err e)
      | Fatal e \<Rightarrow> (stream, Fatal e)
      | Panic e \<Rightarrow> (stream, Panic e)
      | Blocked \<Rightarrow> (stream, Blocked))"

definition StatsServer_GetInterfaces :: "('m, 'd) hal \<Rightarrow> pb_Interface list \<times> unit outcome" where
  "StatsServer_GetInterfaces h =
     (let reg = interfaces h in
      case send_all reg (copyLanInterfaces reg) [] of
        (stream, Ok _) \<Rightarrow> send_all reg (copyWanInterfaces reg) stream
      | r \<Rightarrow> r)"

definition GetAclCacheSize :: "('m, 'd) hal \<Rightarrow> u64" where
  "GetAclCacheSize h = word_of_nat (card (dom (aclRules (hal_steering h))))"

end
