(* ===== verification/HalMonitor.thy ===== *)
theory HalMonitor
  imports Registry TwampTest
begin

text \<open>
  The goroutine \<open>monitorInterfaces\<close> (\<open>pkg/hal/hal.go\<close>) after its subscriptions: it opens a TWAMP
  test for every WAN interface and then serves three kinds of events, the speed and counter
  updates of the gNMI monitor and the tick of the delay measurement. The network, the clock and
  floating-point arithmetic are parameters; sockets and events are given as what arrives.
\<close>

section \<open>Opening the tests\<close>

text \<open>Keyed by the interface: the connection dialled for it, and the time of its session request.\<close>

record twamp_env =
  twamp_dial :: "string \<Rightarrow> string \<Rightarrow> TwampConnection outcome"
  twamp_net :: "(string, arrivals) udp_network"
  session_now :: "string \<Rightarrow> int"
  local_zone :: int

definition interface_config :: "Interface \<Rightarrow> TwampSessionConfig" where
  "interface_config ifc =
     \<lparr>SenderPort = int (unat (TwampPort ifc)), ReceiverPort = int (unat (TwampPort ifc)) + 1,
      Padding = 42, Timeout = 1, TOS = 0\<rparr>"

text \<open>An error at any of the three steps is logged and the interface left without a test.\<close>

definition open_interface :: "twamp_env \<Rightarrow> Interface \<Rightarrow> TwampTest option outcome" where
  "open_interface env ifc =
     (case bind_outcome (Connect (twamp_dial env (Upper ifc)) (TwampPeer ifc)) (\<lambda>conn.
        (case CreateSession (local_zone env) (session_now env (Upper ifc)) (interface_config ifc) conn of
           (r, conn1) \<Rightarrow> bind_outcome r (\<lambda>s.
             (case CreateTest (twamp_net env) s conn1 of
                (r, conn2) \<Rightarrow> bind_outcome r (\<lambda>u.
                  Ok \<lparr>test_session = s, seq = 0, udp_pending = u, udp_sent = []\<rparr>))))) of
        Ok t \<Rightarrow> Ok (Some t)
      | Err e \<Rightarrow> Ok None
      | Fatal e \<Rightarrow> Fatal e
      | Panic e \<Rightarrow> Panic e
      | Blocked \<Rightarrow> Blocked)"

fun open_tests :: "twamp_env \<Rightarrow> Interface list \<Rightarrow> (string \<rightharpoonup> TwampTest) \<Rightarrow> (string \<rightharpoonup> TwampTest) outcome" where
  "open_tests env [] tests = Ok tests"
| "open_tests env (ifc # ifcs) tests =
     bind_outcome (open_interface env ifc) (\<lambda>r.
       open_tests env ifcs (case r of None \<Rightarrow> tests | Some t \<Rightarrow> tests(Upper ifc \<mapsto> t)))"

definition start_twamp :: "bool \<Rightarrow> twamp_env \<Rightarrow> 'm registry \<Rightarrow> (string \<rightharpoonup> TwampTest) outcome" where
  "start_twamp skip env reg =
     (if skip then Ok Map.empty
      else open_tests env (List.map_filter (deref reg) (copyWanInterfaces reg)) Map.empty)"

section \<open>Events\<close>

text \<open>A tick carries the readings of its probes, and the order of the range over the tests.\<close>

datatype monitor_event =
    SpeedUpdate InterfaceUpdate
  | StatsUpdate InterfaceUpdate
  | DelayTick "string list" "string \<Rightarrow> nat \<Rightarrow> probe"

record 'f float_env =
  float_ops :: "'f float_ops"
  as_millis :: "i64 \<Rightarrow> f64"
  tick_zone :: int

record 'm monitoring =
  mon_registry :: "'m registry"
  mon_tests :: "string \<rightharpoonup> TwampTest"

text \<open>\<open>RunX(5)\<close> on every test.\<close>

fun run_tests ::
    "'f float_env \<Rightarrow> (string \<Rightarrow> nat \<Rightarrow> probe) \<Rightarrow> string list \<Rightarrow> 'm monitoring \<Rightarrow> unit outcome \<times> 'm monitoring" where
  "run_tests fe probes [] s = (Ok (), s)"
| "run_tests fe probes (upper # uppers) s =
     (case mon_tests s upper of
        None \<Rightarrow> run_tests fe probes uppers s
      | Some tt \<Rightarrow>
          bind_state
            (\<lambda>s. case RunX (float_ops fe) (tick_zone fe) (map (probes upper) [0..<5]) tt of
                   (r, tt') \<Rightarrow> (r, s\<lparr>mon_tests := (mon_tests s)(upper \<mapsto> tt')\<rparr>))
            (\<lambda>results s. run_tests fe probes uppers
               (s\<lparr>mon_registry := updateInterfaceDelayJitter upper (as_millis fe (Avg (Stat results)))
                   (as_millis fe (Jitter (Stat results))) (mon_registry s)\<rparr>)) s)"

definition monitor_step :: "'f float_env \<Rightarrow> bool \<Rightarrow> monitor_event \<Rightarrow> 'm monitoring \<Rightarrow> unit outcome \<times> 'm monitoring" where
  "monitor_step fe skip e s =
     (case e of
        SpeedUpdate u \<Rightarrow> (Ok (), s\<lparr>mon_registry := handleSpeed u (mon_registry s)\<rparr>)
      | StatsUpdate u \<Rightarrow> (Ok (), s\<lparr>mon_registry := handleStats u (mon_registry s)\<rparr>)
      | DelayTick order probes \<Rightarrow> if skip then (Ok (), s) else run_tests fe probes order s)"

fun monitor_loop :: "'f float_env \<Rightarrow> bool \<Rightarrow> monitor_event list \<Rightarrow> 'm monitoring \<Rightarrow> unit outcome \<times> 'm monitoring" where
  "monitor_loop fe skip [] = (\<lambda>s. (Ok (), s))"
| "monitor_loop fe skip (e # es) = bind_state (monitor_step fe skip e) (\<lambda>_. monitor_loop fe skip es)"

end
