(* ===== verification/HalFacts.thy ===== *)
theory HalFacts
  imports Servers HalMonitor SteerDevice
begin

text \<open>
  Facts about the instance: what a sequence of \<open>NewInterface\<close> calls leaves registered, which
  objects the options of the configuration build, and the steps of \<open>Init\<close> one by one.
\<close>

section \<open>Sequences of registrations\<close>

lemma new_interfaces_Ok:
  assumes "new_interfaces tm msg opss reg = (Ok (), reg')" and "registry_inv reg"
  shows "registry_inv reg' \<and> (\<exists>ifcs. list_all2 (\<lambda>ops i. apply_options ops fresh_interface = Ok i) opss ifcs \<and>
    (\<forall>i \<in> set ifcs. registered reg (Upper i) = None \<and> registered reg' (Upper i) = Some i) \<and>
    (\<forall>u. u \<notin> Upper ` set ifcs \<longrightarrow> registered reg' u = registered reg u))"
  using assms
proof (induction opss arbitrary: reg)
  case Nil
  then show ?case by (intro conjI exI [of _ "[]"]) auto
next
  case (Cons ops opss)
  note inv = Cons.prems(2)
  show ?case
  proof (cases rule: NewInterface_cases [of ops reg tm])
    case (ok ifc)
    let ?reg1 = "register_interface tm ifc reg"
    have inv1: "registry_inv ?reg1" by (rule registry_inv_register [OF inv ok(2)])
    have "new_interfaces tm msg opss ?reg1 = (Ok (), reg')" using Cons.prems(1) ok(3) by simp
    from Cons.IH [OF this inv1] obtain ifcs where reg': "registry_inv reg'"
      and l: "list_all2 (\<lambda>ops i. apply_options ops fresh_interface = Ok i) opss ifcs"
      and new: "\<forall>i \<in> set ifcs. registered ?reg1 (Upper i) = None \<and> registered reg' (Upper i) = Some i"
      and old: "\<forall>u. u \<notin> Upper ` set ifcs \<longrightarrow> registered reg' u = registered ?reg1 u" by blast
    have r1: "registered ?reg1 u = (if u = Upper ifc then Some ifc else registered reg u)" for u
      using inv by (simp add: registry_inv_def registered_register)
    have free: "registered reg (Upper ifc) = None"
      using ok(2) inv by (simp add: registry_inv_def registered_None)
    have "Upper ifc \<notin> Upper ` set ifcs" using new r1 by (metis imageE option.distinct(1))
    then have "registered reg' (Upper ifc) = Some ifc" using old r1 by simp
    moreover have "\<forall>i \<in> set ifcs. registered reg (Upper i) = None"
      using new r1 by (metis option.distinct(1))
    ultimately show ?thesis
      using reg' l new old r1 free ok(1) by (intro conjI exI [of _ "ifc # ifcs"]) auto
  next
    case (fail r)
    with Cons.prems(1) show ?thesis by (cases r) auto
  qed
qed

lemma lan_cfg_options_interface:
  "apply_options (lan_cfg_options client c name) fresh_interface = Ok i \<Longrightarrow>
   Upper i = name \<and> Lower i = CfgLower (Lan c) \<and> getDnIfIndex client (CfgLower (Lan c)) = Ok (NetFlowId i)"
  by (auto simp: lan_cfg_options_def OptionInterfaceUpper_def OptionInterfaceLower_def
      OptionInterfaceUpdateNetFlowId_def bind_outcome_Ok_iff)

text \<open>The object of a configured WAN interface.\<close>

definition wan_object :: "'p gnmi_client \<Rightarrow> HalCfg \<Rightarrow> InterfaceCfg \<Rightarrow> Interface \<Rightarrow> bool" where
  "wan_object client c cfg i \<longleftrightarrow>
     Upper i = CfgUpper cfg \<and> Lower i = CfgLower cfg \<and> getDnIfIndex client (CfgLower cfg) = Ok (NetFlowId i) \<and>
     IfNextHop i = ParseIP (key_or_empty (TopoNextHop (Topo c)) (Ipv4Addr cfg)) \<and>
     TwampPeer i = TwampHost (twamp_cfg c (Ipv4Addr cfg)) \<and> TwampPort i = TwampCfgPort (twamp_cfg c (Ipv4Addr cfg))"

lemma wan_cfg_options_interface:
  "apply_options (wan_cfg_options client c cfg) fresh_interface = Ok i \<Longrightarrow> wan_object client c cfg i"
  by (auto simp: wan_cfg_options_def wan_object_def OptionInterfaceUpper_def OptionInterfaceLower_def
      OptionInterfaceTwamp_def OptionInterfaceNextHop_def OptionInterfaceUpdateNetFlowId_def bind_outcome_Ok_iff)

lemma set_present_wans: "set (present_wans c names) = {cfg \<in> set (Wan c). CfgUpper cfg \<in> set names}"
  by (auto simp: present_wans_def)

section \<open>The interfaces of a start\<close>

lemma init_lan_Ok:
  assumes "init_lan tm client c names reg = (Ok (), reg')" and "registry_inv reg"
  shows "registry_inv reg' \<and> (\<forall>u. u \<noteq> CfgUpper (Lan c) \<longrightarrow> registered reg' u = registered reg u) \<and>
    (if CfgUpper (Lan c) \<in> set names
     then \<exists>i. registered reg' (CfgUpper (Lan c)) = Some i \<and> Lower i = CfgLower (Lan c) \<and>
       getDnIfIndex client (CfgLower (Lan c)) = Ok (NetFlowId i)
     else registered reg' (CfgUpper (Lan c)) = registered reg (CfgUpper (Lan c)))"
proof (cases "CfgUpper (Lan c) \<in> set names")
  case True
  then have f: "List.find (\<lambda>name. name = CfgUpper (Lan c)) names = Some (CfgUpper (Lan c))"
    by (induction names) auto
  have "new_interfaces tm ''Failed to create local interface. Reason:'' [lan_cfg_options client c (CfgUpper (Lan c))] reg =
      (Ok (), reg')"
    using assms(1) by (simp add: init_lan_def f split: if_splits)
  from new_interfaces_Ok [OF this assms(2)] obtain i where "registry_inv reg'"
    and i: "apply_options (lan_cfg_options client c (CfgUpper (Lan c))) fresh_interface = Ok i"
    and new: "registered reg' (Upper i) = Some i" and old: "\<forall>u. u \<noteq> Upper i \<longrightarrow> registered reg' u = registered reg u"
    by (auto simp: list_all2_Cons1)
  with lan_cfg_options_interface [OF i] True show ?thesis by auto
next
  case False
  then have "List.find (\<lambda>name. name = CfgUpper (Lan c)) names = None" by (auto simp: find_None_iff)
  with assms False show ?thesis by (simp add: init_lan_def)
qed

lemma init_wans_Ok:
  assumes "init_wans tm client c names reg = (Ok (), reg')" and "registry_inv reg"
  shows "registry_inv reg' \<and>
    (\<forall>cfg \<in> set (Wan c). CfgUpper cfg \<in> set names \<longrightarrow>
      (\<exists>i. registered reg' (CfgUpper cfg) = Some i \<and> wan_object client c cfg i)) \<and>
    (\<forall>u. u \<notin> CfgUpper ` {cfg \<in> set (Wan c). CfgUpper cfg \<in> set names} \<longrightarrow> registered reg' u = registered reg u)"
proof -
  from new_interfaces_Ok [OF assms(1) [unfolded init_wans_def] assms(2)] obtain ifcs where "registry_inv reg'"
    and l: "list_all2 (\<lambda>ops i. apply_options ops fresh_interface = Ok i)
      (map (wan_cfg_options client c) (present_wans c names)) ifcs"
    and new: "\<forall>i \<in> set ifcs. registered reg (Upper i) = None \<and> registered reg' (Upper i) = Some i"
    and old: "\<forall>u. u \<notin> Upper ` set ifcs \<longrightarrow> registered reg' u = registered reg u" by blast
  have obj: "list_all2 (wan_object client c) (present_wans c names) ifcs"
    using l by (auto simp: list_all2_map1 intro: list_all2_mono wan_cfg_options_interface)
  have img: "Upper ` set ifcs = CfgUpper ` set (present_wans c names)"
    using obj by (induction rule: list_all2_induct) (auto simp: wan_object_def)
  have each: "\<exists>i. registered reg' (CfgUpper cfg) = Some i \<and> wan_object client c cfg i"
    if m: "cfg \<in> set (present_wans c names)" for cfg
  proof -
    obtain k where k: "k < length (present_wans c names)" "present_wans c names ! k = cfg"
      using m by (auto simp: in_set_conv_nth)
    have "length ifcs = length (present_wans c names)" using list_all2_lengthD [OF obj] by simp
    then have "ifcs ! k \<in> set ifcs" using k(1) by simp
    moreover have "wan_object client c cfg (ifcs ! k)" using list_all2_nthD [OF obj k(1)] k(2) by simp
    moreover from this have "Upper (ifcs ! k) = CfgUpper cfg" by (simp only: wan_object_def)
    ultimately show ?thesis using new by metis
  qed
  show ?thesis
  proof (intro conjI ballI impI allI)
    show "registry_inv reg'" by fact
  next
    fix cfg assume "cfg \<in> set (Wan c)" and "CfgUpper cfg \<in> set names"
    then show "\<exists>i. registered reg' (CfgUpper cfg) = Some i \<and> wan_object client c cfg i"
      by (intro each) (simp add: set_present_wans)
  next
    fix u assume "u \<notin> CfgUpper ` {cfg \<in> set (Wan c). CfgUpper cfg \<in> set names}"
    then have "u \<notin> Upper ` set ifcs" by (simp only: img set_present_wans not_False_eq_True)
    with old show "registered reg' u = registered reg u" by blast
  qed
qed

lemma InitInterfaces_Ok:
  assumes "InitInterfaces env h = (Ok (), h')"
  obtains client ifs reg1 where "grpc_Dial env (grpcAddr h) = Ok client" and "net_Interfaces env = Ok ifs"
    and "init_lan (gnmi_mgr env) client (config h) (map sys_Name ifs) (registry_reset (interfaces h)) = (Ok (), reg1)"
    and "init_wans (gnmi_mgr env) client (config h) (map sys_Name ifs) reg1 = (Ok (), interfaces h')"
    and "h\<lparr>UpdateInterval := sampling_interval env (IfcSamplingInterval (config h)), interfaces := interfaces h'\<rparr> = h'"
proof -
  obtain client where d: "grpc_Dial env (grpcAddr h) = Ok client"
    using assms by (cases "grpc_Dial env (grpcAddr h)") (simp_all add: InitInterfaces_def dial_or_die_def Let_def)
  obtain ifs where n: "net_Interfaces env = Ok ifs"
    using assms d by (cases "net_Interfaces env") (simp_all add: InitInterfaces_def dial_or_die_def sys_names_def Let_def)
  obtain r1 reg1 where lan: "init_lan (gnmi_mgr env) client (config h) (map sys_Name ifs) (registry_reset (interfaces h)) = (r1, reg1)"
    by fastforce
  with assms d n have "r1 = Ok ()"
    by (cases r1) (simp_all add: InitInterfaces_def dial_or_die_def sys_names_def Let_def)
  obtain r2 reg2 where wan: "init_wans (gnmi_mgr env) client (config h) (map sys_Name ifs) reg1 = (r2, reg2)"
    by fastforce
  from assms d n lan wan \<open>r1 = Ok ()\<close> have "r2 = Ok ()" and "h\<lparr>UpdateInterval := sampling_interval env (IfcSamplingInterval (config h)), interfaces := reg2\<rparr> = h'"
    by (simp_all add: InitInterfaces_def dial_or_die_def sys_names_def Let_def)
  with that [OF d n] lan wan \<open>r1 = Ok ()\<close> show ?thesis by fastforce
qed

section \<open>The steering part of a start\<close>

lemma init_lan_keeps: "InitInterfaces env h = (r, h') \<Longrightarrow> hal_steering h' = hal_steering h \<and> config h' = config h"
  by (auto simp: InitInterfaces_def Let_def split: outcome.splits prod.splits)

lemma on_steering_Ok:
  "on_steering f h = (Ok a, h') \<longleftrightarrow> (\<exists>st. f (hal_steering h) = (Ok a, st) \<and> h' = h\<lparr>hal_steering := st\<rparr>)"
  by (auto simp: on_steering_def split: prod.splits)

lemma Init_Ok:
  assumes "Init env h = (Ok (), h')"
  obtains h1 h2 st where
    "InitInterfaces env (h\<lparr>grpcAddr := DnosAddr (config h) @ '':50051'',
       hal_steering := (hal_steering h)\<lparr>aclRules := Map.empty\<rparr>\<rparr>) = (Ok (), h1)"
    and "flush_steer (device_api env) h1 = (Ok (), h2)"
    and "InitNetConf (device_api env) (hal_steering h2) = (Ok (), st)"
    and "h' = h2\<lparr>hal_flows := InitFlows (time_Now env), hal_steering := st, initialized := True\<rparr>"
  using assms by (auto simp: Init_def bind_state_Ok on_steering_Ok)

lemma flush_steer_Ok:
  assumes "flush_steer nc h = (Ok (), h')" and "FlushSteer (config h)"
  obtains r st where "SteeringAclCleanup nc (hal_steering h) = (r, st)" and "h' = h\<lparr>hal_steering := st\<rparr>"
  using assms by (auto simp: flush_steer_def on_steering_def split: outcome.splits prod.splits)

lemma InitNetConf_default_only:
  assumes "netconfSession st" and "getAclRuleFilterXml = Ok f"
    and "Exec nc (device st) f = (Inr [acl_reply xs], d)" and "AclRules_xml [default_acl_rule] = Ok xs"
  shows "InitNetConf nc st = (Ok (), st\<lparr>device := d\<rparr>)"
proof -
  have "readable_rule default_acl_rule"
    by (simp add: readable_rule_def default_acl_rule_def DefaultRuleId_def v4_nexthop_def)
  then have "fetch_rules nc st = (Ok [canonical_rule default_acl_rule], st\<lparr>device := d\<rparr>)"
    using fetch_rules_reply [OF assms(1-4)] by simp
  moreover have "RuleId (canonical_rule default_acl_rule) = DefaultRuleId"
    by (simp add: canonical_rule_def default_acl_rule_def)
  ultimately show ?thesis by (simp add: InitNetConf_def bind_state_def init_rule_def)
qed

section \<open>Serving\<close>

definition collect_interface :: "pb_Interface list InterfaceVisitor" where
  "collect_interface stream upper stats = (None, stream @ [\<lparr>pb_Name = upper, pb_Stats = stats\<rparr>])"

lemma send_all_visit: "send_all reg ps stream = prod.swap (visit_interfaces reg collect_interface ps stream)"
  by (induction ps arbitrary: stream) (auto simp: send_interface_def collect_interface_def split: option.splits)

lemma add_interface_Ok:
  assumes "add_interface env options h = (Ok (), h')" and "registry_inv (interfaces h)"
  obtains client ifc where "grpc_Dial env (grpcAddr h) = Ok client"
    and "apply_options (options client) fresh_interface = Ok ifc"
    and "registered (interfaces h) (Upper ifc) = None" and "registry_inv (interfaces h')"
    and "\<And>u. registered (interfaces h') u = (if u = Upper ifc then Some ifc else registered (interfaces h) u)"
proof -
  obtain client where c: "grpc_Dial env (grpcAddr h) = Ok client"
    using assms(1) by (cases "grpc_Dial env (grpcAddr h)") (simp_all add: add_interface_def)
  have inv: "maps_sound (interfaces h)" "store_bounded (interfaces h)" using assms(2) by (simp_all add: registry_inv_def)
  show ?thesis
  proof (cases rule: NewInterface_cases [of "options client" "interfaces h" "gnmi_mgr env"])
    case (ok ifc)
    with assms(1) c have "interfaces h' = register_interface (gnmi_mgr env) ifc (interfaces h)"
      by (auto simp: add_interface_def)
    with that [OF c ok(1)] inv ok(2) registry_inv_register [OF assms(2) ok(2)] show ?thesis
      by (simp add: registered_None registered_register)
  next
    case (fail r)
    with assms(1) c show ?thesis by (cases r) (auto simp: add_interface_def)
  qed
qed

lemma DeleteInterface_registered:
  assumes "registry_inv (interfaces h)" and "DeleteInterface env upper h = (r, h')"
  shows "registered (interfaces h') u = (if u = upper then None else registered (interfaces h) u)"
  using assms(1)
proof (cases rule: RemoveInterface_cases [where u = upper and tm = "gnmi_mgr env"])
  case absent
  with assms(2) show ?thesis by (auto simp: DeleteInterface_def)
next
  case (gone ifc q m)
  with assms(2) have "interfaces h' = (unregister_interface ifc (interfaces h))\<lparr>monitor := m\<rparr>"
    by (auto simp: DeleteInterface_def)
  moreover have "registered ((unregister_interface ifc (interfaces h))\<lparr>monitor := m\<rparr>) u =
      registered (unregister_interface ifc (interfaces h)) u"
    by (simp add: registered_def deref_def)
  ultimately show ?thesis using gone(2) by (simp add: registered_unregister)
qed

end
