(* ===== verification/HalProps.thy ===== *)
theory HalProps
  imports HalFacts RegistryProps SteerProps PingProps
begin

text \<open>
  The properties of the instance as a whole: what the configuration means once it is loaded,
  which interfaces a start registers, what the servers do to them, and how the parts affect
  each other.
\<close>

section \<open>Loading the configuration\<close>

lemma LoadConfig_Ok:
  assumes "LoadConfig src required c = Ok c'"
  obtains loaded where "loaded = viper_Unmarshal src (c\<lparr>DnosAddr := (case env_DNOS_ADDR src of Some a \<Rightarrow> a | None \<Rightarrow> [])\<rparr>)"
    and "c' = WorkaroundViperDictDotKeyIssue (map_ranges src loaded) loaded"
  using assms by (auto simp: LoadConfig_def Let_def split: option.splits if_splits)

text \<open>
  The topology of the file is found by address: when the keys of its maps have no dots
  (the file writes 10-0-0-1), then after \<open>LoadConfig\<close>, whatever the order of the ranges, the
  entry of an address is the one the file has under the address with dashes, in each of the
  three maps.
\<close>

theorem topology_by_address:
  assumes "LoadConfig src required c = Ok c'"
    and "loaded = viper_Unmarshal src (c\<lparr>DnosAddr := (case env_DNOS_ADDR src of Some a \<Rightarrow> a | None \<Rightarrow> [])\<rparr>)"
    and "t = Topo loaded" and "ord = map_ranges src loaded"
    and "range_order (TopoNextHop t) (nh_order ord)" and "range_order (TopoTwamp t) (twamp_order ord)"
    and "range_order (TopoPeer t) (peer_order ord)"
    and "\<forall>k \<in> dom (TopoNextHop t) \<union> dom (TopoTwamp t) \<union> dom (TopoPeer t). CHR ''.'' \<notin> set k"
    and "CHR ''-'' \<notin> set addr" and "key = replace_char CHR ''.'' CHR ''-'' addr"
  shows "TopoNextHop (Topo c') addr = TopoNextHop t key \<and> TopoTwamp (Topo c') addr = TopoTwamp t key \<and>
    TopoPeer (Topo c') addr = TopoPeer t key"
proof -
  have c': "c' = WorkaroundViperDictDotKeyIssue ord loaded"
    using LoadConfig_Ok [OF assms(1)] assms(2,4) by metis
  have "\<forall>k \<in> dom (TopoNextHop t). CHR ''.'' \<notin> set k" "\<forall>k \<in> dom (TopoTwamp t). CHR ''.'' \<notin> set k"
    "\<forall>k \<in> dom (TopoPeer t). CHR ''.'' \<notin> set k" using assms(8) by blast+
  then show ?thesis
    using fix_keys_lookup [OF assms(5) _ assms(9)] fix_keys_lookup [OF assms(6) _ assms(9)]
      fix_keys_lookup [OF assms(7) _ assms(9)] assms(3,10)
    by (simp add: c' WorkaroundViperDictDotKeyIssue_def)
qed

definition no_ifc :: InterfaceCfg where
  "no_ifc = \<lparr>CfgUpper = [], CfgLower = [], HwAddr = [], Ipv4Addr = []\<rparr>"

definition blank_config :: HalCfg where
  "blank_config = \<lparr>Netconf = \<lparr>User = [], Password = []\<rparr>, DnosAddr = [], LocalIfname = [],
     IfcSamplingInterval = F64 0, FlowThreshold = 0, SkipTwamp = False, FlushSteer = False,
     StatsServer = False, Debug = False, Lan = no_ifc, Wan = [],
     Topo = \<lparr>TopoNextHop = Map.empty, TopoTwamp = Map.empty, TopoPeer = Map.empty\<rparr>\<rparr>"

text \<open>A file with one LAN and one WAN interface, and the next hop of the latter.\<close>

definition halo_file :: "HalCfg \<Rightarrow> HalCfg" where
  "halo_file c = c\<lparr>DnosAddr := ''192.168.0.1'', FlushSteer := True, SkipTwamp := True,
     Lan := \<lparr>CfgUpper = ''halo_local0'', CfgLower = ''ge0'', HwAddr = [], Ipv4Addr = []\<rparr>,
     Wan := [\<lparr>CfgUpper = ''halo0'', CfgLower = ''ge1'', HwAddr = [], Ipv4Addr = ''10.0.0.2''\<rparr>],
     Topo := \<lparr>TopoNextHop = [''10-0-0-2'' \<mapsto> ''10.0.0.1''], TopoTwamp = Map.empty, TopoPeer = Map.empty\<rparr>\<rparr>"

definition halo_source :: "string option \<Rightarrow> config_source" where
  "halo_source env = \<lparr>ReadInConfig = None, viper_Unmarshal = halo_file, env_DNOS_ADDR = env,
     map_ranges = (\<lambda>c. \<lparr>nh_order = [''10-0-0-2''], twamp_order = [], peer_order = []\<rparr>)\<rparr>"

definition halo_config :: HalCfg where
  "halo_config = (halo_file blank_config)\<lparr>Topo := \<lparr>TopoNextHop = [''10.0.0.2'' \<mapsto> ''10.0.0.1''],
     TopoTwamp = Map.empty, TopoPeer = Map.empty\<rparr>\<rparr>"

lemma halo_loaded_ok: "LoadConfig (halo_source env) True blank_config = Ok halo_config"
  by (simp add: LoadConfig_def halo_source_def WorkaroundViperDictDotKeyIssue_def fix_keys_def dash_to_dot_def
      replace_char_def halo_file_def halo_config_def blank_config_def)

definition halo_loaded :: HalCfg where
  "halo_loaded = halo_file blank_config"

lemma halo_loaded_from:
  "halo_loaded = viper_Unmarshal (halo_source None)
     (blank_config\<lparr>DnosAddr := (case env_DNOS_ADDR (halo_source None) of Some a \<Rightarrow> a | None \<Rightarrow> [])\<rparr>)"
  by (simp add: halo_source_def halo_loaded_def blank_config_def)

lemma halo_topo:
  "TopoNextHop (Topo halo_loaded) = [''10-0-0-2'' \<mapsto> ''10.0.0.1'']" "TopoTwamp (Topo halo_loaded) = Map.empty"
  "TopoPeer (Topo halo_loaded) = Map.empty"
  "map_ranges (halo_source e) c = \<lparr>nh_order = [''10-0-0-2''], twamp_order = [], peer_order = []\<rparr>"
  by (simp_all add: halo_loaded_def halo_file_def halo_source_def)

theorem topology_by_address_witness:
  "TopoNextHop (Topo halo_config) ''10.0.0.2'' = Some ''10.0.0.1''"
proof -
  have "TopoNextHop (Topo halo_config) ''10.0.0.2'' = TopoNextHop (Topo halo_loaded) ''10-0-0-2'' \<and>
      TopoTwamp (Topo halo_config) ''10.0.0.2'' = TopoTwamp (Topo halo_loaded) ''10-0-0-2'' \<and>
      TopoPeer (Topo halo_config) ''10.0.0.2'' = TopoPeer (Topo halo_loaded) ''10-0-0-2''"
    by (rule topology_by_address [OF halo_loaded_ok halo_loaded_from refl refl])
      (simp_all add: halo_topo range_order_def replace_char_def)
  then show ?thesis by (simp add: halo_topo)
qed

text \<open>
  The environment does not override the file: \<open>DNOS_ADDR\<close> is read before the file is
  unmarshalled, so that with a file that sets the address (and an unmarshalling that writes what
  the file sets and leaves the rest) the address is the file's whatever the environment says,
  and the environment counts only without one.
\<close>

theorem file_beats_environment:
  assumes "LoadConfig src required c = Ok c'"
    and "\<And>c. DnosAddr (viper_Unmarshal src c) = (case set_in_file of Some a \<Rightarrow> a | None \<Rightarrow> DnosAddr c)"
  shows "DnosAddr c' = (case set_in_file of Some a \<Rightarrow> a
    | None \<Rightarrow> (case env_DNOS_ADDR src of Some a \<Rightarrow> a | None \<Rightarrow> []))"
proof -
  obtain loaded where "loaded = viper_Unmarshal src (c\<lparr>DnosAddr := (case env_DNOS_ADDR src of Some a \<Rightarrow> a | None \<Rightarrow> [])\<rparr>)"
    and c': "c' = WorkaroundViperDictDotKeyIssue (map_ranges src loaded) loaded"
    by (rule LoadConfig_Ok [OF assms(1)])
  then have "DnosAddr c' = DnosAddr loaded" and "DnosAddr loaded = (case set_in_file of Some a \<Rightarrow> a
      | None \<Rightarrow> (case env_DNOS_ADDR src of Some a \<Rightarrow> a | None \<Rightarrow> []))"
    using assms(2) by (cases set_in_file; simp add: WorkaroundViperDictDotKeyIssue_def)+
  then show ?thesis by simp
qed

theorem file_beats_environment_witness:
  "DnosAddr halo_config = ''192.168.0.1'' \<and> env_DNOS_ADDR (halo_source (Some ''10.9.9.9'')) = Some ''10.9.9.9''"
  using file_beats_environment [OF halo_loaded_ok [of "Some ''10.9.9.9''"], of "Some ''192.168.0.1''"]
  by (simp add: halo_source_def halo_file_def)

section \<open>A small instance\<close>

text \<open>A device that reports an index per port, and the instance before it is started.\<close>

definition halo_client :: "string gnmi_client" where
  "halo_client = \<lparr>StringToPath = Ok, GnmiGet = (\<lambda>p. Ok [[\<lparr>UpdPath = [],
     JsonVal = (if p = ifIndexPath ''ge0'' then ''1'' else ''2'')\<rparr>]])\<rparr>"

definition halo_ifs :: "net_interface list" where
  "halo_ifs = map (\<lambda>n. \<lparr>sys_Name = n, sys_HardwareAddr = []\<rparr>) [''lo'', ''halo0'', ''halo_local0'']"

definition halo_env :: "xml list \<Rightarrow> (string, string list, unit) hal_env" where
  "halo_env xs = \<lparr>grpc_Dial = (\<lambda>addr. Ok halo_client), gnmi_mgr = name_manager,
     net_Interfaces = Ok halo_ifs,
     device_api = reply_device xs, Config_source = halo_source None,
     sampling_interval = (\<lambda>x. 1000000000), time_Now = 0\<rparr>"

definition halo_start :: "(string list, unit) hal" where
  "halo_start = \<lparr>initialized = False, grpcAddr = ''192.168.0.1:50051'', UpdateInterval = 0, interfaces = empty_registry,
     hal_flows = InitFlows 0, hal_steering = fresh_process, config = halo_config, configRequired = True\<rparr>"

lemma halo_index:
  "getDnIfIndex halo_client ''ge0'' = Ok 1" "getDnIfIndex halo_client ''ge1'' = Ok 2"
  by (simp_all add: getDnIfIndex_def halo_client_def ifIndexPath_def json_uint32_def json_trim_def
      json_blank_def ParseUint_def is_digit_def digit_val_def)

definition halo_lan :: Interface where
  "halo_lan = fresh_interface\<lparr>Upper := ''halo_local0'', Lower := ''ge0'', NetFlowId := 1\<rparr>"

definition halo_wan :: Interface where
  "halo_wan = fresh_interface\<lparr>Upper := ''halo0'', Lower := ''ge1'', TwampPeer := [], TwampPort := 0,
     IfNextHop := IPv4 10 0 0 1, NetFlowId := 2\<rparr>"

lemma halo_config_fields:
  "Lan halo_config = \<lparr>CfgUpper = ''halo_local0'', CfgLower = ''ge0'', HwAddr = [], Ipv4Addr = []\<rparr>"
  "Wan halo_config = [\<lparr>CfgUpper = ''halo0'', CfgLower = ''ge1'', HwAddr = [], Ipv4Addr = ''10.0.0.2''\<rparr>]"
  "TopoNextHop (Topo halo_config) ''10.0.0.2'' = Some ''10.0.0.1''" "TopoTwamp (Topo halo_config) = Map.empty"
  "FlushSteer halo_config" "SkipTwamp halo_config"
  by (simp_all add: halo_config_def halo_file_def)

lemma halo_objects:
  "apply_options (lan_cfg_options halo_client halo_config ''halo_local0'') fresh_interface = Ok halo_lan"
  "apply_options (wan_cfg_options halo_client halo_config \<lparr>CfgUpper = ''halo0'', CfgLower = ''ge1'', HwAddr = [],
     Ipv4Addr = ''10.0.0.2''\<rparr>) fresh_interface = Ok halo_wan"
  by (simp_all add: lan_cfg_options_def wan_cfg_options_def OptionInterfaceUpper_def OptionInterfaceLower_def
      OptionInterfaceUpdateNetFlowId_def OptionInterfaceTwamp_def OptionInterfaceNextHop_def halo_config_fields
      halo_index halo_lan_def halo_wan_def twamp_cfg_def key_or_empty_def)

lemma fresh_process_empty: "fresh_process\<lparr>aclRules := Map.empty\<rparr> = fresh_process"
  by (simp add: fresh_process_def)

lemma halo_uppers: "Upper halo_lan = ''halo_local0''" "Upper halo_wan = ''halo0''"
  by (simp_all add: halo_lan_def halo_wan_def)

lemma halo_registers:
  assumes "config h = halo_config" and "interfaces h = empty_registry"
  shows "\<exists>h'. InitInterfaces (halo_env xs) h = (Ok (), h')"
  using assms by (simp add: InitInterfaces_def Let_def halo_env_def halo_ifs_def dial_or_die_def sys_names_def
      init_lan_def init_wans_def halo_config_fields present_wans_def NewInterface_def halo_objects halo_uppers)

section \<open>Starting\<close>

text \<open>
  \<^bold>\<open>C11\<close>. A successful \<open>InitInterfaces\<close> registers the configured interfaces that the system has:
  the registry is consistent, a name is registered exactly if it is the name of a system
  interface and of the LAN or a WAN interface of the configuration, the LAN interface has its
  configured lower name, and every present WAN interface its lower name, the index the device
  reports for it, and the next hop and TWAMP endpoint the topology has for its address.
\<close>

theorem InitInterfaces_registers:
  assumes "InitInterfaces env h = (Ok (), h')" and "store_bounded (interfaces h)"
    and "c = config h" and "net_Interfaces env = Ok ifs" and "present = sys_Name ` set ifs"
  shows "registry_inv (interfaces h') \<and>
    (\<forall>u. registered (interfaces h') u \<noteq> None \<longleftrightarrow>
      u \<in> present \<and> (u = CfgUpper (Lan c) \<or> u \<in> CfgUpper ` set (Wan c))) \<and>
    (CfgUpper (Lan c) \<in> present \<longrightarrow> (\<exists>i. registered (interfaces h') (CfgUpper (Lan c)) = Some i \<and>
      (CfgUpper (Lan c) \<notin> CfgUpper ` set (Wan c) \<longrightarrow> Lower i = CfgLower (Lan c)))) \<and>
    (\<exists>client. grpc_Dial env (grpcAddr h) = Ok client \<and>
      (\<forall>cfg \<in> set (Wan c). CfgUpper cfg \<in> present \<longrightarrow>
        (\<exists>i. registered (interfaces h') (CfgUpper cfg) = Some i \<and> wan_object client c cfg i)))"
proof -
  obtain client reg1 where d: "grpc_Dial env (grpcAddr h) = Ok client"
    and lan: "init_lan (gnmi_mgr env) client c (map sys_Name ifs) (registry_reset (interfaces h)) = (Ok (), reg1)"
    and wan: "init_wans (gnmi_mgr env) client c (map sys_Name ifs) reg1 = (Ok (), interfaces h')"
    using InitInterfaces_Ok [OF assms(1)] assms(3,4) by (metis outcome.inject(1))
  have names: "set (map sys_Name ifs) = present" using assms(5) by simp
  have none: "registered (registry_reset (interfaces h)) u = None" for u
    by (simp add: registered_def deref_def)
  note L = init_lan_Ok [OF lan registry_inv_reset [OF assms(2)], unfolded names none]
  note W = init_wans_Ok [OF wan L [THEN conjunct1], unfolded names]
  have wan_in: "\<exists>i. registered (interfaces h') (CfgUpper cfg) = Some i \<and> wan_object client c cfg i"
    if "cfg \<in> set (Wan c)" and "CfgUpper cfg \<in> present" for cfg
    using W [THEN conjunct2, THEN conjunct1, rule_format, OF that] .
  have other: "registered (interfaces h') u = registered reg1 u"
    if "\<not> (u \<in> present \<and> u \<in> CfgUpper ` set (Wan c))" for u
  proof (rule W [THEN conjunct2, THEN conjunct2, rule_format])
    show "u \<notin> CfgUpper ` {cfg \<in> set (Wan c). CfgUpper cfg \<in> present}" using that by auto
  qed
  have reg1: "registered reg1 u \<noteq> None \<longleftrightarrow> u \<in> present \<and> u = CfgUpper (Lan c)" for u
    using L by (cases "u = CfgUpper (Lan c)") (auto split: if_splits)
  have "registered (interfaces h') u \<noteq> None \<longleftrightarrow>
      u \<in> present \<and> (u = CfgUpper (Lan c) \<or> u \<in> CfgUpper ` set (Wan c))" for u
  proof (cases "u \<in> present \<and> u \<in> CfgUpper ` set (Wan c)")
    case True
    with wan_in show ?thesis by auto
  next
    case False
    with other [OF False] reg1 [of u] show ?thesis by auto
  qed
  moreover have "\<exists>i. registered (interfaces h') (CfgUpper (Lan c)) = Some i \<and>
      (CfgUpper (Lan c) \<notin> CfgUpper ` set (Wan c) \<longrightarrow> Lower i = CfgLower (Lan c))" if p: "CfgUpper (Lan c) \<in> present"
  proof (cases "CfgUpper (Lan c) \<in> CfgUpper ` set (Wan c)")
    case True
    with calculation [of "CfgUpper (Lan c)"] p show ?thesis by auto
  next
    case False
    then have "registered (interfaces h') (CfgUpper (Lan c)) = registered reg1 (CfgUpper (Lan c))" using other by blast
    with L p show ?thesis by auto
  qed
  ultimately show ?thesis using W d wan_in by blast
qed

theorem InitInterfaces_registers_witness:
  "\<exists>h' i. InitInterfaces (halo_env []) halo_start = (Ok (), h') \<and>
     registered (interfaces h') ''halo0'' = Some i \<and> Lower i = ''ge1'' \<and> IfNextHop i = IPv4 10 0 0 1"
proof -
  have "config halo_start = halo_config" "interfaces halo_start = empty_registry" by (simp_all add: halo_start_def)
  from halo_registers [OF this] obtain h' where h': "InitInterfaces (halo_env []) halo_start = (Ok (), h')" by blast
  have "store_bounded (interfaces halo_start)" by (simp add: halo_start_def)
  have cfg: "config halo_start = halo_config" and ifs: "net_Interfaces (halo_env []) = Ok halo_ifs"
    by (simp_all add: halo_start_def halo_env_def)
  let ?wan = "\<lparr>CfgUpper = ''halo0'', CfgLower = ''ge1'', HwAddr = [], Ipv4Addr = ''10.0.0.2''\<rparr>"
  obtain client :: "string gnmi_client" where *: "\<forall>cfg \<in> set (Wan halo_config). CfgUpper cfg \<in> sys_Name ` set halo_ifs \<longrightarrow>
      (\<exists>i. registered (interfaces h') (CfgUpper cfg) = Some i \<and> wan_object client halo_config cfg i)"
    using InitInterfaces_registers [OF h' \<open>store_bounded (interfaces halo_start)\<close> refl ifs refl, unfolded cfg] by blast
  have "?wan \<in> set (Wan halo_config)" "CfgUpper ?wan \<in> sys_Name ` set halo_ifs"
    by (simp_all add: halo_config_fields halo_ifs_def)
  with * obtain i where "registered (interfaces h') (CfgUpper ?wan) = Some i" and "wan_object client halo_config ?wan i"
    by blast
  with h' show ?thesis by (auto simp: wan_object_def key_or_empty_def halo_config_fields)
qed

section \<open>A start with a clean device\<close>

text \<open>
  \<^bold>\<open>C32\<close>. A start that flushes begins with no rules: with \<open>FlushSteer\<close> set, when the device
  afterwards returns the default rule only, a successful \<open>Init\<close> leaves an empty rule cache,
  whose size the statistics service reports as 0, no flows, and the id to be given out next
  where it was.
\<close>

theorem flush_starts_empty:
  assumes "Init env h = (Ok (), h')" and "FlushSteer (config h)"
    and "SteeringAclCleanup (device_api env) ((hal_steering h)\<lparr>aclRules := Map.empty\<rparr>) = (r, st)"
    and "netconfSession st" and "getAclRuleFilterXml = Ok f" and "AclRules_xml [default_acl_rule] = Ok xs"
    and "Exec (device_api env) (device st) f = (Inr [acl_reply xs], d)"
  shows "aclRules (hal_steering h') = Map.empty \<and> GetAclCacheSize h' = 0 \<and>
    accessListID (hal_steering h') = accessListID (hal_steering h) \<and>
    flows_aggregate (hal_flows h') = Map.empty \<and> initialized h'"
proof -
  obtain h1 h2 st2 where 1: "InitInterfaces env (h\<lparr>grpcAddr := DnosAddr (config h) @ '':50051'',
       hal_steering := (hal_steering h)\<lparr>aclRules := Map.empty\<rparr>\<rparr>) = (Ok (), h1)"
    and 2: "flush_steer (device_api env) h1 = (Ok (), h2)"
    and 3: "InitNetConf (device_api env) (hal_steering h2) = (Ok (), st2)"
    and h': "h' = h2\<lparr>hal_flows := InitFlows (time_Now env), hal_steering := st2, initialized := True\<rparr>"
    by (rule Init_Ok [OF assms(1)])
  from init_lan_keeps [OF 1] have h1: "hal_steering h1 = (hal_steering h)\<lparr>aclRules := Map.empty\<rparr>" "FlushSteer (config h1)"
    using assms(2) by simp_all
  have "hal_steering h2 = st"
    by (rule flush_steer_Ok [OF 2 h1(2)]) (use assms(3) h1(1) in simp)
  moreover have "InitNetConf (device_api env) st = (Ok (), st\<lparr>device := d\<rparr>)"
    by (rule InitNetConf_default_only [OF assms(4,5,7,6)])
  ultimately have st2: "st2 = st\<lparr>device := d\<rparr>" using 3 by simp
  have "aclRules st = Map.empty" "accessListID st = accessListID (hal_steering h)"
    using SteeringAclCleanup_keeps [OF assms(3)] by (simp_all add: acl_state_def)
  then show ?thesis by (simp add: h' st2 GetAclCacheSize_def InitFlows_def)
qed

lemma halo_cleanup:
  assumes "AclRules_xml [default_acl_rule] = Ok xs"
  shows "SteeringAclCleanup (reply_device xs) fresh_process = (Ok (), fresh_process)"
proof -
  have c: "configure_rules (reply_device xs) [default_acl_rule] fresh_process = (Ok (), fresh_process)"
    using assms by (simp add: configure_rules_def getAclRuleConfigXml_doc bind_state_def session_Exec_def
        reply_device_def commitChanges_def NetConfConnector_def fresh_process_def)
  show ?thesis
    using c by (simp add: SteeringAclCleanup_def bind_state_def getAclRulesDeleteXml_doc NetConfConnector_def
        session_Exec_def reply_device_def fresh_process_def)
qed

theorem flush_starts_empty_witness:
  "\<exists>xs h'. Init (halo_env xs) halo_start = (Ok (), h') \<and> aclRules (hal_steering h') = Map.empty \<and> GetAclCacheSize h' = 0"
proof -
  have "encodable_nexthop default_acl_rule" by (simp add: encodable_nexthop_def default_acl_rule_def)
  then obtain xs where xs: "AclRules_xml [default_acl_rule] = Ok xs" using AclRules_xml_Ok [of "[default_acl_rule]"] by auto
  obtain f where f: "getAclRuleFilterXml = Ok f" using filter_marshals by blast
  let ?h = "halo_start\<lparr>grpcAddr := DnosAddr (config halo_start) @ '':50051'',
      hal_steering := (hal_steering halo_start)\<lparr>aclRules := Map.empty\<rparr>\<rparr>"
  have st: "hal_steering ?h = fresh_process" by (simp add: halo_start_def fresh_process_def)
  have "config ?h = halo_config" "interfaces ?h = empty_registry" by (simp_all add: halo_start_def)
  from halo_registers [OF this] obtain h1 where h1: "InitInterfaces (halo_env xs) ?h = (Ok (), h1)" by blast
  have api: "device_api (halo_env xs) = reply_device xs" by (simp add: halo_env_def)
  have "flush_steer (reply_device xs) h1 = (Ok (), h1\<lparr>hal_steering := fresh_process\<rparr>)"
    using init_lan_keeps [OF h1] st halo_cleanup [OF xs]
    by (simp add: flush_steer_def on_steering_def halo_start_def halo_config_fields fresh_process_empty)
  moreover have e: "Exec (reply_device xs) (device fresh_process) f = (Inr [acl_reply xs], ())"
    by (simp add: reply_device_def)
  then have "InitNetConf (reply_device xs) fresh_process = (Ok (), fresh_process)"
    using InitNetConf_default_only [OF _ f e xs] by (simp add: fresh_process_def)
  ultimately obtain h' where h': "Init (halo_env xs) halo_start = (Ok (), h')"
    using h1 api by (simp add: Init_def bind_state_def on_steering_def)
  have "FlushSteer (config halo_start)" by (simp add: halo_start_def halo_config_fields)
  have "(hal_steering halo_start)\<lparr>aclRules := Map.empty\<rparr> = fresh_process"
    by (simp add: halo_start_def fresh_process_def)
  then have "SteeringAclCleanup (device_api (halo_env xs)) ((hal_steering halo_start)\<lparr>aclRules := Map.empty\<rparr>) =
      (Ok (), fresh_process)"
    using halo_cleanup [OF xs] api by simp
  from flush_starts_empty [OF h' \<open>FlushSteer (config halo_start)\<close> this _ f xs] e api h' show ?thesis by auto
qed

end
