(* ===== verification/ServerProps.thy ===== *)
theory ServerProps
  imports HalProps
begin

text \<open>
  The properties of the services over a running instance: adding and deleting interfaces, the
  statistics stream, and how a TWAMP measurement can stop the whole monitor.
\<close>

section \<open>Management\<close>

lemma AddWanInterface_Ok:
  assumes "AddWanInterface env args h = (Ok (), h')"
  obtains peer port where "parseTwampAddr (arg_Twamp args) = Ok (peer, port)"
    and "add_interface env (\<lambda>client.
       [OptionInterfaceUpper (arg_Upper args), OptionInterfaceLower (arg_Lower args),
        OptionInterfaceTwamp peer port, OptionInterfaceNextHop (arg_NextHop args),
        OptionInterfaceUpdateNetFlowId client]) h = (Ok (), h')"
  using assms by (auto simp: AddWanInterface_def bind_state_Ok)

text \<open>
  \<^bold>\<open>C31\<close>. What is added can be used and taken away: a successful \<open>AddWanInterface\<close> registers,
  under a name that was free, one interface with the lower name, next hop and index asked for
  and the parsed TWAMP endpoint, keeps the registry consistent and every other registration,
  and \<open>DeleteInterface\<close> of that name, whatever it returns, restores the registrations.
\<close>

theorem add_delete_roundtrip:
  assumes "AddWanInterface env args h = (Ok (), h')" and "registry_inv (interfaces h)"
    and "DeleteInterface env (arg_Upper args) h' = (r, h'')"
  shows "registered (interfaces h) (arg_Upper args) = None \<and> registry_inv (interfaces h') \<and>
    (\<exists>i client peer port. registered (interfaces h') (arg_Upper args) = Some i \<and>
      grpc_Dial env (grpcAddr h) = Ok client \<and> parseTwampAddr (arg_Twamp args) = Ok (peer, port) \<and>
      Lower i = arg_Lower args \<and> IfNextHop i = ParseIP (arg_NextHop args) \<and>
      TwampPeer i = peer \<and> TwampPort i = port \<and> getDnIfIndex client (arg_Lower args) = Ok (NetFlowId i)) \<and>
    (\<forall>u. u \<noteq> arg_Upper args \<longrightarrow> registered (interfaces h') u = registered (interfaces h) u) \<and>
    (\<forall>u. registered (interfaces h'') u = registered (interfaces h) u)"
proof -
  obtain peer port where p: "parseTwampAddr (arg_Twamp args) = Ok (peer, port)"
    and add: "add_interface env (\<lambda>client.
       [OptionInterfaceUpper (arg_Upper args), OptionInterfaceLower (arg_Lower args),
        OptionInterfaceTwamp peer port, OptionInterfaceNextHop (arg_NextHop args),
        OptionInterfaceUpdateNetFlowId client]) h = (Ok (), h')"
    by (rule AddWanInterface_Ok [OF assms(1)])
  obtain client ifc where c: "grpc_Dial env (grpcAddr h) = Ok client"
    and ops: "apply_options [OptionInterfaceUpper (arg_Upper args), OptionInterfaceLower (arg_Lower args),
        OptionInterfaceTwamp peer port, OptionInterfaceNextHop (arg_NextHop args),
        OptionInterfaceUpdateNetFlowId client] fresh_interface = Ok ifc"
    and free: "registered (interfaces h) (Upper ifc) = None" and inv: "registry_inv (interfaces h')"
    and reg: "\<And>u. registered (interfaces h') u = (if u = Upper ifc then Some ifc else registered (interfaces h) u)"
    by (rule add_interface_Ok [OF add assms(2)]) blast
  have ifc: "Upper ifc = arg_Upper args \<and> Lower ifc = arg_Lower args \<and> IfNextHop ifc = ParseIP (arg_NextHop args) \<and>
      TwampPeer ifc = peer \<and> TwampPort ifc = port \<and> getDnIfIndex client (arg_Lower args) = Ok (NetFlowId ifc)"
    using ops by (auto simp: OptionInterfaceUpper_def OptionInterfaceLower_def OptionInterfaceTwamp_def
        OptionInterfaceNextHop_def OptionInterfaceUpdateNetFlowId_def bind_outcome_Ok_iff)
  have "registered (interfaces h'') u = registered (interfaces h) u" for u
    using DeleteInterface_registered [OF inv assms(3), of u] reg [of u] free ifc by auto
  with c p ifc free inv reg show ?thesis by auto
qed

lemma parse_twamp_examples:
  "parseTwampAddr ''10.0.0.1:900'' = Ok (''10.0.0.1'', 900)" "parseTwampAddr ''10.0.0.1'' = Ok (''10.0.0.1'', 862)"
  by (simp_all add: parseTwampAddr_def DEFAULT_TWAMP_PORT_def ParseUint_def is_digit_def digit_val_def)

definition halo1_args :: AddWanInterfaceArgs where
  "halo1_args = \<lparr>arg_Upper = ''halo1'', arg_Lower = ''ge1'', arg_NextHop = ''10.0.0.1'', arg_Twamp = ''10.0.0.1:900''\<rparr>"

definition halo_running :: "(string list, unit) hal" where
  "halo_running = halo_start\<lparr>interfaces := registry_reset empty_registry\<rparr>"

theorem add_delete_roundtrip_witness:
  "\<exists>h' i r h''. AddWanInterface (halo_env []) halo1_args halo_running = (Ok (), h') \<and>
     registered (interfaces h') ''halo1'' = Some i \<and> TwampPort i = 900 \<and>
     DeleteInterface (halo_env []) ''halo1'' h' = (r, h'') \<and> registered (interfaces h'') ''halo1'' = None"
proof -
  have inv: "registry_inv (interfaces halo_running)" by (simp add: halo_running_def registry_inv_reset)
  obtain h' where h': "AddWanInterface (halo_env []) halo1_args halo_running = (Ok (), h')"
    by (simp add: AddWanInterface_def bind_state_def halo1_args_def parse_twamp_examples add_interface_def
        halo_env_def halo_running_def NewInterface_def OptionInterfaceUpper_def OptionInterfaceLower_def
        OptionInterfaceTwamp_def OptionInterfaceNextHop_def OptionInterfaceUpdateNetFlowId_def halo_index)
  obtain r h'' where d: "DeleteInterface (halo_env []) (arg_Upper halo1_args) h' = (r, h'')" by fastforce
  from add_delete_roundtrip [OF h' inv d] obtain i where "registered (interfaces h') (arg_Upper halo1_args) = Some i"
    and "parseTwampAddr (arg_Twamp halo1_args) = Ok (TwampPeer i, TwampPort i)"
    and "registered (interfaces h'') (arg_Upper halo1_args) = None" by auto
  with h' d show ?thesis by (auto simp: halo1_args_def parse_twamp_examples)
qed

section \<open>Statistics\<close>

text \<open>
  The statistics service and the library report the same: the stream that
  \<open>GetInterfaces\<close> of the service sends is what a visitor that notes every name with its
  telemetry collects from \<open>GetInterfaces\<close> of the instance, in the same order and with the same
  outcome.
\<close>

theorem stats_stream_is_visit:
  "StatsServer_GetInterfaces h = prod.swap (GetInterfaces (interfaces h) collect_interface [])"
  by (simp add: StatsServer_GetInterfaces_def GetInterfaces_def GetLanInterfaces_def GetWanInterfaces_def
      send_all_visit Let_def split: prod.splits outcome.splits)

section \<open>The monitor\<close>

text \<open>
  A lost TWAMP reply stops all telemetry: when at a tick fewer than the five replies of
  the first test to be run arrive, the monitor waits in \<open>RunX\<close> for ever; no later update of any
  interface's speed, counters or delay reaches the registry.
\<close>

theorem lost_reply_stops_monitor:
  assumes "mon_tests s upper = Some tt" and "sane_padding tt" and "length (udp_pending tt) < 5"
  shows "\<exists>s'. monitor_loop fe False (DelayTick (upper # uppers) probes # es) s = (Blocked, s') \<and>
    mon_registry s' = mon_registry s"
proof -
  let ?ps = "map (probes upper) [0..<5]"
  have "length (udp_pending tt) < length ?ps" using assms(3) by simp
  from probe_loop_blocks [OF assms(2) this, of "tick_zone fe" 0 empty_tally] obtain tt' where
    "probe_loop (tick_zone fe) 0 ?ps empty_tally tt = (Blocked, tt')" by (metis prod.collapse)
  then have "RunX (float_ops fe) (tick_zone fe) ?ps tt = (Blocked, tt')"
    unfolding RunX_def bind_state_def by (simp only: prod.case outcome.case)
  with assms(1) show ?thesis
    by (simp add: monitor_step_def bind_state_def del: upt_Suc)
qed

definition halo_floats :: "int float_env" where
  "halo_floats = \<lparr>float_ops = whole_ops, as_millis = F64, tick_zone = 0\<rparr>"

definition halo_monitoring :: "string list monitoring" where
  "halo_monitoring = \<lparr>mon_registry = one_wan, mon_tests = [''halo0'' \<mapsto> demo_test [demo_reply 0 july]]\<rparr>"

theorem lost_reply_stops_monitor_witness:
  "\<exists>s'. monitor_loop halo_floats False
      [DelayTick [''halo0''] (\<lambda>u n. demo_probe july), SpeedUpdate \<lparr>IfuName = ''ge1'', IfuStats = zero_telemetry\<lparr>Speed := 7\<rparr>\<rparr>]
      halo_monitoring = (Blocked, s') \<and> mon_registry s' = one_wan"
  using lost_reply_stops_monitor [of halo_monitoring "''halo0''" "demo_test [demo_reply 0 july]" halo_floats "[]"]
  by (simp add: halo_monitoring_def demo_facts del: monitor_loop.simps)

end
