(* ===== verification/XmlTokens.thy ===== *)
theory XmlTokens
  imports Xml
begin

text \<open>
  Reading a reply token by token, as the loops over \<open>Decoder.Token\<close> do. The tokens of a
  document are those of its tree; the start of an element carries the element's content, which
  \<open>DecodeElement\<close> takes together with the tokens up to its end. A reply has been parsed once
  by the NETCONF client, so that its tokens never end in a syntax error.
\<close>

datatype token = StartElement string "xml list" | EndElement | CharData string

fun tokens :: "xml list \<Rightarrow> token list" where
  "tokens [] = []"
| "tokens (CData s # xs) = CharData s # tokens xs"
| "tokens (Elem sp n at kids # xs) = StartElement n kids # tokens kids @ EndElement # tokens xs"

lemma tokens_append: "tokens (xs @ ys) = tokens xs @ tokens ys"
  by (induction xs rule: tokens.induct) auto

text \<open>What is left after an element has been decoded.\<close>

definition after_element :: "xml list \<Rightarrow> token list \<Rightarrow> token list" where
  "after_element kids ts = drop (Suc (length (tokens kids))) ts"

lemma after_element_tokens: "after_element kids (tokens kids @ EndElement # ts) = ts"
  by (simp add: after_element_def)

lemma length_after_element: "length (after_element kids ts) \<le> length ts"
  by (simp add: after_element_def)

text \<open>The peek at the token after \<open><name>\<close>: it is consumed, and is the name if it is text.\<close>

definition read_name :: "string \<Rightarrow> token list \<Rightarrow> string \<times> token list" where
  "read_name ifc ts =
     (case ts of
        CharData s # rest \<Rightarrow> (s, rest)
      | _ # rest \<Rightarrow> (ifc, rest)
      | [] \<Rightarrow> (ifc, []))"

lemma length_read_name: "read_name ifc ts = (ifc', ts') \<Longrightarrow> length ts' \<le> length ts"
  by (auto simp: read_name_def split: list.splits token.splits)

text \<open>
  The loop shared by the two searches for an interface: the last name seen, and a decision on
  every \<open>config-items\<close> element whether it is the one.
\<close>

function find_interface :: "(xml list \<Rightarrow> bool) \<Rightarrow> string \<Rightarrow> token list \<Rightarrow> string option" where
  "find_interface wanted ifc [] = None"
| "find_interface wanted ifc (StartElement n kids # ts) =
     (if n = ''name'' then find_interface wanted (fst (read_name ifc ts)) (snd (read_name ifc ts))
      else if n = ''config-items'' then
        (if wanted kids then Some ifc else find_interface wanted ifc (after_element kids ts))
      else find_interface wanted ifc ts)"
| "find_interface wanted ifc (EndElement # ts) = find_interface wanted ifc ts"
| "find_interface wanted ifc (CharData s # ts) = find_interface wanted ifc ts"
  by pat_completeness auto

termination
  by (relation "measure (\<lambda>(w, ifc, ts). length ts)")
    (auto simp: less_Suc_eq_le length_after_element dest: length_read_name split: prod.splits)

section \<open>The search on a list of interfaces\<close>

text \<open>An interface of the reply: its name, then addresses with their configuration items.\<close>

definition address_xml :: "xml list \<Rightarrow> xml" where
  "address_xml items = elem ''address'' [elem ''config-items'' items]"

definition interface_xml :: "string \<times> xml list list \<Rightarrow> xml" where
  "interface_xml i = elem ''interface''
     [text_elem ''name'' (fst i), elem ''ipv4'' [elem ''addresses'' (map address_xml (snd i))]]"

definition interfaces_xml :: "(string \<times> xml list list) list \<Rightarrow> xml list" where
  "interfaces_xml is = [elem ''data'' [elem ''drivenets-top'' [elem ''interfaces'' (map interface_xml is)]]]"

lemma find_addresses:
  "find_interface wanted ifc (tokens (map address_xml as) @ ts) =
    (if \<exists>a \<in> set as. wanted a then Some ifc else find_interface wanted ifc ts)"
  by (induction as) (simp_all add: address_xml_def elem_def after_element_tokens)

lemma find_interface_list:
  "find_interface wanted ifc (tokens (map interface_xml is) @ ts) =
    (case List.find (\<lambda>i. \<exists>a \<in> set (snd i). wanted a) is of
       Some i \<Rightarrow> Some (fst i)
     | None \<Rightarrow> find_interface wanted (if is = [] then ifc else fst (last is)) ts)"
proof (induction "is" arbitrary: ifc)
  case (Cons i "is")
  have "find_interface wanted ifc (tokens (map interface_xml (i # is)) @ ts) =
      (if \<exists>a \<in> set (snd i). wanted a then Some (fst i)
       else find_interface wanted (fst i) (tokens (map interface_xml is) @ ts))"
    by (simp add: interface_xml_def text_elem_def elem_def read_name_def find_addresses)
  with Cons show ?case by (auto split: option.splits)
qed simp

lemma find_interface_reply:
  "find_interface wanted [] (tokens (interfaces_xml is)) =
     map_option fst (List.find (\<lambda>i. \<exists>a \<in> set (snd i). wanted a) is)"
proof -
  have "find_interface wanted ifc [EndElement, EndElement, EndElement] = None" for ifc by simp
  then show ?thesis
    using find_interface_list [of wanted "[]" "is" "[EndElement, EndElement, EndElement]"]
    by (simp add: interfaces_xml_def elem_def split: option.splits)
qed

end
