(* ===== verification/IPNet.thy ===== *)
theory IPNet
  imports NetIP
begin

text \<open>
  Networks of Go's \<open>net\<close> package as the tunnel code uses them: \<open>IPNet.Contains\<close> and
  \<open>IPMask.Size\<close>.
\<close>

definition networkNumberAndMask :: "ipnet \<Rightarrow> ip \<times> u8 list" where
  "networkNumberAndMask n =
     (let ip = (if To4 (fst n) \<noteq> [] then To4 (fst n) else fst n);
          m = snd n
      in if To4 (fst n) = [] \<and> length ip \<noteq> 16 then ([], [])
         else if length m = 4 then (if length ip = 4 then (ip, m) else ([], []))
         else if length m = 16 then (if length ip = 4 then (ip, drop 12 m) else (ip, m))
         else ([], []))"

definition Contains :: "ipnet \<Rightarrow> ip \<Rightarrow> bool" where
  "Contains n ip0 =
     (let (nn, m) = networkNumberAndMask n;
          ip = (if To4 ip0 \<noteq> [] then To4 ip0 else ip0)
      in length ip = length nn \<and> map2 (and) nn m = map2 (and) ip m)"

text \<open>The leading ones of a byte; a mask has a size if its ones come first.\<close>

definition byte_ones :: "u8 \<Rightarrow> nat option" where
  "byte_ones v = List.find (\<lambda>k. v = word_of_nat (256 - 2 ^ (8 - k))) [0..<8]"

fun simpleMaskLength :: "u8 list \<Rightarrow> nat option" where
  "simpleMaskLength [] = Some 0"
| "simpleMaskLength (v # m) =
     (if v = 255 then map_option ((+) 8) (simpleMaskLength m)
      else if list_all (\<lambda>x. x = 0) m then byte_ones v else None)"

definition Mask_Size :: "u8 list \<Rightarrow> nat \<times> nat" where
  "Mask_Size m = (case simpleMaskLength m of None \<Rightarrow> (0, 0) | Some n \<Rightarrow> (n, 8 * length m))"

text \<open>What \<open>CIDRMask\<close> builds has the size it was asked for.\<close>

lemma Mask_Size_4_all: "list_all (\<lambda>n. Mask_Size (CIDRMask n 4) = (n, 32)) [0..<33]"
  by code_simp

lemma Mask_Size_4: "n \<le> 32 \<Longrightarrow> Mask_Size (CIDRMask n 4) = (n, 32)"
  using Mask_Size_4_all by (auto simp: list_all_iff)

section \<open>Subnets of IPv4 addresses\<close>

text \<open>Two IPv4 addresses agree under the mask of a prefix length.\<close>

definition same_subnet :: "nat \<Rightarrow> ip \<Rightarrow> ip \<Rightarrow> bool" where
  "same_subnet n a b \<longleftrightarrow> map2 (and) (To4 a) (CIDRMask n 4) = map2 (and) (To4 b) (CIDRMask n 4)"

lemma ParseCIDR_String_net:
  assumes "is_v4 ip" and "n \<le> 32"
  shows "ParseCIDR (IP_String ip @ CHR ''/'' # utoa n) =
    Ok (v4InV6Prefix @ To4 ip, map2 (and) (To4 ip) (CIDRMask n 4), CIDRMask n 4)"
proof -
  have ns: "CHR ''/'' \<notin> set (IP_String ip)"
    using dotted_chars [of "CHR ''/''"] by (auto simp: IP_String_v4 assms)
  have "dtoi (utoa n @ []) = (n, length (utoa n), True)"
    by (rule dtoi_utoa) (use assms in \<open>auto simp: dtoi_big_def\<close>)
  moreover have "\<not> 32 < n" using assms by simp
  moreover have "v4InV6Prefix \<noteq> []" by (simp add: v4InV6Prefix_def)
  moreover have "IP_Mask (v4InV6Prefix @ To4 ip) (CIDRMask n 4) = map2 (and) (To4 ip) (CIDRMask n 4)"
  proof -
    have "length (CIDRMask n 4) = 4" "length v4InV6Prefix = 12" "length (To4 ip) = 4"
      using assms(1) by (simp_all add: CIDRMask_def v4InV6Prefix_def length_To4_v4)
    then show ?thesis by (simp add: IP_Mask_def)
  qed
  ultimately show ?thesis
    by (simp add: ParseCIDR_def takeWhile_until [OF ns] parseIPv4_String assms Let_def)
qed

lemma and_mask_idem: "map2 (and) (map2 (and) xs ms) ms = map2 (and) xs (ms :: u8 list)"
  by (rule nth_equalityI) (simp_all add: and.assoc)

lemma Contains_subnet:
  assumes "is_v4 a" and "is_v4 b"
  shows "Contains (map2 (and) (To4 a) (CIDRMask n 4), CIDRMask n 4) b \<longleftrightarrow> same_subnet n a b"
proof -
  obtain w x y z where a: "To4 a = [w, x, y, z]" using assms(1) by (rule is_v4_obtain)
  obtain p q r s where b: "To4 b = [p, q, r, s]" using assms(2) by (rule is_v4_obtain)
  have len: "length (CIDRMask n 4) = 4" by (simp add: CIDRMask_def)
  have four: "To4 xs = xs" if "length xs = 4" for xs using that by (simp add: To4_def)
  obtain nn where nn: "map2 (and) (To4 a) (CIDRMask n 4) = nn" by simp
  have l: "length nn = 4" using a len nn by auto
  then have "nn \<noteq> []" by auto
  with four [OF l] l len have "networkNumberAndMask (nn, CIDRMask n 4) = (nn, CIDRMask n 4)"
    by (simp add: networkNumberAndMask_def)
  moreover have "map2 (and) nn (CIDRMask n 4) = nn" using and_mask_idem nn by metis
  ultimately show ?thesis
    using b l by (simp add: nn Contains_def same_subnet_def)
qed

end
