(* ===== verification/Tunnels.thy ===== *)
theory Tunnels
  imports XmlTokens IPNet Steering
begin

text \<open>
  Tunnels (\<open>pkg/hal/hal.go\<close>): the NETCONF requests that create and delete them, the requests on
  the interfaces of the \<open>halo\<close> service instance and their flow monitoring, and the searches for
  the interface of a tunnel in the device's replies. The templates of the code are given as the
  trees they stand for, with their fields as text; a field with markup in it would change the
  document, since the templates do not escape. The text of an error leaves out the printed
  reply.
\<close>

section \<open>Requests\<close>

text \<open>\<open>edit-config\<close> on the candidate with a default operation, and \<open>get-config\<close> on the running one.\<close>

definition edit_config :: "string \<Rightarrow> (string \<times> string) list \<Rightarrow> xml list \<Rightarrow> xml" where
  "edit_config operation namespaces kids =
     elem ''edit-config''
       [elem ''target'' [elem ''candidate'' []], text_elem ''default-operation'' operation,
        text_elem ''error-option'' ''rollback-on-error'',
        Elem [] ''config'' namespaces [elem ''dn-top:drivenets-top'' kids]]"

definition get_config :: "xml list \<Rightarrow> xml" where
  "get_config kids =
     elem ''get-config''
       [elem ''source'' [elem ''running'' []],
        Elem [] ''filter'' [(''type'', ''subree'')]
          [Elem [] ''drivenets-top'' [(''xmlns'', ''http://drivenets.com/ns/yang/dn-top'')] kids]]"

definition dn_ns :: "string \<Rightarrow> string \<times> string" where
  "dn_ns m = (''xmlns:'' @ m, ''http://drivenets.com/ns/yang/'' @ m)"

definition MethodRsvpTunnelAdd :: "string \<Rightarrow> ip \<Rightarrow> ip \<Rightarrow> xml" where
  "MethodRsvpTunnelAdd name source destination =
     edit_config ''merge'' [dn_ns ''dn-top'', dn_ns ''dn-protocol'', dn_ns ''dn-rsvp'']
       [elem ''dn-protocol:protocols'' [elem ''dn-rsvp:rsvp'' [elem ''tunnels'' [elem ''tunnel''
          [text_elem ''tunnel-name'' name,
           elem ''primary''
             [elem ''config-items'' [text_elem ''cspf-calculation'' ''disabled''],
              elem ''path-options'' [elem ''path-option''
                [elem ''config-items''
                   [text_elem ''explicit-path-name'' (name @ ''path''), text_elem ''priority'' ''1''],
                 text_elem ''priority'' ''1'']]],
           elem ''global'' [elem ''config-items''
             [text_elem ''source-address'' (IP_String source),
              text_elem ''destination-address'' (IP_String destination),
              text_elem ''admin-state'' ''enabled'', text_elem ''tunnel-name'' name]]]]]]]"

definition vxlan_enabled :: "string \<Rightarrow> string \<Rightarrow> string \<Rightarrow> xml" where
  "vxlan_enabled operation enabled name =
     edit_config operation [dn_ns ''dn-interfaces'', dn_ns ''dn-top'']
       [elem ''dn-interfaces:interfaces'' [elem ''interface''
          [elem ''config-items'' [text_elem ''enabled'' enabled], text_elem ''name'' name]]]"

definition MethodVxLanTunnelAdd :: "string \<Rightarrow> xml" where
  "MethodVxLanTunnelAdd name = vxlan_enabled ''merge'' ''true'' name"

definition MethodVxLanTunnelDelete :: "string \<Rightarrow> xml" where
  "MethodVxLanTunnelDelete name = vxlan_enabled ''none'' ''false'' name"

definition MethodRsvpTunnelDelete :: "string \<Rightarrow> xml" where
  "MethodRsvpTunnelDelete name =
     edit_config ''none'' [dn_ns ''dn-top'', dn_ns ''dn-protocol'', dn_ns ''dn-rsvp'']
       [elem ''dn-protocol:protocols'' [elem ''dn-rsvp:rsvp'' [elem ''tunnels''
          [Elem [] ''tunnel'' [(''operation'', ''delete'')] [text_elem ''tunnel-name'' name]]]]]"

definition MethodRsvpTunnelGetExplicitPath :: "string \<Rightarrow> xml" where
  "MethodRsvpTunnelGetExplicitPath name =
     get_config [elem ''protocols'' [elem ''rsvp'' [elem ''explicit-paths''
       [elem ''explicit-path'' [text_elem ''path-name'' name]]]]]"

definition MethodInterfacesGet :: xml where
  "MethodInterfacesGet =
     get_config [elem ''interfaces'' [elem ''interface'' [elem ''ipv4'' [elem ''addresses''
       [elem ''address'' [elem ''config-items'' []]]]]]]"

definition MethodInterfacesDescriptionGet :: xml where
  "MethodInterfacesDescriptionGet =
     get_config [elem ''interfaces'' [elem ''interface''
       [elem ''config-items'' [elem ''description'' []]]]]"

definition MethodServiceInstanceInterfacesGet :: "string \<Rightarrow> xml" where
  "MethodServiceInstanceInterfacesGet name =
     get_config [elem ''service-instances'' [elem ''instances'' [elem ''instance''
       [text_elem ''si-name'' name,
        elem ''config-items'' [elem ''interfaces'' [elem ''interface'' []]]]]]]"

definition si_request :: "string \<Rightarrow> string \<Rightarrow> xml \<Rightarrow> xml" where
  "si_request operation name items =
     edit_config operation [dn_ns ''dn-hyper-instances'', dn_ns ''dn-top'', dn_ns ''dn-hyper-service-instances'']
       [elem ''dn-hyper-service-instances:service-instances'' [elem ''dn-hyper-instances:instances''
          [elem ''instance'' [text_elem ''si-name'' name, elem ''config-items'' [items]]]]]"

definition MethodSiInterfaceDelete :: "string \<Rightarrow> string \<Rightarrow> xml" where
  "MethodSiInterfaceDelete name ifname = si_request ''none'' name
     (elem ''interfaces'' [Elem [] ''interface'' [(''operation'', ''delete'')] [text_elem ''interface-name'' ifname]])"

definition MethodSiInterfaceAdd :: "string \<Rightarrow> string \<Rightarrow> string \<Rightarrow> xml" where
  "MethodSiInterfaceAdd name ifname address = si_request ''merge'' name
     (elem ''interfaces'' [elem ''interface''
        [text_elem ''interface-name'' ifname, text_elem ''ipv4-address'' address]])"

definition MethodInterfaceFlowMonitoringDelete :: "string \<Rightarrow> xml" where
  "MethodInterfaceFlowMonitoringDelete ifname =
     edit_config ''none'' [dn_ns ''dn-top'', dn_ns ''dn-interfaces'', dn_ns ''dn-srv-flow-monitoring'']
       [elem ''dn-interfaces:interfaces'' [elem ''interface''
          [text_elem ''name'' ifname,
           Elem [] ''dn-srv-flow-monitoring:flow-monitoring'' [(''operation'', ''delete'')] []]]]"

definition MethodInterfaceFlowMonitoringAdd :: "string \<Rightarrow> string \<Rightarrow> string \<Rightarrow> xml" where
  "MethodInterfaceFlowMonitoringAdd ifname profile tname =
     edit_config ''merge'' [dn_ns ''dn-top'', dn_ns ''dn-interfaces'', dn_ns ''dn-srv-flow-monitoring'']
       [elem ''dn-interfaces:interfaces'' [elem ''interface''
          [elem ''dn-srv-flow-monitoring:flow-monitoring'' [elem ''config-items'' [elem ''halo-template''
             [text_elem ''sampler-profile-name'' profile, text_elem ''template-name'' tname,
              text_elem ''direction'' ''in'']]],
           text_elem ''name'' ifname]]]"

section \<open>Searches in replies\<close>

record ipv4configXml =
  cfg_Ip :: string
  cfg_PrefixLength :: string

definition ipv4config_read :: "xml list \<Rightarrow> ipv4configXml outcome" where
  "ipv4config_read = read_kids (\<lambda>c sp n kids.
       if n = ''ip'' then Ok (c\<lparr>cfg_Ip := text_of kids\<rparr>)
       else if n = ''prefix-length'' then Ok (c\<lparr>cfg_PrefixLength := text_of kids\<rparr>) else Ok c)
     \<lparr>cfg_Ip = [], cfg_PrefixLength = []\<rparr>"

definition description_read :: "xml list \<Rightarrow> string outcome" where
  "description_read = read_kids (\<lambda>c sp n kids. if n = ''description'' then Ok (text_of kids) else Ok c) []"

text \<open>Whether an item's subnet contains the address; no decoding of strings can fail.\<close>

definition connected_to :: "ip \<Rightarrow> xml list \<Rightarrow> bool" where
  "connected_to addr kids =
     (case ipv4config_read kids of
        Ok cfg \<Rightarrow>
          (case ParseCIDR (cfg_Ip cfg @ CHR ''/'' # cfg_PrefixLength cfg) of
             Ok (ip, ifnet) \<Rightarrow> Contains ifnet addr
           | _ \<Rightarrow> False)
      | _ \<Rightarrow> False)"

definition described_as :: "string \<Rightarrow> xml list \<Rightarrow> bool" where
  "described_as desc kids = (description_read kids = Ok desc)"

text \<open>One request over the session; every function of this section first gets the session.\<close>

definition session_request :: "'d netconf \<Rightarrow> xml \<Rightarrow> 'd steering \<Rightarrow> xml list outcome \<times> 'd steering" where
  "session_request nc request = bind_state (NetConfConnector nc) (\<lambda>_ st.
     case session_Exec nc request st of
       (Err err, st') \<Rightarrow> (Err (''error: '' @ err), st')
     | rs \<Rightarrow> rs)"

definition GetInterfaceConnectedTo :: "'d netconf \<Rightarrow> ip \<Rightarrow> 'd steering \<Rightarrow> string outcome \<times> 'd steering" where
  "GetInterfaceConnectedTo nc addr = bind_state (session_request nc MethodInterfacesGet) (\<lambda>reply st.
     ((case find_interface (connected_to addr) [] (tokens reply) of
         Some ifc \<Rightarrow> Ok ifc
       | None \<Rightarrow> Err (''no interface for IP '' @ IP_String addr)), st))"

definition GetInterfaceByDescription :: "'d netconf \<Rightarrow> string \<Rightarrow> 'd steering \<Rightarrow> string outcome \<times> 'd steering" where
  "GetInterfaceByDescription nc desc = bind_state (session_request nc MethodInterfacesDescriptionGet) (\<lambda>reply st.
     ((case find_interface (described_as desc) [] (tokens reply) of
         Some ifc \<Rightarrow> Ok ifc
       | None \<Rightarrow> Err (''no interface for description '' @ desc)), st))"

definition GetVxlanTunnelInterface :: "'d netconf \<Rightarrow> string \<Rightarrow> 'd steering \<Rightarrow> string outcome \<times> 'd steering" where
  "GetVxlanTunnelInterface nc name = GetInterfaceByDescription nc name"

text \<open>
  The first element \<open><ipv4-address>\<close> whose content is a run of digits and dots, for a reply that
  writes its elements without prefixes and attributes, as the device does; without one the index
  into the empty list of submatches panics.
\<close>

definition digits_and_dots :: "string \<Rightarrow> bool" where
  "digits_and_dots s \<longleftrightarrow> s \<noteq> [] \<and> list_all (\<lambda>c. is_digit c \<or> c = CHR ''.'') s"

fun first_ipv4_address :: "token list \<Rightarrow> string outcome" where
  "first_ipv4_address (StartElement n [CData s] # ts) =
     (if n = ''ipv4-address'' \<and> digits_and_dots s then Ok s else first_ipv4_address ts)"
| "first_ipv4_address (t # ts) = first_ipv4_address ts"
| "first_ipv4_address [] = Panic ''index out of range''"

definition GetRsvpTunnelInterface :: "'d netconf \<Rightarrow> string \<Rightarrow> 'd steering \<Rightarrow> string outcome \<times> 'd steering" where
  "GetRsvpTunnelInterface nc name =
     bind_state (session_request nc (MethodRsvpTunnelGetExplicitPath (name @ ''path''))) (\<lambda>reply.
     bind_state (\<lambda>st. (first_ipv4_address (tokens reply), st)) (\<lambda>s.
       GetInterfaceConnectedTo nc (ParseIP s)))"

section \<open>The service instance\<close>

record SiInterface =
  Physical :: string
  Address :: ip
  Network :: ipnet

record siInterfaceCfg =
  si_Name :: string
  si_SiName :: string
  si_Addr :: string

definition siInterfaceCfg_read :: "xml list \<Rightarrow> siInterfaceCfg outcome" where
  "siInterfaceCfg_read = read_kids (\<lambda>c sp n kids.
       if n = ''interface-name'' then Ok (c\<lparr>si_Name := text_of kids\<rparr>)
       else if n = ''si-interface-name'' then Ok (c\<lparr>si_SiName := text_of kids\<rparr>)
       else if n = ''ipv4-address'' then Ok (c\<lparr>si_Addr := text_of kids\<rparr>) else Ok c)
     \<lparr>si_Name = [], si_SiName = [], si_Addr = []\<rparr>"

text \<open>The interfaces of a reply; one without an address is left out, a bad address is an error.\<close>

function si_interfaces :: "token list \<Rightarrow> SiInterface list \<Rightarrow> SiInterface list outcome" where
  "si_interfaces [] ifc = Ok ifc"
| "si_interfaces (StartElement n kids # ts) ifc =
     (if n = ''interface'' then
        bind_outcome (siInterfaceCfg_read kids) (\<lambda>cfg.
          if si_Addr cfg = [] then si_interfaces (after_element kids ts) ifc
          else case ParseCIDR (si_Addr cfg) of
                 Ok (addr, network) \<Rightarrow> si_interfaces (after_element kids ts)
                   (ifc @ [\<lparr>Physical = si_Name cfg, Address = addr, Network = network\<rparr>])
               | _ \<Rightarrow> Err (''invalid address: '' @ si_Addr cfg))
      else si_interfaces ts ifc)"
| "si_interfaces (EndElement # ts) ifc = si_interfaces ts ifc"
| "si_interfaces (CharData s # ts) ifc = si_interfaces ts ifc"
  by pat_completeness auto

termination
  by (relation "measure (\<lambda>(ts, ifc). length ts)") (simp_all add: less_Suc_eq_le length_after_element)

definition GetServiceInstanceInterfaces ::
    "'d netconf \<Rightarrow> string \<Rightarrow> 'd steering \<Rightarrow> SiInterface list outcome \<times> 'd steering" where
  "GetServiceInstanceInterfaces nc name =
     bind_state (session_request nc (MethodServiceInstanceInterfacesGet name)) (\<lambda>reply st.
       (si_interfaces (tokens reply) [], st))"

definition send_request :: "'d netconf \<Rightarrow> xml \<Rightarrow> 'd steering \<Rightarrow> unit outcome \<times> 'd steering" where
  "send_request nc request = bind_state (session_request nc request) (\<lambda>_ st. (Ok (), st))"

definition DeleteSiInterface :: "'d netconf \<Rightarrow> string \<Rightarrow> string \<Rightarrow> 'd steering \<Rightarrow> unit outcome \<times> 'd steering" where
  "DeleteSiInterface nc name ifname = send_request nc (MethodSiInterfaceDelete name ifname)"

definition AddSiInterface :: "'d netconf \<Rightarrow> string \<Rightarrow> SiInterface \<Rightarrow> 'd steering \<Rightarrow> unit outcome \<times> 'd steering" where
  "AddSiInterface nc name ifc =
     send_request nc (MethodSiInterfaceAdd name (Physical ifc)
       (IP_String (Address ifc) @ CHR ''/'' # utoa (fst (Mask_Size (snd (Network ifc))))))"

definition DeleteInterfaceFlowMonitoring :: "'d netconf \<Rightarrow> string \<Rightarrow> 'd steering \<Rightarrow> unit outcome \<times> 'd steering" where
  "DeleteInterfaceFlowMonitoring nc ifname = send_request nc (MethodInterfaceFlowMonitoringDelete ifname)"

definition AddInterfaceFlowMonitoring ::
    "'d netconf \<Rightarrow> string \<Rightarrow> string \<Rightarrow> string \<Rightarrow> 'd steering \<Rightarrow> unit outcome \<times> 'd steering" where
  "AddInterfaceFlowMonitoring nc ifname profile tname =
     send_request nc (MethodInterfaceFlowMonitoringAdd ifname profile tname)"

section \<open>Adding and deleting a tunnel\<close>

definition SI_HALO_NAME :: string where
  "SI_HALO_NAME = ''halo''"

definition FLOW_MONITORING_TEMPLATE :: string where
  "FLOW_MONITORING_TEMPLATE = ''halo''"

definition FLOW_MONITORING_PROFILE :: string where
  "FLOW_MONITORING_PROFILE = ''halo''"

text \<open>The part after the switch, for the interface the switch has found.\<close>

definition attach_interface :: "'d netconf \<Rightarrow> ip \<Rightarrow> ipnet \<Rightarrow> string \<Rightarrow> 'd steering \<Rightarrow> unit outcome \<times> 'd steering" where
  "attach_interface nc haloAddr haloNet ifc =
     bind_state (AddSiInterface nc SI_HALO_NAME \<lparr>Physical = ifc, Address = haloAddr, Network = haloNet\<rparr>) (\<lambda>_.
     bind_state (AddInterfaceFlowMonitoring nc ifc FLOW_MONITORING_PROFILE FLOW_MONITORING_TEMPLATE) (\<lambda>_.
       commitChanges nc))"

text \<open>
  An RSVP tunnel is created first and its interface looked for afterwards; when that fails the
  error is forgotten and the changes are committed.
\<close>

definition AddTunnel ::
    "'d netconf \<Rightarrow> string \<Rightarrow> ip \<Rightarrow> ip \<Rightarrow> TunnelType \<Rightarrow> ip \<Rightarrow> ipnet \<Rightarrow> 'd steering \<Rightarrow> unit outcome \<times> 'd steering" where
  "AddTunnel nc name source destination t haloAddr haloNet = bind_state (NetConfConnector nc) (\<lambda>_.
     if t = RSVP then
       bind_state (send_request nc (MethodRsvpTunnelAdd name source destination)) (\<lambda>_ st.
         case GetRsvpTunnelInterface nc name st of
           (Ok ifc, st') \<Rightarrow> attach_interface nc haloAddr haloNet ifc st'
         | (Err err, st') \<Rightarrow> commitChanges nc st'
         | (Fatal err, st') \<Rightarrow> (Fatal err, st')
         | (Panic err, st') \<Rightarrow> (Panic err, st')
         | (Blocked, st') \<Rightarrow> (Blocked, st'))
     else if t = VXLAN then
       bind_state (GetVxlanTunnelInterface nc name) (\<lambda>ifc.
       bind_state (send_request nc (MethodVxLanTunnelAdd ifc)) (\<lambda>_.
         attach_interface nc haloAddr haloNet ifc))
     else (\<lambda>st. (Err (''ERROR: Failed to add tunnel '' @ name @ ''. Reason: tunnel type '' @ itoa t @
         '' is not supported''), st)))"

fun detach_interface :: "'d netconf \<Rightarrow> string \<Rightarrow> SiInterface list \<Rightarrow> 'd steering \<Rightarrow> unit outcome \<times> 'd steering" where
  "detach_interface nc ifc [] = (\<lambda>st. (Ok (), st))"
| "detach_interface nc ifc (haloIfc # iflist) =
     (if ifc = Physical haloIfc then
        bind_state (DeleteSiInterface nc SI_HALO_NAME ifc) (\<lambda>_.
        bind_state (DeleteInterfaceFlowMonitoring nc ifc) (\<lambda>_. detach_interface nc ifc iflist))
      else detach_interface nc ifc iflist)"

text \<open>When the interfaces of the instance cannot be listed that part is skipped.\<close>

definition drop_interface :: "'d netconf \<Rightarrow> string \<Rightarrow> 'd steering \<Rightarrow> unit outcome \<times> 'd steering" where
  "drop_interface nc ifc st =
     (case GetServiceInstanceInterfaces nc SI_HALO_NAME st of
        (Ok iflist, st') \<Rightarrow> bind_state (detach_interface nc ifc iflist) (\<lambda>_. commitChanges nc) st'
      | (Err err, st') \<Rightarrow> commitChanges nc st'
      | (Fatal err, st') \<Rightarrow> (Fatal err, st')
      | (Panic err, st') \<Rightarrow> (Panic err, st')
      | (Blocked, st') \<Rightarrow> (Blocked, st'))"

definition DeleteTunnel :: "'d netconf \<Rightarrow> string \<Rightarrow> TunnelType \<Rightarrow> 'd steering \<Rightarrow> unit outcome \<times> 'd steering" where
  "DeleteTunnel nc name t = bind_state (NetConfConnector nc) (\<lambda>_.
     if t = RSVP then
       bind_state (send_request nc (MethodRsvpTunnelDelete name)) (\<lambda>_.
       bind_state (GetRsvpTunnelInterface nc name) (drop_interface nc))
     else if t = VXLAN then
       bind_state (GetVxlanTunnelInterface nc name) (\<lambda>ifc.
       bind_state (send_request nc (MethodVxLanTunnelDelete ifc)) (\<lambda>_. drop_interface nc ifc))
     else (\<lambda>st. (Err (''failed to delete tunnel '' @ name @ ''. Reason: tunnel type '' @ itoa t @
         '' is not supported''), st)))"

end
