(* ===== verification/TunnelProps.thy ===== *)
theory TunnelProps
  imports Tunnels SteerFacts
begin

text \<open>
  Properties of the tunnel operations. The device is any that answers a request from the
  requests before it and keeps what it was sent, so that the statements name the requests an
  operation sends, in their order.
\<close>

section \<open>A device that keeps its requests\<close>

definition recorder :: "(xml list \<Rightarrow> xml \<Rightarrow> string + xml list) \<Rightarrow> xml list netconf" where
  "recorder answer = \<lparr>DialSSH = \<lambda>sent. (None, sent), Exec = \<lambda>sent x. (answer sent x, sent @ [x])\<rparr>"

definition sent_more :: "xml list \<Rightarrow> xml list steering \<Rightarrow> xml list steering" where
  "sent_more xs st = st\<lparr>device := device st @ xs\<rparr>"

lemma sent_more_simps [simp]:
  "device (sent_more xs st) = device st @ xs" "netconfSession (sent_more xs st) = netconfSession st"
  "aclRules (sent_more xs st) = aclRules st" "accessListID (sent_more xs st) = accessListID st"
  "sent_more ys (sent_more xs st) = sent_more (xs @ ys) st" "sent_more [] st = st"
  by (simp_all add: sent_more_def)

lemma connected [simp]: "netconfSession st \<Longrightarrow> NetConfConnector nc st = (Ok (), st)"
  by (simp add: NetConfConnector_def)

lemma session_request_recorder:
  "netconfSession st \<Longrightarrow> session_request (recorder answer) x st =
     (case answer (device st) x of Inl err \<Rightarrow> Err (''error: '' @ err) | Inr reply \<Rightarrow> Ok reply, sent_more [x] st)"
  by (simp add: session_request_def bind_state_def session_Exec_def recorder_def sent_more_def split: sum.splits)

lemma send_request_recorder:
  "netconfSession st \<Longrightarrow> send_request (recorder answer) x st =
     (case answer (device st) x of Inl err \<Rightarrow> Err (''error: '' @ err) | Inr reply \<Rightarrow> Ok (), sent_more [x] st)"
  by (simp add: send_request_def bind_state_def session_request_recorder split: sum.splits)

lemma commit_recorder:
  "netconfSession st \<Longrightarrow> commitChanges (recorder answer) st =
     (case answer (device st) Commit of
        Inl err \<Rightarrow> if contains err ''Commit failed: empty commit'' then Ok () else Err err
      | Inr reply \<Rightarrow> Ok (), sent_more [Commit] st)"
  by (simp add: commitChanges_def bind_state_def session_Exec_def recorder_def sent_more_def split: sum.splits)

text \<open>A plan: requests that are sent one after the other until one is refused.\<close>

fun run_plan :: "(xml list \<Rightarrow> xml \<Rightarrow> string + xml list) \<Rightarrow> xml list \<Rightarrow> xml list steering \<Rightarrow> unit outcome \<times> xml list steering" where
  "run_plan answer [] st = commitChanges (recorder answer) st"
| "run_plan answer (x # xs) st =
     (case answer (device st) x of
        Inl err \<Rightarrow> (Err (''error: '' @ err), sent_more [x] st)
      | Inr reply \<Rightarrow> run_plan answer xs (sent_more [x] st))"

lemma bind_send:
  assumes "netconfSession st"
  shows "bind_state (send_request (recorder answer) x) f st =
    (case answer (device st) x of
       Inl err \<Rightarrow> (Err (''error: '' @ err), sent_more [x] st)
     | Inr reply \<Rightarrow> f () (sent_more [x] st))"
  using assms by (simp add: bind_state_def send_request_recorder split: sum.splits)

definition is_reply :: "string + xml list \<Rightarrow> bool" where
  "is_reply r \<longleftrightarrow> (case r of Inl err \<Rightarrow> False | Inr reply \<Rightarrow> True)"

lemma run_plan_accepted:
  assumes "\<forall>sent. \<forall>x \<in> set xs. is_reply (answer sent x)" and "is_reply (answer (device st @ xs) Commit)" and "netconfSession st"
  shows "run_plan answer xs st = (Ok (), sent_more (xs @ [Commit]) st)"
  using assms
proof (induction xs arbitrary: st)
  case Nil
  then show ?case by (auto simp: commit_recorder is_reply_def split: sum.splits)
next
  case (Cons x xs)
  then have "is_reply (answer (device st) x)" by simp
  then obtain r where "answer (device st) x = Inr r" by (auto simp: is_reply_def split: sum.splits)
  with Cons show ?case by simp
qed

section \<open>The interface of a tunnel\<close>

text \<open>A router's interfaces with their IPv4 addresses and prefix lengths, as the device reports them.\<close>

type_synonym addressed = "string \<times> (ip \<times> nat) list"

definition items_of :: "ip \<times> nat \<Rightarrow> xml list" where
  "items_of an = [text_elem ''ip'' (IP_String (fst an)), text_elem ''prefix-length'' (utoa (snd an))]"

definition reported :: "addressed list \<Rightarrow> xml list" where
  "reported is = interfaces_xml (map (\<lambda>i. (fst i, map items_of (snd i))) is)"

definition v4_interfaces :: "addressed list \<Rightarrow> bool" where
  "v4_interfaces is \<longleftrightarrow> list_all (\<lambda>i. list_all (\<lambda>an. is_v4 (fst an) \<and> snd an \<le> 32) (snd i)) is"

definition interface_of :: "ip \<Rightarrow> addressed list \<Rightarrow> addressed option" where
  "interface_of addr is = List.find (\<lambda>i. \<exists>an \<in> set (snd i). same_subnet (snd an) (fst an) addr) is"

lemma connected_to_items:
  assumes "is_v4 (fst an)" and "snd an \<le> 32" and "is_v4 addr"
  shows "connected_to addr (items_of an) \<longleftrightarrow> same_subnet (snd an) (fst an) addr"
  using assms
  by (simp add: connected_to_def items_of_def ipv4config_read_def text_elem_def elem_def ParseCIDR_String_net
      Contains_subnet)

lemma find_map: "List.find P (map f xs) = map_option f (List.find (\<lambda>x. P (f x)) xs)"
  by (induction xs) auto

lemma find_reported:
  assumes "v4_interfaces is" and "is_v4 addr"
  shows "find_interface (connected_to addr) [] (tokens (reported is)) = map_option fst (interface_of addr is)"
proof -
  have "List.find (\<lambda>i. \<exists>a \<in> items_of ` set (snd i). connected_to addr a) is = interface_of addr is"
    unfolding interface_of_def
    by (rule find_cong) (use assms in \<open>auto simp: v4_interfaces_def list_all_iff connected_to_items\<close>)
  then show ?thesis
    by (simp add: reported_def find_interface_reply find_map map_option.compositionality comp_def)
qed

text \<open>
  \<^bold>\<open>C28\<close>. \<open>GetInterfaceConnectedTo\<close> walks the tokens of the device's report. On any list of
  interfaces with IPv4 addresses it finds the first one with an address that agrees with the
  given one on the bits of its prefix length, and returns the error exactly when there is none.
  The report is requested once and nothing else is sent.
\<close>

theorem connected_interface_is_first:
  assumes "netconfSession st" and "answer (device st) MethodInterfacesGet = Inr (reported is)"
    and "v4_interfaces is" and "is_v4 addr"
  shows "GetInterfaceConnectedTo (recorder answer) addr st =
    (case interface_of addr is of
       Some i \<Rightarrow> Ok (fst i)
     | None \<Rightarrow> Err (''no interface for IP '' @ IP_String addr), sent_more [MethodInterfacesGet] st)"
  using assms find_reported [OF assms(3,4)]
  by (simp add: GetInterfaceConnectedTo_def bind_state_def session_request_recorder split: option.splits)

text \<open>What the device answers in the examples: two interfaces, of which one is on 10.0.0.0/24.\<close>

definition two_interfaces :: "addressed list" where
  "two_interfaces = [(''ge0'', [(IPv4 192 168 1 1, 24)]), (''ge1'', [(IPv4 172 16 0 1, 30), (IPv4 10 0 0 1, 24)])]"

definition idle_steering :: "xml list steering" where
  "idle_steering = \<lparr>aclRules = Map.empty, accessListID = 1000, netconfSession = True, device = []\<rparr>"

definition two_answer :: "xml list \<Rightarrow> xml \<Rightarrow> string + xml list" where
  "two_answer sent x = Inr (reported two_interfaces)"

lemma idle_simps [simp]: "netconfSession idle_steering" "device idle_steering = []"
  by (simp_all add: idle_steering_def)

lemma two_interfaces_found:
  "v4_interfaces two_interfaces"
  "map_option fst (interface_of (IPv4 10 0 0 7) two_interfaces) = Some ''ge1''"
  "interface_of (IPv4 10 0 9 7) two_interfaces = None"
  by (simp add: v4_interfaces_def two_interfaces_def)
    (simp_all add: interface_of_def two_interfaces_def same_subnet_def CIDRMask_def upt_conv_Cons)

theorem connected_interface_is_first_witness:
  "GetInterfaceConnectedTo (recorder two_answer) (IPv4 10 0 0 7) idle_steering =
     (Ok ''ge1'', sent_more [MethodInterfacesGet] idle_steering)"
  using connected_interface_is_first [of idle_steering two_answer two_interfaces "IPv4 10 0 0 7"]
    two_interfaces_found(1,2)
  by (auto simp: two_answer_def split: option.splits)

section \<open>Adding a VXLAN tunnel\<close>

text \<open>The requests of a VXLAN tunnel on an interface, before the commit.\<close>

definition vxlan_plan :: "string \<Rightarrow> ip \<Rightarrow> ipnet \<Rightarrow> xml list" where
  "vxlan_plan ifc haloAddr haloNet =
     [MethodVxLanTunnelAdd ifc,
      MethodSiInterfaceAdd ''halo'' ifc (IP_String haloAddr @ CHR ''/'' # utoa (fst (Mask_Size (snd haloNet)))),
      MethodInterfaceFlowMonitoringAdd ifc ''halo'' ''halo'']"

lemma attach_interface_plan:
  "netconfSession st \<Longrightarrow> attach_interface (recorder answer) haloAddr haloNet ifc st =
    run_plan answer (tl (vxlan_plan ifc haloAddr haloNet)) st"
  by (auto simp add: attach_interface_def AddSiInterface_def AddInterfaceFlowMonitoring_def bind_send vxlan_plan_def
      SI_HALO_NAME_def FLOW_MONITORING_PROFILE_def FLOW_MONITORING_TEMPLATE_def split: sum.splits)

lemma AddTunnel_vxlan:
  assumes "netconfSession st" and "answer (device st) MethodInterfacesDescriptionGet = Inr reply"
  shows "AddTunnel (recorder answer) name source destination VXLAN haloAddr haloNet st =
    (case find_interface (described_as name) [] (tokens reply) of
       None \<Rightarrow> (Err (''no interface for description '' @ name), sent_more [MethodInterfacesDescriptionGet] st)
     | Some ifc \<Rightarrow> run_plan answer (vxlan_plan ifc haloAddr haloNet) (sent_more [MethodInterfacesDescriptionGet] st))"
proof -
  have get: "GetVxlanTunnelInterface (recorder answer) name st =
      (case find_interface (described_as name) [] (tokens reply) of
         Some ifc \<Rightarrow> Ok ifc | None \<Rightarrow> Err (''no interface for description '' @ name),
       sent_more [MethodInterfacesDescriptionGet] st)"
    using assms by (simp add: GetVxlanTunnelInterface_def GetInterfaceByDescription_def bind_state_def
        session_request_recorder)
  show ?thesis
  proof (cases "find_interface (described_as name) [] (tokens reply)")
    case None
    with assms(1) get show ?thesis by (simp add: AddTunnel_def bind_state_def RSVP_def VXLAN_def)
  next
    case (Some ifc)
    with assms(1) get show ?thesis
      by (simp add: AddTunnel_def bind_state_def [of "NetConfConnector _"] bind_state_def [of "GetVxlanTunnelInterface _ _"]
          RSVP_def VXLAN_def bind_send attach_interface_plan)
        (simp add: attach_interface_plan assms(1) vxlan_plan_def split: sum.splits)
  qed
qed

text \<open>
  \<^bold>\<open>C9\<close>. Adding a VXLAN tunnel, whatever the device answers: the interface whose description is
  the tunnel's name is looked for; when there is none nothing is changed, otherwise it is
  enabled, added to the service instance with the halo address and monitored, in this order,
  each request only after the one before was accepted, and only then are the changes committed.
\<close>

theorem vxlan_tunnel_is_plan:
  assumes "netconfSession st" and "answer (device st) MethodInterfacesDescriptionGet = Inr reply"
  shows "AddTunnel (recorder answer) name source destination VXLAN haloAddr haloNet st =
    (case find_interface (described_as name) [] (tokens reply) of
       None \<Rightarrow> (Err (''no interface for description '' @ name), sent_more [MethodInterfacesDescriptionGet] st)
     | Some ifc \<Rightarrow> run_plan answer (vxlan_plan ifc haloAddr haloNet) (sent_more [MethodInterfacesDescriptionGet] st))"
  using assms by (rule AddTunnel_vxlan)

definition described_xml :: "string \<Rightarrow> string \<Rightarrow> xml" where
  "described_xml name desc = elem ''interface'' [text_elem ''name'' name,
     elem ''config-items'' [text_elem ''description'' desc]]"

definition described_answer :: "xml list \<Rightarrow> xml \<Rightarrow> string + xml list" where
  "described_answer sent x = Inr [described_xml ''vx0'' ''other'', described_xml ''vx1'' ''tun1'']"

lemma described_found:
  "find_interface (described_as ''tun1'') [] (tokens [described_xml ''vx0'' ''other'', described_xml ''vx1'' ''tun1'']) =
    Some ''vx1''"
  by code_simp

theorem vxlan_tunnel_is_plan_witness:
  "AddTunnel (recorder described_answer) ''tun1'' [] [] VXLAN [] ([], []) idle_steering =
     (Ok (), sent_more (MethodInterfacesDescriptionGet # vxlan_plan ''vx1'' [] ([], []) @ [Commit]) idle_steering)"
proof -
  have "described_answer sent x = Inr [described_xml ''vx0'' ''other'', described_xml ''vx1'' ''tun1'']" for sent x
    by (simp add: described_answer_def)
  note this [simp]
  from run_plan_accepted [of "vxlan_plan ''vx1'' [] ([], [])" described_answer
      "sent_more [MethodInterfacesDescriptionGet] idle_steering"]
  have "run_plan described_answer (vxlan_plan ''vx1'' [] ([], [])) (sent_more [MethodInterfacesDescriptionGet] idle_steering) =
      (Ok (), sent_more (MethodInterfacesDescriptionGet # vxlan_plan ''vx1'' [] ([], []) @ [Commit]) idle_steering)"
    by (simp add: is_reply_def)
  moreover note vxlan_tunnel_is_plan [of idle_steering described_answer
      "[described_xml ''vx0'' ''other'', described_xml ''vx1'' ''tun1'']" "''tun1''" "[]" "[]" "[]" "([], [])"]
  ultimately show ?thesis by (simp only: idle_simps described_found option.case if_True) simp
qed

section \<open>Adding an RSVP tunnel\<close>

lemma rsvp_lookup:
  assumes "netconfSession st"
    and "answer (device st) (MethodRsvpTunnelGetExplicitPath (name @ ''path'')) = Inr path"
  shows "GetRsvpTunnelInterface (recorder answer) name st =
    bind_state (\<lambda>st. (first_ipv4_address (tokens path), st)) (\<lambda>s. GetInterfaceConnectedTo (recorder answer) (ParseIP s))
      (sent_more [MethodRsvpTunnelGetExplicitPath (name @ ''path'')] st)"
  using assms by (simp add: GetRsvpTunnelInterface_def bind_state_def session_request_recorder)

text \<open>
  Adding an RSVP tunnel whose path leads to an address that no interface of the router
  is connected to: the search fails, its error is dropped, and the tunnel is committed and
  reported as added although it is neither part of the service instance nor monitored.
\<close>

theorem rsvp_tunnel_without_interface:
  assumes "netconfSession st"
    and "answer (device st) (MethodRsvpTunnelAdd name source destination) = Inr ok1"
    and "answer (device st @ [MethodRsvpTunnelAdd name source destination])
      (MethodRsvpTunnelGetExplicitPath (name @ ''path'')) = Inr path"
    and "answer (device st @ [MethodRsvpTunnelAdd name source destination,
      MethodRsvpTunnelGetExplicitPath (name @ ''path'')]) MethodInterfacesGet = Inr (reported ifcs)"
    and "first_ipv4_address (tokens path) = Ok (IP_String addr)" and "is_v4 addr"
    and "v4_interfaces ifcs" and "interface_of addr ifcs = None"
    and "answer (device st @ [MethodRsvpTunnelAdd name source destination,
      MethodRsvpTunnelGetExplicitPath (name @ ''path''), MethodInterfacesGet]) Commit = Inr ok2"
  shows "AddTunnel (recorder answer) name source destination RSVP haloAddr haloNet st =
    (Ok (), sent_more [MethodRsvpTunnelAdd name source destination,
      MethodRsvpTunnelGetExplicitPath (name @ ''path''), MethodInterfacesGet, Commit] st)"
proof -
  let ?add = "MethodRsvpTunnelAdd name source destination" and ?path = "MethodRsvpTunnelGetExplicitPath (name @ ''path'')"
  let ?a = "ParseIP (IP_String addr)"
  have a: "?a = v4InV6Prefix @ To4 addr" "is_v4 ?a"
    using assms(6) by (simp_all add: ParseIP_String is_v4_def To4_canonical [unfolded is_v4_def])
  then have "interface_of ?a ifcs = None"
    using assms(6,8) by (simp add: interface_of_def same_subnet_def To4_canonical)
  then have "find_interface (connected_to ?a) [] (tokens (reported ifcs)) = None"
    using assms(7) a(2) by (simp add: find_reported)
  then have "GetInterfaceConnectedTo (recorder answer) ?a (sent_more [?add, ?path] st) =
      (Err (''no interface for IP '' @ IP_String ?a), sent_more [?add, ?path, MethodInterfacesGet] st)"
    using assms(1,4) by (simp add: GetInterfaceConnectedTo_def bind_state_def session_request_recorder)
  moreover have "GetRsvpTunnelInterface (recorder answer) name (sent_more [?add] st) =
      GetInterfaceConnectedTo (recorder answer) ?a (sent_more [?add, ?path] st)"
    using assms(1,3,5) rsvp_lookup [of "sent_more [?add] st" answer name path] by (simp add: bind_state_def)
  ultimately show ?thesis
    using assms(1,2,9)
    by (simp add: AddTunnel_def bind_state_def [of "NetConfConnector _"] bind_send commit_recorder)
qed

definition path_reply :: "xml list" where
  "path_reply = [elem ''explicit-path'' [text_elem ''ipv4-address'' (IP_String (IPv4 10 0 9 7))]]"

definition rsvp_answer :: "xml list \<Rightarrow> xml \<Rightarrow> string + xml list" where
  "rsvp_answer sent x =
     Inr (if length sent = 1 then path_reply
          else if length sent = 2 then reported two_interfaces else [])"

lemma path_reply_address: "first_ipv4_address (tokens path_reply) = Ok (IP_String (IPv4 10 0 9 7))"
  by (simp add: path_reply_def elem_def text_elem_def IP_String_v4 utoa_eval digits_and_dots_def is_digit_def)

theorem rsvp_tunnel_without_interface_witness:
  "AddTunnel (recorder rsvp_answer) ''tun1'' [] [] RSVP [] ([], []) idle_steering =
    (Ok (), sent_more [MethodRsvpTunnelAdd ''tun1'' [] [],
      MethodRsvpTunnelGetExplicitPath (''tun1'' @ ''path''), MethodInterfacesGet, Commit] idle_steering)"
  by (rule rsvp_tunnel_without_interface [where path = path_reply and ifcs = two_interfaces and addr = "IPv4 10 0 9 7"
        and ?ok1.0 = "[]" and ?ok2.0 = "[]"])
    (simp_all add: rsvp_answer_def path_reply_address two_interfaces_found)

section \<open>Deleting a tunnel\<close>

text \<open>The interfaces of the service instance that are the tunnel's.\<close>

lemma detach_interface_plan:
  assumes "netconfSession st"
  shows "bind_state (detach_interface (recorder answer) ifc iflist) (\<lambda>_. commitChanges (recorder answer)) st =
    run_plan answer (concat (map (\<lambda>i. if Physical i = ifc
       then [MethodSiInterfaceDelete ''halo'' ifc, MethodInterfaceFlowMonitoringDelete ifc] else []) iflist)) st"
  using assms
proof (induction iflist arbitrary: st)
  case Nil
  then show ?case by (simp add: bind_state_def)
next
  case (Cons i iflist)
  have assoc: "bind_state (bind_state m f) g s = bind_state m (\<lambda>x. bind_state (f x) g) s"
    for m :: "xml list steering \<Rightarrow> unit outcome \<times> xml list steering" and f and g :: "unit \<Rightarrow> xml list steering \<Rightarrow> unit outcome \<times> xml list steering" and s
    by (simp add: bind_state_def split: prod.splits outcome.splits)
  show ?case
    using Cons
    by (simp add: assoc DeleteSiInterface_def DeleteInterfaceFlowMonitoring_def bind_send SI_HALO_NAME_def
        split: sum.splits)
qed

text \<open>What is sent for an instance's list of interfaces, nothing when an address of it does not parse.\<close>

definition halo_plan :: "string \<Rightarrow> SiInterface list outcome \<Rightarrow> xml list" where
  "halo_plan ifc listed =
     (case listed of
        Ok iflist \<Rightarrow> concat (map (\<lambda>i. if Physical i = ifc
          then [MethodSiInterfaceDelete ''halo'' ifc, MethodInterfaceFlowMonitoringDelete ifc] else []) iflist)
      | _ \<Rightarrow> [])"

lemma read_kids_total:
  assumes "\<And>a sp n kids. \<exists>b. f a sp n kids = Ok b"
  shows "\<exists>b. read_kids f a xs = Ok b"
  using assms by (induction f a xs rule: read_kids.induct) (auto, metis bind_outcome.simps(1))

lemma siInterfaceCfg_read_Ok: "\<exists>c. siInterfaceCfg_read kids = Ok c"
  unfolding siInterfaceCfg_read_def by (rule read_kids_total) simp

lemma si_interfaces_result: "(\<exists>l. si_interfaces ts ifc = Ok l) \<or> (\<exists>e. si_interfaces ts ifc = Err e)"
proof (induction ts ifc rule: si_interfaces.induct)
  case (2 n kids ts ifc)
  obtain c where "siInterfaceCfg_read kids = Ok c" using siInterfaceCfg_read_Ok by blast
  with 2 show ?case by (auto split: outcome.splits prod.splits)
qed auto

text \<open>
  Deleting a VXLAN tunnel: its interface is disabled, then taken out of the service
  instance and of flow monitoring once for every time the instance lists it, then the changes
  are committed; when the instance cannot be listed that part is skipped and the rest is
  committed all the same.
\<close>

theorem vxlan_delete_is_plan:
  assumes "netconfSession st" and "answer (device st) MethodInterfacesDescriptionGet = Inr reply"
    and "find_interface (described_as name) [] (tokens reply) = Some ifc"
    and "answer (device st @ [MethodInterfacesDescriptionGet]) (MethodVxLanTunnelDelete ifc) = Inr ok1"
  shows "DeleteTunnel (recorder answer) name VXLAN st =
    run_plan answer
      (case answer (device st @ [MethodInterfacesDescriptionGet, MethodVxLanTunnelDelete ifc])
              (MethodServiceInstanceInterfacesGet ''halo'') of
         Inl err \<Rightarrow> []
       | Inr xs \<Rightarrow> halo_plan ifc (si_interfaces (tokens xs) []))
      (sent_more [MethodInterfacesDescriptionGet, MethodVxLanTunnelDelete ifc,
        MethodServiceInstanceInterfacesGet ''halo''] st)"
proof -
  let ?get = "MethodServiceInstanceInterfacesGet ''halo''"
  have look: "GetVxlanTunnelInterface (recorder answer) name st = (Ok ifc, sent_more [MethodInterfacesDescriptionGet] st)"
    using assms by (simp add: GetVxlanTunnelInterface_def GetInterfaceByDescription_def bind_state_def
        session_request_recorder)
  have drop: "drop_interface (recorder answer) ifc st' =
      run_plan answer (case answer (device st') ?get of Inl err \<Rightarrow> []
         | Inr xs \<Rightarrow> halo_plan ifc (si_interfaces (tokens xs) [])) (sent_more [?get] st')"
    if "netconfSession st'" for st'
  proof (cases "answer (device st') ?get")
    case (Inl err)
    with that show ?thesis
      by (simp add: drop_interface_def GetServiceInstanceInterfaces_def bind_state_def session_request_recorder SI_HALO_NAME_def)
  next
    case (Inr xs)
    with that have "GetServiceInstanceInterfaces (recorder answer) SI_HALO_NAME st' =
        (si_interfaces (tokens xs) [], sent_more [?get] st')"
      by (simp add: GetServiceInstanceInterfaces_def bind_state_def session_request_recorder SI_HALO_NAME_def)
    with Inr that si_interfaces_result [of "tokens xs" "[]"] show ?thesis
      by (auto simp: drop_interface_def halo_plan_def detach_interface_plan)
  qed
  show ?thesis
    using assms(1,4) look drop [of "sent_more [MethodInterfacesDescriptionGet, MethodVxLanTunnelDelete ifc] st"]
    by (simp add: DeleteTunnel_def bind_state_def [of "NetConfConnector _"] bind_state_def [of "GetVxlanTunnelInterface _ _"]
        RSVP_def VXLAN_def bind_send)
qed

definition instance_xml :: "string \<Rightarrow> xml" where
  "instance_xml name = elem ''interface'' [text_elem ''interface-name'' name,
     text_elem ''ipv4-address'' (IP_String (IPv4 10 0 0 1) @ CHR ''/'' # utoa 24)]"

definition halo_answer :: "xml list \<Rightarrow> xml \<Rightarrow> string + xml list" where
  "halo_answer sent x =
     Inr (if length sent = 0 then [described_xml ''vx0'' ''other'', described_xml ''vx1'' ''tun1'']
          else [instance_xml ''vx0'', instance_xml ''vx1''])"

theorem vxlan_delete_is_plan_witness:
  "DeleteTunnel (recorder halo_answer) ''tun1'' VXLAN idle_steering =
    (Ok (), sent_more [MethodInterfacesDescriptionGet, MethodVxLanTunnelDelete ''vx1'',
      MethodServiceInstanceInterfacesGet ''halo'', MethodSiInterfaceDelete ''halo'' ''vx1'',
      MethodInterfaceFlowMonitoringDelete ''vx1'', Commit] idle_steering)"
proof -
  have "si_interfaces (tokens [instance_xml ''vx0'', instance_xml ''vx1'']) [] =
      Ok [\<lparr>Physical = ''vx0'', Address = v4InV6Prefix @ To4 (IPv4 10 0 0 1),
            Network = (map2 (and) (To4 (IPv4 10 0 0 1)) (CIDRMask 24 4), CIDRMask 24 4)\<rparr>,
          \<lparr>Physical = ''vx1'', Address = v4InV6Prefix @ To4 (IPv4 10 0 0 1),
            Network = (map2 (and) (To4 (IPv4 10 0 0 1)) (CIDRMask 24 4), CIDRMask 24 4)\<rparr>]"
    by (simp add: instance_xml_def elem_def text_elem_def siInterfaceCfg_read_def after_element_def
        ParseCIDR_String_net del: To4_IPv4)
  then have "halo_plan ''vx1'' (si_interfaces (tokens [instance_xml ''vx0'', instance_xml ''vx1'']) []) =
      [MethodSiInterfaceDelete ''halo'' ''vx1'', MethodInterfaceFlowMonitoringDelete ''vx1'']"
    by (simp add: halo_plan_def)
  moreover note vxlan_delete_is_plan [of idle_steering halo_answer
      "[described_xml ''vx0'' ''other'', described_xml ''vx1'' ''tun1'']" "''tun1''" "''vx1''"
      "[instance_xml ''vx0'', instance_xml ''vx1'']"]
  ultimately show ?thesis
    using described_found by (simp add: halo_answer_def commit_recorder)
qed

end
