(* ===== verification/Batch.thy ===== *)
theory Batch
  imports HalInit
begin

text \<open>
  The machine-readable reports of the client tool (\<open>cmd/client/main.go\<close>): the entries of one
  interval, the accumulated averages over the intervals, and the loop of the \<open>batch\<close> command.
  Arithmetic on \<open>float64\<close> is a parameter; the values are written as JSON by the standard
  library, whose text is left out.
\<close>

section \<open>One interval\<close>

text \<open>The fields of an interface and of a flow; \<open>Time\<close> is not part of the JSON text.\<close>

record BatchInterfaceOutput =
  bi_Name :: string
  bi_Type :: string
  bi_Speed :: u64
  bi_RxBytes :: u64
  bi_RxBps :: u64
  bi_TxBytes :: u64
  bi_TxBps :: u64
  bi_Delay :: f64
  bi_Jitter :: f64
  bi_Time :: i64

record BatchFlowOutput =
  bf_Source :: string
  bf_Destination :: string
  bf_Protocol :: string
  bf_Ingress :: string
  bf_Egress :: string
  bf_RxPps :: u64
  bf_RxPkts :: u64
  bf_RxBps :: u64
  bf_RxBytes :: u64
  bf_Time :: i64

record BatchOutput =
  bo_Time :: f64
  bo_Interfaces :: "BatchInterfaceOutput list"
  bo_Flows :: "BatchFlowOutput list"

definition interface_entry :: "string \<Rightarrow> i64 \<Rightarrow> string \<Rightarrow> InterfaceTelemetry \<Rightarrow> BatchInterfaceOutput" where
  "interface_entry ifType t ifc tm =
     \<lparr>bi_Name = ifc, bi_Type = ifType, bi_Speed = Speed tm, bi_RxBytes = RxBytes tm, bi_RxBps = RxBps tm,
      bi_TxBytes = TxBytes tm, bi_TxBps = TxBps tm, bi_Delay = LinkDelay tm, bi_Jitter = LinkJitter tm, bi_Time = t\<rparr>"

definition interface_visitor :: "string \<Rightarrow> i64 \<Rightarrow> BatchOutput InterfaceVisitor" where
  "interface_visitor ifType t b ifc tm = (None, b\<lparr>bo_Interfaces := bo_Interfaces b @ [interface_entry ifType t ifc tm]\<rparr>)"

text \<open>A call whose returned error is dropped.\<close>

definition drop_err :: "('s \<Rightarrow> unit outcome \<times> 's) \<Rightarrow> 's \<Rightarrow> unit outcome \<times> 's" where
  "drop_err m s = (case m s of (Err e, s') \<Rightarrow> (Ok (), s') | rs \<Rightarrow> rs)"

definition jsonInterfaces :: "'m registry \<Rightarrow> i64 \<Rightarrow> BatchOutput \<Rightarrow> unit outcome \<times> BatchOutput" where
  "jsonInterfaces reg t = bind_state (drop_err (GetLanInterfaces reg (interface_visitor ''lan'' t))) (\<lambda>_.
     drop_err (GetWanInterfaces reg (interface_visitor ''wan'' t)))"

definition host_port :: "ip \<Rightarrow> u16 \<Rightarrow> string" where
  "host_port a p = IP_String a @ CHR '':'' # utoa (unat p)"

definition flow_entry :: "i64 \<Rightarrow> FlowKey \<Rightarrow> FlowTelemetry \<Rightarrow> BatchFlowOutput" where
  "flow_entry t key stat =
     \<lparr>bf_Source = host_port (SrcAddr key) (SrcPort key), bf_Destination = host_port (DstAddr key) (DstPort key),
      bf_Protocol = FlowProto_String (Protocol key), bf_Ingress = IngressIf stat, bf_Egress = EgressIf stat,
      bf_RxPps = RxRatePps stat, bf_RxPkts = RxTotalPkts stat, bf_RxBps = RxRateBps stat,
      bf_RxBytes = RxTotalBytes stat, bf_Time = t\<rparr>"

definition flow_entry_visitor :: "i64 \<Rightarrow> BatchOutput FlowVisitor" where
  "flow_entry_visitor t b key stat = (None, b\<lparr>bo_Flows := bo_Flows b @ [flow_entry t key stat]\<rparr>)"

text \<open>\<open>GetFlows\<close> on the instance, at a time and in an order of the range over its flows.\<close>

definition hal_GetFlows :: "int \<Rightarrow> string list \<Rightarrow> 's FlowVisitor \<Rightarrow> ('m, 'd) hal \<Rightarrow> 's \<Rightarrow> ('m, 'd) hal \<times> 's" where
  "hal_GetFlows now order v h s =
     (case GetFlows (Debug (config h)) (FlowThreshold (config h)) now order v (hal_flows h) s of
        (fl, s', _) \<Rightarrow> (h\<lparr>hal_flows := fl\<rparr>, s'))"

definition jsonFlows :: "int \<Rightarrow> string list \<Rightarrow> i64 \<Rightarrow> ('m, 'd) hal \<Rightarrow> BatchOutput \<Rightarrow> ('m, 'd) hal \<times> BatchOutput" where
  "jsonFlows now order t h b = hal_GetFlows now order (flow_entry_visitor t) h b"

section \<open>Accumulated averages\<close>

record AccumulatedOutput =
  acc_Time :: f64
  acc_Interfaces :: "string \<rightharpoonup> BatchInterfaceOutput"
  acc_Flows :: "string \<rightharpoonup> BatchFlowOutput"

definition NewAccumulatedOutput :: AccumulatedOutput where
  "NewAccumulatedOutput = \<lparr>acc_Time = F64 0, acc_Interfaces = Map.empty, acc_Flows = Map.empty\<rparr>"

text \<open>A copy shares no map with the original.\<close>

definition Copy :: "AccumulatedOutput \<Rightarrow> AccumulatedOutput" where
  "Copy acc = NewAccumulatedOutput\<lparr>acc_Time := acc_Time acc, acc_Interfaces := acc_Interfaces acc,
     acc_Flows := acc_Flows acc\<rparr>"

record floats =
  of_uint :: "u64 \<Rightarrow> f64"
  to_uint :: "f64 \<Rightarrow> u64"
  fadd :: "f64 \<Rightarrow> f64 \<Rightarrow> f64"
  fmul :: "f64 \<Rightarrow> f64 \<Rightarrow> f64"
  fdiv :: "f64 \<Rightarrow> f64 \<Rightarrow> f64"
  Seconds :: "i64 \<Rightarrow> f64"

record AverageF64 =
  weightA :: f64
  weightB :: f64

definition MakeAverageF64 :: "f64 \<Rightarrow> f64 \<Rightarrow> AverageF64" where
  "MakeAverageF64 wa wb = \<lparr>weightA = wa, weightB = wb\<rparr>"

definition avg_F64 :: "floats \<Rightarrow> AverageF64 \<Rightarrow> f64 \<Rightarrow> f64 \<Rightarrow> f64" where
  "avg_F64 fl avg a b =
     fdiv fl (fadd fl (fmul fl a (weightA avg)) (fmul fl b (weightB avg))) (fadd fl (weightA avg) (weightB avg))"

definition avg_U64 :: "floats \<Rightarrow> AverageF64 \<Rightarrow> u64 \<Rightarrow> u64 \<Rightarrow> u64" where
  "avg_U64 fl avg a b =
     to_uint fl (fdiv fl (fadd fl (fmul fl (of_uint fl a) (weightA avg)) (fmul fl (of_uint fl b) (weightB avg)))
       (fadd fl (weightA avg) (weightB avg)))"

text \<open>
  The next entry for a name: its averages, with \<open>Time\<close> left at its zero value as the composite
  literal leaves it. \<open>b\<close> is the new sample, all zeros for an interface without one.
\<close>

definition average_interface ::
    "floats \<Rightarrow> AverageF64 \<Rightarrow> string \<Rightarrow> string \<Rightarrow> BatchInterfaceOutput \<Rightarrow> BatchInterfaceOutput \<Rightarrow> BatchInterfaceOutput" where
  "average_interface fl avg name ty a b =
     \<lparr>bi_Name = name, bi_Type = ty, bi_Speed = avg_U64 fl avg (bi_Speed a) (bi_Speed b),
      bi_RxBytes = avg_U64 fl avg (bi_RxBytes a) (bi_RxBytes b), bi_RxBps = avg_U64 fl avg (bi_RxBps a) (bi_RxBps b),
      bi_TxBytes = avg_U64 fl avg (bi_TxBytes a) (bi_TxBytes b), bi_TxBps = avg_U64 fl avg (bi_TxBps a) (bi_TxBps b),
      bi_Delay = avg_F64 fl avg (bi_Delay a) (bi_Delay b), bi_Jitter = avg_F64 fl avg (bi_Jitter a) (bi_Jitter b),
      bi_Time = 0\<rparr>"

definition no_interface :: BatchInterfaceOutput where
  "no_interface = \<lparr>bi_Name = [], bi_Type = [], bi_Speed = 0, bi_RxBytes = 0, bi_RxBps = 0, bi_TxBytes = 0,
     bi_TxBps = 0, bi_Delay = F64 0, bi_Jitter = F64 0, bi_Time = 0\<rparr>"

definition next_interface ::
    "floats \<Rightarrow> (string \<rightharpoonup> BatchInterfaceOutput) \<Rightarrow> BatchInterfaceOutput \<Rightarrow> BatchInterfaceOutput" where
  "next_interface fl acc ifc =
     (case acc (bi_Name ifc) of
        Some accIf \<Rightarrow> average_interface fl (MakeAverageF64 (Seconds fl (bi_Time accIf)) (Seconds fl (bi_Time ifc)))
          (bi_Name ifc) (bi_Type ifc) accIf ifc
      | None \<Rightarrow> ifc)"

definition absent_interface :: "floats \<Rightarrow> i64 \<Rightarrow> BatchInterfaceOutput \<Rightarrow> BatchInterfaceOutput" where
  "absent_interface fl interval accIf =
     average_interface fl (MakeAverageF64 (Seconds fl (bi_Time accIf)) (Seconds fl interval))
       (bi_Name accIf) (bi_Type accIf) accIf no_interface"

definition fill_interface ::
    "floats \<Rightarrow> i64 \<Rightarrow> (string \<rightharpoonup> BatchInterfaceOutput) \<Rightarrow> BatchInterfaceOutput \<Rightarrow> (string \<rightharpoonup> BatchInterfaceOutput)" where
  "fill_interface fl interval m accIf =
     (if m (bi_Name accIf) = None then m(bi_Name accIf \<mapsto> absent_interface fl interval accIf) else m)"

text \<open>\<open>order\<close> is the order of the range over the accumulated entries.\<close>

definition updateAccInterfaces ::
    "floats \<Rightarrow> AccumulatedOutput \<Rightarrow> BatchOutput \<Rightarrow> i64 \<Rightarrow> string list \<Rightarrow> AccumulatedOutput \<Rightarrow> AccumulatedOutput" where
  "updateAccInterfaces fl acc entry interval order nxt = nxt\<lparr>acc_Interfaces :=
     foldl (fill_interface fl interval)
       (foldl (\<lambda>m ifc. m(bi_Name ifc \<mapsto> next_interface fl (acc_Interfaces acc) ifc)) (acc_Interfaces nxt) (bo_Interfaces entry))
       (List.map_filter (acc_Interfaces acc) order)\<rparr>"

definition Key :: "BatchFlowOutput \<Rightarrow> string" where
  "Key fo = bf_Source fo @ CHR '':'' # bf_Destination fo @ CHR '':'' # bf_Protocol fo"

definition average_flow :: "floats \<Rightarrow> AverageF64 \<Rightarrow> BatchFlowOutput \<Rightarrow> BatchFlowOutput \<Rightarrow> BatchFlowOutput \<Rightarrow> BatchFlowOutput" where
  "average_flow fl avg labels a b =
     labels\<lparr>bf_RxPps := avg_U64 fl avg (bf_RxPps a) (bf_RxPps b), bf_RxPkts := avg_U64 fl avg (bf_RxPkts a) (bf_RxPkts b),
       bf_RxBps := avg_U64 fl avg (bf_RxBps a) (bf_RxBps b), bf_RxBytes := avg_U64 fl avg (bf_RxBytes a) (bf_RxBytes b),
       bf_Time := 0\<rparr>"

definition no_flow :: BatchFlowOutput where
  "no_flow = \<lparr>bf_Source = [], bf_Destination = [], bf_Protocol = [], bf_Ingress = [], bf_Egress = [], bf_RxPps = 0,
     bf_RxPkts = 0, bf_RxBps = 0, bf_RxBytes = 0, bf_Time = 0\<rparr>"

definition next_flow :: "floats \<Rightarrow> (string \<rightharpoonup> BatchFlowOutput) \<Rightarrow> BatchFlowOutput \<Rightarrow> BatchFlowOutput" where
  "next_flow fl acc flow =
     (case acc (Key flow) of
        Some accFlow \<Rightarrow>
          average_flow fl (MakeAverageF64 (Seconds fl (bf_Time accFlow)) (Seconds fl (bf_Time flow))) flow accFlow flow
      | None \<Rightarrow> flow)"

definition absent_flow :: "floats \<Rightarrow> i64 \<Rightarrow> BatchFlowOutput \<Rightarrow> BatchFlowOutput" where
  "absent_flow fl interval accFlow =
     average_flow fl (MakeAverageF64 (Seconds fl (bf_Time accFlow)) (Seconds fl interval)) accFlow accFlow no_flow"

definition fill_flow :: "floats \<Rightarrow> i64 \<Rightarrow> (string \<rightharpoonup> BatchFlowOutput) \<Rightarrow> BatchFlowOutput \<Rightarrow> (string \<rightharpoonup> BatchFlowOutput)" where
  "fill_flow fl interval m accFlow =
     (if m (Key accFlow) = None then m(Key accFlow \<mapsto> absent_flow fl interval accFlow) else m)"

definition updateAccFlows ::
    "floats \<Rightarrow> AccumulatedOutput \<Rightarrow> BatchOutput \<Rightarrow> i64 \<Rightarrow> string list \<Rightarrow> AccumulatedOutput \<Rightarrow> AccumulatedOutput" where
  "updateAccFlows fl acc entry interval order nxt = nxt\<lparr>acc_Flows :=
     foldl (fill_flow fl interval)
       (foldl (\<lambda>m flow. m(Key flow \<mapsto> next_flow fl (acc_Flows acc) flow)) (acc_Flows nxt) (bo_Flows entry))
       (List.map_filter (acc_Flows acc) order)\<rparr>"

definition updateAccOutput ::
    "floats \<Rightarrow> AccumulatedOutput \<Rightarrow> BatchOutput \<Rightarrow> i64 \<Rightarrow> string list \<Rightarrow> string list \<Rightarrow> AccumulatedOutput" where
  "updateAccOutput fl acc entry interval if_order flow_order =
     updateAccFlows fl acc entry interval flow_order
       (updateAccInterfaces fl acc entry interval if_order NewAccumulatedOutput)"

section \<open>The batch command\<close>

record batch_opts =
  monFlowsOpt :: bool
  monIfcOpt :: bool
  countOpt :: int
  accOpt :: bool

text \<open>
  An interval: the measured times, the orders of the ranges, and what the other goroutines do
  to the instance while the loop sleeps.
\<close>

record ('m, 'd) interval =
  elapsed_time :: i64
  tick_time :: i64
  flows_time :: int
  hal_order :: "string list"
  acc_if_order :: "string list"
  acc_flow_order :: "string list"
  meanwhile :: "('m, 'd) hal \<Rightarrow> ('m, 'd) hal"

definition sample :: "floats \<Rightarrow> batch_opts \<Rightarrow> ('m, 'd) interval \<Rightarrow> ('m, 'd) hal \<Rightarrow> BatchOutput outcome \<times> ('m, 'd) hal" where
  "sample fl opts i h0 =
     (let h = meanwhile i h0;
          entry = \<lparr>bo_Time = Seconds fl (elapsed_time i), bo_Interfaces = [], bo_Flows = []\<rparr>
      in case (if monIfcOpt opts then jsonInterfaces (interfaces h) (tick_time i) entry else (Ok (), entry)) of
           (Ok _, entry1) \<Rightarrow>
             (if monFlowsOpt opts
              then case jsonFlows (flows_time i) (hal_order i) (tick_time i) h entry1 of (h', entry2) \<Rightarrow> (Ok entry2, h')
              else (Ok entry1, h))
         | (Err e, _) \<Rightarrow> (Err e, h)
         | (Fatal e, _) \<Rightarrow> (Fatal e, h)
         | (Panic e, _) \<Rightarrow> (Panic e, h)
         | (Blocked, _) \<Rightarrow> (Blocked, h))"

definition accumulate ::
    "floats \<Rightarrow> ('m, 'd) interval \<Rightarrow> AccumulatedOutput \<Rightarrow> BatchOutput \<Rightarrow> AccumulatedOutput" where
  "accumulate fl i acc entry =
     (updateAccOutput fl acc entry (tick_time i) (acc_if_order i) (acc_flow_order i))\<lparr>acc_Time := Seconds fl (elapsed_time i)\<rparr>"

fun batch_loop ::
    "floats \<Rightarrow> batch_opts \<Rightarrow> ('m, 'd) interval list \<Rightarrow> AccumulatedOutput \<Rightarrow> BatchOutput list \<Rightarrow> AccumulatedOutput list \<Rightarrow>
     ('m, 'd) hal \<Rightarrow> (BatchOutput list \<times> AccumulatedOutput list) outcome \<times> ('m, 'd) hal" where
  "batch_loop fl opts [] acc out accLog h = (Ok (out, accLog), h)"
| "batch_loop fl opts (i # is) acc out accLog h = bind_state (sample fl opts i) (\<lambda>entry.
     let acc' = (if accOpt opts then accumulate fl i acc entry else acc)
     in batch_loop fl opts is acc' (out @ [entry]) (if accOpt opts then accLog @ [Copy acc'] else accLog)) h"

text \<open>What is printed: the entries, or the accumulated ones. A negative count cannot be allocated.\<close>

definition batch ::
    "floats \<Rightarrow> batch_opts \<Rightarrow> (nat \<Rightarrow> ('m, 'd) interval) \<Rightarrow> ('m, 'd) hal \<Rightarrow>
     (BatchOutput list + AccumulatedOutput list) outcome \<times> ('m, 'd) hal" where
  "batch fl opts intervals =
     (if countOpt opts < 0 then (\<lambda>h. (Panic ''makeslice: len out of range'', h))
      else bind_state (batch_loop fl opts (map intervals [0..<nat (countOpt opts)]) NewAccumulatedOutput [] [])
        (\<lambda>(out, accLog) h. (Ok (if accOpt opts then Inr accLog else Inl out), h)))"

end
