(* ===== verification/Client.thy ===== *)
theory Client
  imports Batch Servers Tunnels
begin

text \<open>
  The client tool (\<open>cmd/client/main.go\<close>): the flags of its commands, what each command does with
  them on an instance, and the options it creates the instance with.
\<close>

section \<open>Steering\<close>

record steer_opts =
  steerFromOpt :: string
  steerToOpt :: string
  steerProtoOpt :: string
  steerNextHopOpt :: string

definition parse_endpoint :: "string \<Rightarrow> (ip \<times> u16) outcome" where
  "parse_endpoint s =
     (case split_at_char CHR '':'' s of
        [addr, port] \<Rightarrow>
          (case ParseUint port 16 of
             Ok n \<Rightarrow> Ok (ParseIP addr, word_of_nat n)
           | _ \<Rightarrow> Panic ''failed to parse flow source port'')
      | _ \<Rightarrow> Panic ''failed to parse flow source'')"

definition parse_proto :: "string \<Rightarrow> FlowProto outcome" where
  "parse_proto s =
     (if s = ''tcp'' then Ok TCP else if s = ''udp'' then Ok UDP else Panic ''unexpected flow protocol'')"

definition parse_flow :: "steer_opts \<Rightarrow> FlowKey outcome" where
  "parse_flow opts =
     bind_outcome (parse_endpoint (steerFromOpt opts)) (\<lambda>(src, sport).
     bind_outcome (parse_endpoint (steerToOpt opts)) (\<lambda>(dst, dport).
     bind_outcome (parse_proto (steerProtoOpt opts)) (\<lambda>proto.
       Ok \<lparr>Protocol = proto, SrcAddr = src, DstAddr = dst, SrcPort = sport, DstPort = dport\<rparr>)))"

text \<open>The orders of the ranges over the rule cache in \<open>Steer\<close> and \<open>RemoveSteer\<close> and over the next hops.\<close>

record range_orders =
  rule_orders :: "nat \<Rightarrow> int list"
  nexthop_orders :: "nat \<Rightarrow> string list"

text \<open>After \<open>Steer\<close> the rule is looked up and logged even when \<open>Steer\<close> failed.\<close>

definition steer_and_verify ::
    "('p, 'm, 'd) hal_env \<Rightarrow> range_orders \<Rightarrow> SteerItem list \<Rightarrow> ('m, 'd) hal \<Rightarrow> unit outcome \<times> ('m, 'd) hal" where
  "steer_and_verify env ro items h =
     (let reg = interfaces h;
          verify = on_steering (GetSteerInterface (device_api env) reg (nexthop_orders ro) items)
      in case on_steering (Steer (device_api env) reg (rule_orders ro) items) h of
           (Ok _, h1) \<Rightarrow> bind_state verify (\<lambda>_ h2. (Ok (), h2)) h1
         | (Err err, h1) \<Rightarrow> bind_state verify (\<lambda>_ h2. (Err err, h2)) h1
         | (Fatal err, h1) \<Rightarrow> (Fatal err, h1)
         | (Panic err, h1) \<Rightarrow> (Panic err, h1)
         | (Blocked, h1) \<Rightarrow> (Blocked, h1))"

definition handleSteer ::
    "('p, 'm, 'd) hal_env \<Rightarrow> range_orders \<Rightarrow> steer_opts \<Rightarrow> ('m, 'd) hal \<Rightarrow> unit outcome \<times> ('m, 'd) hal" where
  "handleSteer env ro opts h =
     (if steerFromOpt opts = [] then (Ok (), h)
      else if steerToOpt opts = [] then (Panic ''missing flow destination'', h)
      else bind_state (\<lambda>h. (parse_flow opts, h)) (\<lambda>fk.
        panic_on_err
          (if steerNextHopOpt opts = []
           then on_steering (RemoveSteer (device_api env) (rule_orders ro) [fk])
           else steer_and_verify env ro [\<lparr>Rule = fk, NextHop = steerNextHopOpt opts\<rparr>])) h)"

section \<open>Tables\<close>

text \<open>A row of the flow table; the tab writer aligns the rows.\<close>

definition flow_row :: "FlowKey \<Rightarrow> FlowTelemetry \<Rightarrow> string" where
  "flow_row key stat =
     host_port (SrcAddr key) (SrcPort key) @ tab @ host_port (DstAddr key) (DstPort key) @ tab @
     FlowProto_String (Protocol key) @ tab @ IngressIf stat @ tab @ EgressIf stat @ tab @
     utoa (unat (RxRatePps stat)) @ tab @ utoa (unat (RxTotalPkts stat)) @ tab @
     utoa (unat (RxRateBps stat)) @ tab @ utoa (unat (RxTotalBytes stat)) @ newline"

definition row_visitor :: "string list FlowVisitor" where
  "row_visitor rows key stat = (None, rows @ [flow_row key stat])"

text \<open>The lines handed to the tab writer: two of header, then the sorted rows, and the line for none.\<close>

definition flow_header :: "string list" where
  "flow_header =
     [''Source'' @ tab @ ''Destination'' @ tab @ ''Proto'' @ tab @ ''Ingress'' @ tab @ ''Egress'' @ tab @
       ''Pkt/sec'' @ tab @ ''Pkt/total'' @ tab @ ''Bytes/sec'' @ tab @ ''Bytes/total'' @ newline,
      ''------'' @ tab @ ''-----------'' @ tab @ ''-----'' @ tab @ ''-------'' @ tab @ ''------'' @ tab @
       ''-------'' @ tab @ ''---------'' @ tab @ ''---------'' @ tab @ ''-----------'' @ newline]"

definition none_line :: "'a list \<Rightarrow> string list" where
  "none_line rows = (if rows = [] then [''(none)'' @ newline] else [])"

definition printFlows :: "int \<Rightarrow> string list \<Rightarrow> ('m, 'd) hal \<Rightarrow> ('m, 'd) hal \<times> string list" where
  "printFlows now order h =
     (case hal_GetFlows now order row_visitor h [] of
        (h', rows) \<Rightarrow> (h', flow_header @ sort rows @ none_line rows))"

text \<open>A row of the interface table; \<open>%f\<close> is a parameter.\<close>

definition interface_row :: "(f64 \<Rightarrow> string) \<Rightarrow> string \<Rightarrow> string \<Rightarrow> InterfaceTelemetry \<Rightarrow> string" where
  "interface_row pf ifType ifc tm =
     ifc @ tab @ ifType @ tab @ utoa (unat (Speed tm)) @ tab @ utoa (unat (RxBps tm)) @ tab @
     utoa (unat (RxBytes tm)) @ tab @ utoa (unat (TxBps tm)) @ tab @ utoa (unat (TxBytes tm)) @ tab @
     pf (LinkDelay tm) @ tab @ pf (LinkJitter tm) @ newline"

definition interface_header :: "string list" where
  "interface_header =
     [''Interface'' @ tab @ ''Type'' @ tab @ ''Speed'' @ tab @ ''Rx.Bits/sec'' @ tab @ ''Rx.Bytes/total'' @ tab @
       ''Tx.Bits/sec'' @ tab @ ''Tx.Bytes/total'' @ tab @ ''Delay'' @ tab @ ''Jitter'' @ newline,
      ''---------'' @ tab @ ''----'' @ tab @ ''-----'' @ tab @ ''-----------'' @ tab @ ''--------------'' @ tab @
       ''-----------'' @ tab @ ''--------------'' @ tab @ ''-----'' @ tab @ ''------'' @ newline]"

definition interface_row_visitor :: "(f64 \<Rightarrow> string) \<Rightarrow> string \<Rightarrow> string list InterfaceVisitor" where
  "interface_row_visitor pf ifType rows ifc tm = (None, rows @ [interface_row pf ifType ifc tm])"

definition printInterfaces :: "(f64 \<Rightarrow> string) \<Rightarrow> 'm registry \<Rightarrow> string list outcome" where
  "printInterfaces pf reg =
     (case bind_state (drop_err (GetLanInterfaces reg (interface_row_visitor pf ''lan''))) (\<lambda>_.
             drop_err (GetWanInterfaces reg (interface_row_visitor pf ''wan''))) [] of
        (r, rows) \<Rightarrow> bind_outcome r (\<lambda>_. Ok (interface_header @ rows @ none_line rows)))"

text \<open>One turn of the \<open>monitor\<close> loop, without the time and the clearing of the screen, and its repetition.\<close>

definition monitor_round ::
    "(f64 \<Rightarrow> string) \<Rightarrow> batch_opts \<Rightarrow> ('m, 'd) interval \<Rightarrow> ('m, 'd) hal \<Rightarrow> string list outcome \<times> ('m, 'd) hal" where
  "monitor_round pf opts i h =
     bind_state (\<lambda>h. (if monIfcOpt opts then printInterfaces pf (interfaces h) else Ok [], h)) (\<lambda>out h1.
       if monFlowsOpt opts
       then case printFlows (flows_time i) (hal_order i) h1 of (h2, rows) \<Rightarrow> (Ok (out @ rows), meanwhile i h2)
       else (Ok out, meanwhile i h1)) h"

fun monitor_rounds ::
    "(f64 \<Rightarrow> string) \<Rightarrow> batch_opts \<Rightarrow> ('m, 'd) interval list \<Rightarrow> ('m, 'd) hal \<Rightarrow> string list list outcome \<times> ('m, 'd) hal" where
  "monitor_rounds pf opts [] = (\<lambda>h. (Ok [], h))"
| "monitor_rounds pf opts (i # is) = bind_state (monitor_round pf opts i) (\<lambda>out.
     bind_state (monitor_rounds pf opts is) (\<lambda>outs h. (Ok (out # outs), h)))"

section \<open>Tunnels\<close>

record tunnel_opts =
  tunNameOpt :: string
  tunTypeOpt :: string
  tunSrcOpt :: string
  tunDstOpt :: string
  tunHaloIfcOpt :: string

definition tunnel_type_known :: "string \<Rightarrow> bool" where
  "tunnel_type_known t \<longleftrightarrow> t = ''vxlan'' \<or> t = ''rsvp''"

definition unsupported_type :: "string \<Rightarrow> string" where
  "unsupported_type t = ''unsupported tunnel type: '' @ t @ '' (try 'vxlan' or 'rsvp')''"

text \<open>Both handlers check the type and then ask for VXLAN; a bad destination names the source.\<close>

definition handleTunnelAdd ::
    "('p, 'm, 'd) hal_env \<Rightarrow> tunnel_opts \<Rightarrow> ('m, 'd) hal \<Rightarrow> unit outcome \<times> ('m, 'd) hal" where
  "handleTunnelAdd env opts h =
     (if tunNameOpt opts = [] then (Err ''empty tunnel name'', h)
      else if tunSrcOpt opts = [] then (Err ''empty tunnel source address'', h)
      else if ParseIP (tunSrcOpt opts) = [] then (Err (''invalid tunnel source address: '' @ tunSrcOpt opts), h)
      else if tunDstOpt opts = [] then (Err ''empty tunnel destination address'', h)
      else if ParseIP (tunDstOpt opts) = [] then (Err (''invalid tunnel destination address: '' @ tunSrcOpt opts), h)
      else if \<not> tunnel_type_known (tunTypeOpt opts) then (Err (unsupported_type (tunTypeOpt opts)), h)
      else if tunHaloIfcOpt opts = [] then (Err ''empty tunnel halo address & mask'', h)
      else bind_state (\<lambda>h. (ParseCIDR (tunHaloIfcOpt opts), h)) (\<lambda>(haloAddr, haloNet).
        on_steering (AddTunnel (device_api env) (tunNameOpt opts) (ParseIP (tunSrcOpt opts)) (ParseIP (tunDstOpt opts))
          VXLAN haloAddr haloNet)) h)"

definition handleTunnelDelete ::
    "('p, 'm, 'd) hal_env \<Rightarrow> tunnel_opts \<Rightarrow> ('m, 'd) hal \<Rightarrow> unit outcome \<times> ('m, 'd) hal" where
  "handleTunnelDelete env opts h =
     (if tunNameOpt opts = [] then (Err ''empty tunnel name'', h)
      else if \<not> tunnel_type_known (tunTypeOpt opts) then (Err (unsupported_type (tunTypeOpt opts)), h)
      else on_steering (DeleteTunnel (device_api env) (tunNameOpt opts) VXLAN) h)"

section \<open>Interfaces\<close>

text \<open>A call of the management service of a running instance.\<close>

datatype mgmt_request =
    ReqAddLan string string
  | ReqAddWan AddWanInterfaceArgs
  | ReqDelete string

text \<open>The service's side: which handler serves a request.\<close>

primrec serve :: "('p, 'm, 'd) hal_env \<Rightarrow> mgmt_request \<Rightarrow> ('m, 'd) hal \<Rightarrow> unit outcome \<times> ('m, 'd) hal" where
  "serve env (ReqAddLan upper lower) = AddLanInterface env upper lower"
| "serve env (ReqAddWan args) = AddWanInterface env args"
| "serve env (ReqDelete upper) = DeleteInterface env upper"

record interface_opts =
  ifcUpperOpt :: string
  ifcLowerOpt :: string
  ifcNextHopOpt :: string
  ifcTwampOpt :: string
  ifcNameOpt :: string

text \<open>
  The handlers send one request, or none when a flag is empty. \<open>call\<close> sends it and may fail;
  the texts leave out the printed status.
\<close>

definition mgmt_call :: "(mgmt_request \<Rightarrow> 's \<Rightarrow> unit outcome \<times> 's) \<Rightarrow> string \<Rightarrow> mgmt_request \<Rightarrow> 's \<Rightarrow> unit outcome \<times> 's" where
  "mgmt_call call action req s =
     (case call req s of
        (Err err, s') \<Rightarrow> (Err (''failed to '' @ action @ '' interface: '' @ err), s')
      | rs \<Rightarrow> rs)"

definition handleInterfaceAddWan ::
    "(mgmt_request \<Rightarrow> 's \<Rightarrow> unit outcome \<times> 's) \<Rightarrow> interface_opts \<Rightarrow> 's \<Rightarrow> unit outcome \<times> 's" where
  "handleInterfaceAddWan call opts s =
     (if ifcUpperOpt opts = [] then (Err ''empty upper interface name'', s)
      else if ifcLowerOpt opts = [] then (Err ''empty lower interface name'', s)
      else if ifcNextHopOpt opts = [] then (Err ''empty next hop'', s)
      else if ifcTwampOpt opts = [] then (Err ''empty twamp endpoint'', s)
      else mgmt_call call ''add'' (ReqAddWan \<lparr>arg_Upper = ifcUpperOpt opts, arg_Lower = ifcLowerOpt opts,
        arg_NextHop = ifcNextHopOpt opts, arg_Twamp = ifcTwampOpt opts\<rparr>) s)"

definition handleInterfaceAddLan ::
    "(mgmt_request \<Rightarrow> 's \<Rightarrow> unit outcome \<times> 's) \<Rightarrow> interface_opts \<Rightarrow> 's \<Rightarrow> unit outcome \<times> 's" where
  "handleInterfaceAddLan call opts s =
     (if ifcUpperOpt opts = [] then (Err ''empty upper interface name'', s)
      else if ifcLowerOpt opts = [] then (Err ''empty lower interface name'', s)
      else mgmt_call call ''add'' (ReqAddLan (ifcUpperOpt opts) (ifcLowerOpt opts)) s)"

definition handleInterfaceDelete ::
    "(mgmt_request \<Rightarrow> 's \<Rightarrow> unit outcome \<times> 's) \<Rightarrow> interface_opts \<Rightarrow> 's \<Rightarrow> unit outcome \<times> 's" where
  "handleInterfaceDelete call opts s =
     (if ifcNameOpt opts = [] then (Err ''empty interface name'', s)
      else mgmt_call call ''remove'' (ReqDelete (ifcNameOpt opts)) s)"

section \<open>Commands that need an instance\<close>

datatype command = Monitor | Flush | Steering | Batch_cmd | TunnelAdd | TunnelDelete

record client_opts =
  batch_flags :: batch_opts
  steer_flags :: steer_opts
  tunnel_flags :: tunnel_opts
  serverOpt :: bool
  noTwampOpt :: bool
  monIntervalText :: string
  flowThreshold :: u64

text \<open>The options of the instance and the environment variables set before it is created.\<close>

primrec command_options :: "client_opts \<Rightarrow> command \<Rightarrow> ('m, 'd) OptionHal list" where
  "command_options co Monitor =
     [OptionHalFlushSteer False, OptionHalStatsServer (serverOpt co), OptionHalFlowThreshold (flowThreshold co)]"
| "command_options co Flush = [OptionHalFlushSteer True, OptionHalStatsServer False]"
| "command_options co Steering = [OptionHalFlushSteer False, OptionHalStatsServer False]"
| "command_options co Batch_cmd =
     [OptionHalFlushSteer False, OptionHalStatsServer False, OptionHalFlowThreshold (flowThreshold co)]"
| "command_options co TunnelAdd =
     [OptionHalFlushSteer False, OptionHalStatsServer False, OptionHalConfigRequired False]"
| "command_options co TunnelDelete =
     [OptionHalFlushSteer False, OptionHalStatsServer False, OptionHalConfigRequired False]"

definition command_environment :: "client_opts \<Rightarrow> command \<Rightarrow> (string \<times> string) list" where
  "command_environment co c =
     (if c = Monitor \<or> c = Batch_cmd
      then (if noTwampOpt co then [(''SKIP_TWAMP'', ''1'')] else []) @ [(''IFC_SAMPLE'', monIntervalText co)]
      else [(''SKIP_TWAMP'', ''1'')])"

text \<open>
  One run of a command up to the end of its work; \<open>work\<close> is what the command does with the
  instance: nothing for \<open>flush\<close>, the loops of \<open>monitor\<close> and \<open>batch\<close>, and the handlers above.
\<close>

definition run_command ::
    "('p, 'm, 'd) hal_env \<Rightarrow> client_opts \<Rightarrow> command \<Rightarrow> (('m, 'd) hal \<Rightarrow> 'a outcome \<times> ('m, 'd) hal) \<Rightarrow>
     ('m, 'd) hal \<Rightarrow> 'a outcome \<times> ('m, 'd) hal" where
  "run_command env co c work h =
     (if (c = Monitor \<or> c = Batch_cmd) \<and> \<not> (monFlowsOpt (batch_flags co) \<or> monIfcOpt (batch_flags co))
      then (Err ''nothing to monitor'', h)
      else bind_state (NewDnHal env (command_options co c)) (\<lambda>_. work) h)"

definition client_steer :: "('p, 'm, 'd) hal_env \<Rightarrow> range_orders \<Rightarrow> client_opts \<Rightarrow> ('m, 'd) hal \<Rightarrow> unit outcome \<times> ('m, 'd) hal" where
  "client_steer env ro co = run_command env co Steering (handleSteer env ro (steer_flags co))"

definition client_flush :: "('p, 'm, 'd) hal_env \<Rightarrow> client_opts \<Rightarrow> ('m, 'd) hal \<Rightarrow> unit outcome \<times> ('m, 'd) hal" where
  "client_flush env co = run_command env co Flush (\<lambda>h. (Ok (), h))"

definition client_batch ::
    "floats \<Rightarrow> ('p, 'm, 'd) hal_env \<Rightarrow> client_opts \<Rightarrow> (nat \<Rightarrow> ('m, 'd) interval) \<Rightarrow> ('m, 'd) hal \<Rightarrow>
     (BatchOutput list + AccumulatedOutput list) outcome \<times> ('m, 'd) hal" where
  "client_batch fl env co intervals = run_command env co Batch_cmd (batch fl (batch_flags co) intervals)"

definition client_monitor ::
    "(f64 \<Rightarrow> string) \<Rightarrow> ('p, 'm, 'd) hal_env \<Rightarrow> client_opts \<Rightarrow> ('m, 'd) interval list \<Rightarrow> ('m, 'd) hal \<Rightarrow>
     string list list outcome \<times> ('m, 'd) hal" where
  "client_monitor pf env co is = run_command env co Monitor (monitor_rounds pf (batch_flags co) is)"

definition client_tunnel_add :: "('p, 'm, 'd) hal_env \<Rightarrow> client_opts \<Rightarrow> ('m, 'd) hal \<Rightarrow> unit outcome \<times> ('m, 'd) hal" where
  "client_tunnel_add env co = run_command env co TunnelAdd (handleTunnelAdd env (tunnel_flags co))"

definition client_tunnel_delete :: "('p, 'm, 'd) hal_env \<Rightarrow> client_opts \<Rightarrow> ('m, 'd) hal \<Rightarrow> unit outcome \<times> ('m, 'd) hal" where
  "client_tunnel_delete env co = run_command env co TunnelDelete (handleTunnelDelete env (tunnel_flags co))"

end
