(* ===== verification/ClientProps.thy ===== *)
theory ClientProps
  imports Client TunnelProps HalProps
begin

text \<open>
  Properties of the client tool: what its steering flags do to the rule cache of the instance,
  which settings of the instance its commands decide, and the tunnel type it ignores.
\<close>

section \<open>Flags of a flow\<close>

text \<open>The flags that describe an IPv4 flow of TCP or UDP.\<close>

definition flow_flags :: "FlowKey \<Rightarrow> string \<Rightarrow> steer_opts" where
  "flow_flags fk nexthop =
     \<lparr>steerFromOpt = host_port (SrcAddr fk) (SrcPort fk), steerToOpt = host_port (DstAddr fk) (DstPort fk),
      steerProtoOpt = (if Protocol fk = TCP then ''tcp'' else ''udp''), steerNextHopOpt = nexthop\<rparr>"

lemma host_port_nonempty [simp]: "host_port a p \<noteq> []"
  by (simp add: host_port_def)

lemma parse_host_port:
  assumes "is_v4 a"
  shows "parse_endpoint (host_port a p) = Ok (v4InV6Prefix @ To4 a, p)"
proof -
  have "CHR '':'' \<notin> set (utoa (unat p))" by (rule utoa_no_sep) (simp add: is_digit_def)
  then have "split_at_char CHR '':'' (host_port a p) = [IP_String a, utoa (unat p)]"
    using IP_String_v4_no_colon [OF assms]
    by (simp add: host_port_def split_at_char_sep split_at_char_absent)
  moreover have "ParseUint (utoa (unat p)) 16 = Ok (unat p)"
    using unsigned_less [of p] by (intro ParseUint_utoa) simp
  ultimately show ?thesis using assms by (simp add: parse_endpoint_def ParseIP_String)
qed

lemma parse_flow_flags:
  assumes "v4_flow fk" and "known_protocol fk"
  shows "\<exists>fk'. parse_flow (flow_flags fk nexthop) = Ok fk' \<and> AsKey fk' = AsKey fk"
proof -
  have v: "is_v4 (SrcAddr fk)" "is_v4 (DstAddr fk)" using assms(1) by (simp_all add: v4_flow_def)
  have p: "parse_proto (steerProtoOpt (flow_flags fk nexthop)) = Ok (Protocol fk)"
    using assms(2) by (auto simp: parse_proto_def flow_flags_def known_protocol_def)
  let ?fk = "\<lparr>Protocol = Protocol fk, SrcAddr = v4InV6Prefix @ To4 (SrcAddr fk),
    DstAddr = v4InV6Prefix @ To4 (DstAddr fk), SrcPort = SrcPort fk, DstPort = DstPort fk\<rparr>"
  have "parse_flow (flow_flags fk nexthop) = Ok ?fk"
    using p by (simp add: parse_flow_def) (simp add: flow_flags_def parse_host_port v)
  moreover have "v4_flow ?fk" using v by (simp add: v4_flow_def is_v4_def To4_canonical [unfolded is_v4_def])
  moreover have "flow_id ?fk = flow_id fk" using v by (simp add: flow_id_def To4_canonical)
  ultimately show ?thesis using flow_key.key_eq assms(1) by blast
qed

section \<open>Steering from the command line\<close>

lemma GetSteerInterface_keeps: "GetSteerInterface nc reg orders items st = (r, st') \<Longrightarrow> acl_state st' = acl_state st"
  unfolding GetSteerInterface_def fetch_rules_def
  by (erule bind_state_keeps [where g = acl_state])
    (auto elim!: bind_state_keeps [where g = acl_state] simp: panic_on_err_def
      dest: NetConfConnector_keeps session_Exec_keeps split: prod.splits outcome.splits)

lemma Steer_one_cached:
  assumes "Steer nc reg orders [it] st = (Ok u, st')"
  shows "item_key it \<in> ran (aclRules st')"
proof -
  from Steer_Ok [OF assms] obtain ids n' where ids: "assign_ids (aclRules st) orders 0 [item_key it] (accessListID st) = (ids, n')"
    and st': "aclRules st' = add_entries (zip ids [item_key it]) (aclRules st)" by auto
  from length_assign_ids [OF ids] obtain k where "ids = [k]" by (cases ids) auto
  with st' have "aclRules st' k = Some (item_key it)" by (simp add: add_entries_def)
  then show ?thesis by (rule ranI)
qed

text \<open>
  \<^bold>\<open>C19\<close>. The \<open>steer\<close> command, for an IPv4 TCP or UDP flow written as address, colon and port:
  when it ends normally, the flow is in the rule cache if a next hop was given, and is in it no
  longer if none was. The flags are read back as the flow they were written for.
\<close>

theorem steer_command:
  assumes "v4_flow fk" and "known_protocol fk"
    and "\<forall>j. range_order (aclRules (hal_steering h)) (rule_orders ro j)"
    and "handleSteer env ro (flow_flags fk nexthop) h = (Ok (), h')"
  shows "AsKey fk \<in> ran (aclRules (hal_steering h')) \<longleftrightarrow> nexthop \<noteq> []"
proof -
  let ?nc = "device_api env" and ?st = "hal_steering h"
  obtain fk' where fk': "parse_flow (flow_flags fk nexthop) = Ok fk'" "AsKey fk' = AsKey fk"
    using parse_flow_flags [OF assms(1,2)] by blast
  let ?it = "\<lparr>Rule = fk', NextHop = nexthop\<rparr>"
  have fields: "steerFromOpt (flow_flags fk nexthop) \<noteq> []" "steerToOpt (flow_flags fk nexthop) \<noteq> []"
    "steerNextHopOpt (flow_flags fk nexthop) = nexthop" by (simp_all add: flow_flags_def)
  note run = assms(4) [unfolded handleSteer_def, simplified fields fk'(1)]
  show ?thesis
  proof (cases "nexthop = []")
    case True
    with run have "RemoveSteer ?nc (rule_orders ro) [fk'] ?st = (Ok (), hal_steering h')"
      by (auto simp: fields bind_state_def fk'(1) panic_on_err_def on_steering_def split: outcome.splits prod.splits)
    from RemoveSteer_cases [OF this assms(3)] True fk'(2) show ?thesis by (auto simp: cached_flow_def ran_def split: if_splits)
  next
    case False
    with run have "steer_and_verify env ro [?it] h = (Ok (), h')"
      by (auto simp: fields bind_state_def fk'(1) panic_on_err_def split: outcome.splits prod.splits)
    then obtain st1 r where 1: "Steer ?nc (interfaces h) (rule_orders ro) [?it] ?st = (Ok (), st1)"
      and 2: "GetSteerInterface ?nc (interfaces h) (nexthop_orders ro) [?it] st1 = (r, hal_steering h')"
      by (auto simp: steer_and_verify_def on_steering_def bind_state_def Let_def split: outcome.splits prod.splits)
    from Steer_one_cached [OF 1] have "AsKey fk \<in> ran (aclRules st1)" using fk'(2) by (simp add: item_key_def)
    with GetSteerInterface_keeps [OF 2] False show ?thesis by (simp add: acl_state_def)
  qed
qed

text \<open>A process whose cache has the flow of the example under rule 10.\<close>

definition steered_start :: "(string list, unit) hal" where
  "steered_start = halo_start\<lparr>hal_steering := fresh_process\<lparr>aclRules := [10 \<mapsto> AsKey (web_flow 1)]\<rparr>\<rparr>"

text \<open>A process with one WAN interface and an empty cache, and its steering to that interface.\<close>

definition unsteered_start :: "(string list, unit) hal" where
  "unsteered_start = halo_start\<lparr>interfaces := one_wan, hal_steering := fresh_process\<rparr>"

lemma steer_to_halo0:
  "\<exists>h'. handleSteer (halo_env []) \<lparr>rule_orders = (\<lambda>_. []), nexthop_orders = (\<lambda>_. [])\<rparr> (flow_flags (web_flow 1) ''halo0'') unsteered_start
     = (Ok (), h')"
proof -
  let ?nc = "device_api (halo_env [])"
  have nc: "?nc = reply_device []" by (simp add: halo_env_def)
  have k: "known_protocol (web_flow 1)" by (simp add: known_protocol_def web_flow_def)
  obtain fk' where fk': "parse_flow (flow_flags (web_flow 1) ''halo0'') = Ok fk'"
    using parse_flow_flags [OF web_flow_v4 k] by blast
  let ?items = "[\<lparr>Rule = fk', NextHop = ''halo0''\<rparr>]"
  have device: "\<exists>q. fst (Exec (reply_device []) d x) = Inr q" for d x by (simp add: reply_device_def)
  have "list_all2 (\<lambda>it nh. item_nexthop one_wan (NextHop it) = Ok nh \<and> length nh \<in> {0, 4, 16}) ?items [IPv4 10 0 0 1]"
    by simp
  from Steer_accepts [where orders = "\<lambda>_. []", OF device fresh_process_fields(3) list.distinct(2) this] obtain st where
    st: "Steer (reply_device []) one_wan (\<lambda>_. []) ?items fresh_process = (Ok (), st)" "netconfSession st" by blast
  obtain f where f: "getAclRuleFilterXml = Ok f" using filter_marshals by blast
  have "fetch_rules (reply_device []) st = (Ok (map canonical_rule []), st\<lparr>device := ()\<rparr>)"
    by (rule fetch_rules_reply [OF st(2) f]) (simp_all add: reply_device_def)
  then have "\<exists>v st'. GetSteerInterface (reply_device []) one_wan (\<lambda>_. []) ?items st = (Ok v, st')"
    by (simp add: GetSteerInterface_def bind_state_def)
  with st(1) fk' show ?thesis
    by (auto simp: handleSteer_def bind_state_def panic_on_err_def on_steering_def steer_and_verify_def nc unsteered_start_def
        flow_flags_def)
qed

theorem steer_command_witness:
  "(\<exists>h'. handleSteer (halo_env []) \<lparr>rule_orders = (\<lambda>_. []), nexthop_orders = (\<lambda>_. [])\<rparr> (flow_flags (web_flow 1) ''halo0'') unsteered_start
     = (Ok (), h') \<and> AsKey (web_flow 1) \<in> ran (aclRules (hal_steering h'))) \<and>
   (\<exists>h'. handleSteer (halo_env []) \<lparr>rule_orders = (\<lambda>_. [10]), nexthop_orders = (\<lambda>_. [])\<rparr> (flow_flags (web_flow 1) []) steered_start
     = (Ok (), h') \<and> AsKey (web_flow 1) \<in> ran (aclRules (hal_steering steered_start)) \<and>
     AsKey (web_flow 1) \<notin> ran (aclRules (hal_steering h')))"
proof -
  obtain h1 where h1: "handleSteer (halo_env []) \<lparr>rule_orders = (\<lambda>_. []), nexthop_orders = (\<lambda>_. [])\<rparr>
      (flow_flags (web_flow 1) ''halo0'') unsteered_start = (Ok (), h1)" using steer_to_halo0 by blast
  have "known_protocol (web_flow 1)" by (simp add: known_protocol_def web_flow_def)
  moreover have "\<forall>j :: nat. range_order (aclRules (hal_steering unsteered_start)) []" by (simp add: unsteered_start_def range_order_def)
  ultimately have "AsKey (web_flow 1) \<in> ran (aclRules (hal_steering h1))"
    using steer_command [OF web_flow_v4 _ _ h1] by simp
  with h1 have steered: "\<exists>h'. handleSteer (halo_env []) \<lparr>rule_orders = (\<lambda>_. []), nexthop_orders = (\<lambda>_. [])\<rparr>
      (flow_flags (web_flow 1) ''halo0'') unsteered_start = (Ok (), h') \<and> AsKey (web_flow 1) \<in> ran (aclRules (hal_steering h'))" by blast
  let ?ro = "\<lparr>rule_orders = (\<lambda>_::nat. [10::int]), nexthop_orders = (\<lambda>_::nat. [] :: string list)\<rparr>"
  have k: "known_protocol (web_flow 1)" by (simp add: known_protocol_def web_flow_def)
  have st: "hal_steering steered_start = fresh_process\<lparr>aclRules := [10 \<mapsto> AsKey (web_flow 1)]\<rparr>"
    by (simp add: steered_start_def)
  have "netconfSession (hal_steering steered_start)" by (simp add: st)
  moreover have "\<exists>q. fst (Exec (device_api (halo_env [])) d x) = Inr q" for d x
    by (simp add: halo_env_def reply_device_def)
  moreover obtain fk' where fk': "parse_flow (flow_flags (web_flow 1) []) = Ok fk'"
    using parse_flow_flags [OF web_flow_v4 k] by blast
  ultimately obtain st' where
    "RemoveSteer (device_api (halo_env [])) (rule_orders ?ro) [fk'] (hal_steering steered_start) = (Ok (), st')"
    using RemoveSteer_accepts [of "device_api (halo_env [])"] by blast
  with fk' have run: "\<exists>h'. handleSteer (halo_env []) ?ro (flow_flags (web_flow 1) []) steered_start = (Ok (), h')"
    by (simp add: handleSteer_def bind_state_def panic_on_err_def on_steering_def)
      (simp add: flow_flags_def)
  then obtain h' where h': "handleSteer (halo_env []) ?ro (flow_flags (web_flow 1) []) steered_start = (Ok (), h')" by blast
  have "\<forall>j. range_order (aclRules (hal_steering steered_start)) (rule_orders ?ro j)" by (simp add: st range_order_def)
  from steer_command [OF web_flow_v4 k this h'] h' steered show ?thesis by (auto simp: st)
qed

section \<open>The instance of a command\<close>

text \<open>
  The options of a command win over the configuration file and its defaults: whatever they
  say, only \<open>flush\<close> makes the instance delete the device's rules at its start, only \<open>monitor\<close>
  can start the statistics server, and the flow threshold of \<open>monitor\<close> and \<open>batch\<close> is the
  flag's.
\<close>

theorem command_options_win:
  assumes "configure env (command_options co c) h = (Ok (), h')"
  shows "FlushSteer (config h') = (c = Flush) \<and> StatsServer (config h') = (c = Monitor \<and> serverOpt co) \<and>
    (c \<in> {Monitor, Batch_cmd} \<longrightarrow> FlowThreshold (config h') = flowThreshold co) \<and>
    (c \<noteq> Flush \<longrightarrow> flush_steer (device_api env) h' = (Ok (), h'))"
proof -
  from assms obtain h1 where "run_options (command_options co c) h1 = (Ok (), h')"
    unfolding configure_def bind_state_Ok by blast
  then have "h' = snd (run_options (command_options co c) h1)" by simp
  then show ?thesis
    by (cases c) (simp_all add: bind_state_def OptionHalFlushSteer_def OptionHalStatsServer_def
        OptionHalFlowThreshold_def OptionHalConfigRequired_def flush_steer_def)
qed

definition some_opts :: client_opts where
  "some_opts = \<lparr>batch_flags = \<lparr>monFlowsOpt = True, monIfcOpt = True, countOpt = 1, accOpt = False\<rparr>,
     steer_flags = flow_flags (web_flow 1) [], tunnel_flags = \<lparr>tunNameOpt = [], tunTypeOpt = [], tunSrcOpt = [],
     tunDstOpt = [], tunHaloIfcOpt = []\<rparr>, serverOpt = True, noTwampOpt = True, monIntervalText = [], flowThreshold = 5\<rparr>"

text \<open>The example's file asks for a flush; \<open>steer\<close> does not flush.\<close>

theorem command_options_win_witness:
  "\<exists>h'. configure (halo_env []) (command_options some_opts Steering) (halo_start\<lparr>config := blank_config\<rparr>) = (Ok (), h') \<and>
     FlushSteer halo_config \<and> \<not> FlushSteer (config h')"
proof -
  have "LoadConfig (halo_source None) True (blank_config\<lparr>FlushSteer := False, StatsServer := False\<rparr>) = Ok halo_config"
    by (simp add: LoadConfig_def halo_source_def WorkaroundViperDictDotKeyIssue_def fix_keys_def dash_to_dot_def
      replace_char_def halo_file_def halo_config_def blank_config_def)
  then have "\<exists>h'. configure (halo_env []) (command_options some_opts Steering) (halo_start\<lparr>config := blank_config\<rparr>) = (Ok (), h')"
    by (simp add: configure_def bind_state_def OptionHalFlushSteer_def OptionHalStatsServer_def on_config_def
        halo_env_def halo_start_def UpdateUpperByMac_def)
  then obtain h' where h': "configure (halo_env []) (command_options some_opts Steering) (halo_start\<lparr>config := blank_config\<rparr>) = (Ok (), h')"
    by blast
  from command_options_win [OF h'] h' halo_config_fields show ?thesis by auto
qed

section \<open>Tunnels from the command line\<close>

text \<open>
  The tunnel type is checked and then ignored: \<open>tunnel add\<close> with the type \<open>rsvp\<close>, with
  acceptable flags, looks for an interface described by the tunnel's name and sends the requests
  of a VXLAN tunnel on it; none of them creates an RSVP tunnel.
\<close>

theorem tunnel_type_ignored:
  assumes "tunTypeOpt opts = ''rsvp''" and "tunNameOpt opts \<noteq> []"
    and "is_v4 src" and "tunSrcOpt opts = IP_String src" and "is_v4 dst" and "tunDstOpt opts = IP_String dst"
    and "is_v4 halo" and "n \<le> 32" and "tunHaloIfcOpt opts = IP_String halo @ CHR ''/'' # utoa n"
    and "device_api env = recorder answer" and "netconfSession (hal_steering h)"
    and "answer (device (hal_steering h)) MethodInterfacesDescriptionGet = Inr reply"
    and "find_interface (described_as (tunNameOpt opts)) [] (tokens reply) = Some ifc"
  shows "handleTunnelAdd env opts h =
    on_steering (\<lambda>st. run_plan answer
      [MethodVxLanTunnelAdd ifc, MethodSiInterfaceAdd ''halo'' ifc (IP_String (v4InV6Prefix @ To4 halo) @ CHR ''/'' # utoa n),
       MethodInterfaceFlowMonitoringAdd ifc ''halo'' ''halo'']
      (sent_more [MethodInterfacesDescriptionGet] st)) h"
proof -
  have ne: "ParseIP (IP_String ip) \<noteq> [] \<and> IP_String ip \<noteq> []" if "is_v4 ip" for ip
  proof -
    obtain a b c d where "To4 ip = [a, b, c, d]" using \<open>is_v4 ip\<close> by (rule is_v4_obtain)
    then show ?thesis using that by (simp add: ParseIP_String) (simp add: IP_String_v4)
  qed
  show ?thesis
    using assms ne [OF assms(3)] ne [OF assms(5)] AddTunnel_vxlan [where st = "hal_steering h" and answer = answer, OF assms(11,12)]
    by (simp add: handleTunnelAdd_def tunnel_type_known_def bind_state_def ParseCIDR_String_net on_steering_def
        vxlan_plan_def Mask_Size_4)
qed

definition rsvp_opts :: tunnel_opts where
  "rsvp_opts = \<lparr>tunNameOpt = ''tun1'', tunTypeOpt = ''rsvp'', tunSrcOpt = IP_String (IPv4 10 0 0 1),
     tunDstOpt = IP_String (IPv4 10 0 0 2), tunHaloIfcOpt = IP_String (IPv4 10 1 0 1) @ CHR ''/'' # utoa 24\<rparr>"

definition tunnel_env :: "(string, string list, xml list) hal_env" where
  "tunnel_env = \<lparr>grpc_Dial = (\<lambda>addr. Ok halo_client), gnmi_mgr = name_manager, net_Interfaces = Ok halo_ifs,
     device_api = recorder described_answer, Config_source = halo_source None,
     sampling_interval = (\<lambda>x. 1000000000), time_Now = 0\<rparr>"

definition tunnel_start :: "(string list, xml list) hal" where
  "tunnel_start = \<lparr>initialized = False, grpcAddr = [], UpdateInterval = 0, interfaces = empty_registry,
     hal_flows = InitFlows 0, hal_steering = idle_steering, config = halo_config, configRequired = False\<rparr>"

theorem tunnel_type_ignored_witness:
  "device (hal_steering (snd (handleTunnelAdd tunnel_env rsvp_opts tunnel_start))) =
     [MethodInterfacesDescriptionGet, MethodVxLanTunnelAdd ''vx1'',
      MethodSiInterfaceAdd ''halo'' ''vx1'' (IP_String (v4InV6Prefix @ To4 (IPv4 10 1 0 1)) @ CHR ''/'' # utoa 24),
      MethodInterfaceFlowMonitoringAdd ''vx1'' ''halo'' ''halo'', Commit]"
proof -
  have a: "described_answer sent x = Inr [described_xml ''vx0'' ''other'', described_xml ''vx1'' ''tun1'']" for sent x
    by (simp add: described_answer_def)
  have "handleTunnelAdd tunnel_env rsvp_opts tunnel_start =
    on_steering (\<lambda>st. run_plan described_answer
      [MethodVxLanTunnelAdd ''vx1'', MethodSiInterfaceAdd ''halo'' ''vx1'' (IP_String (v4InV6Prefix @ To4 (IPv4 10 1 0 1)) @ CHR ''/'' # utoa 24),
       MethodInterfaceFlowMonitoringAdd ''vx1'' ''halo'' ''halo'']
      (sent_more [MethodInterfacesDescriptionGet] st)) tunnel_start"
    by (rule tunnel_type_ignored [where src = "IPv4 10 0 0 1" and dst = "IPv4 10 0 0 2"
          and reply = "[described_xml ''vx0'' ''other'', described_xml ''vx1'' ''tun1'']"])
      (simp_all add: rsvp_opts_def tunnel_env_def tunnel_start_def a described_found del: To4_IPv4)
  then show ?thesis
    by (simp add: on_steering_def tunnel_start_def a commit_recorder del: To4_IPv4)
qed

end
