(* ===== verification/BatchProps.thy ===== *)
theory BatchProps
  imports Batch
begin

text \<open>
  Properties of the accumulated reports: which names they hold, and what their averages weigh.
\<close>

section \<open>What the accumulated output holds\<close>

text \<open>Accumulated outputs and the entries that went into them, over any orders of the ranges.\<close>

inductive accumulated :: "floats \<Rightarrow> (('m, 'd) interval \<times> BatchOutput) list \<Rightarrow> AccumulatedOutput \<Rightarrow> bool" for fl where
  acc_none: "accumulated fl [] NewAccumulatedOutput"
| acc_more: "accumulated fl es acc \<Longrightarrow> range_order (acc_Interfaces acc) (acc_if_order i) \<Longrightarrow>
    range_order (acc_Flows acc) (acc_flow_order i) \<Longrightarrow> accumulated fl (es @ [(i, entry)]) (accumulate fl i acc entry)"

lemma foldl_names:
  fixes m :: "string \<rightharpoonup> 'b"
  shows "dom (foldl (\<lambda>m x. m(name x \<mapsto> f x)) m xs) = dom m \<union> name ` set xs"
  by (induction xs arbitrary: m) auto

definition keyed :: "('b \<Rightarrow> string) \<Rightarrow> (string \<rightharpoonup> 'b) \<Rightarrow> bool" where
  "keyed name m \<longleftrightarrow> (\<forall>k e. m k = Some e \<longrightarrow> name e = k)"

lemma keyed_foldl:
  assumes "keyed name m" and "\<And>x. x \<in> set xs \<Longrightarrow> name (f x) = name x"
  shows "keyed name (foldl (\<lambda>m x. m(name x \<mapsto> f x)) m xs)"
  using assms
proof (induction xs arbitrary: m)
  case (Cons x xs)
  have "keyed name (m(name x \<mapsto> f x))" using Cons.prems(1) Cons.prems(2) [of x] by (simp add: keyed_def)
  from Cons.IH [OF this] Cons.prems(2) show ?case by (simp del: fun_upd_apply)
qed simp

text \<open>The second loop: entries without a sample.\<close>

definition fill :: "('b \<Rightarrow> string) \<Rightarrow> ('b \<Rightarrow> 'b) \<Rightarrow> (string \<rightharpoonup> 'b) \<Rightarrow> 'b \<Rightarrow> (string \<rightharpoonup> 'b)" where
  "fill name f m x = (if m (name x) = None then m(name x \<mapsto> f x) else m)"

lemma foldl_fill:
  assumes "distinct (map name xs)"
  shows "foldl (fill name f) m xs k =
    (case m k of Some e \<Rightarrow> Some e | None \<Rightarrow> map_option f (List.find (\<lambda>x. name x = k) xs))"
  using assms
proof (induction xs arbitrary: m)
  case (Cons x xs)
  then show ?case by (cases "name x = k") (auto simp: fill_def find_None_iff split: option.splits)
qed (auto split: option.splits)

text \<open>The entries of a map whose keys are their names, in the order of a range.\<close>

lemma range_entries:
  assumes "keyed name m" and "range_order m order"
  shows "map name (List.map_filter m order) = order"
proof -
  have "\<forall>k \<in> set order. \<exists>e. m k = Some e \<and> name e = k"
    using assms by (auto simp: keyed_def range_order_def dom_def)
  then show ?thesis by (induction order) auto
qed

lemma find_entry:
  assumes "keyed name m" and "range_order m order"
  shows "List.find (\<lambda>x. name x = k) (List.map_filter m order) = m k"
proof (cases "m k")
  case None
  then have "k \<notin> set order" using assms(2) by (auto simp: range_order_def)
  moreover have "name ` set (List.map_filter m order) = set order" using range_entries [OF assms] by (metis list.set_map)
  ultimately have "List.find (\<lambda>x. name x = k) (List.map_filter m order) = None" by (auto simp: find_None_iff)
  with None show ?thesis by simp
next
  case (Some e)
  let ?xs = "List.map_filter m order"
  have e: "e \<in> set ?xs" using Some assms(2) by (force simp: range_order_def map_filter_set)
  have "name e = k" using Some assms(1) by (auto simp: keyed_def)
  with e obtain x where x: "List.find (\<lambda>x. name x = k) ?xs = Some x"
    by (cases "List.find (\<lambda>x. name x = k) ?xs") (auto simp: find_None_iff)
  then have "x \<in> set ?xs" "name x = k" by (auto simp: find_Some_iff)
  then have "m k = Some x" using assms(1) by (auto simp: map_filter_set keyed_def)
  with x Some show ?thesis by simp
qed

lemma filled:
  assumes "keyed name m" and "range_order m order"
  shows "foldl (fill name f) nm (List.map_filter m order) k =
    (case nm k of Some e \<Rightarrow> Some e | None \<Rightarrow> map_option f (m k))"
proof -
  have "distinct (map name (List.map_filter m order))"
    using range_entries [OF assms] assms(2) by (simp add: range_order_def)
  then show ?thesis using foldl_fill [of name "List.map_filter m order" f nm k] find_entry [OF assms] by metis
qed

section \<open>One update\<close>

definition well_keyed :: "AccumulatedOutput \<Rightarrow> bool" where
  "well_keyed acc \<longleftrightarrow> keyed bi_Name (acc_Interfaces acc) \<and> keyed Key (acc_Flows acc)"

lemma average_flow_Key: "Key (average_flow fl avg labels a b) = Key labels"
  by (simp add: average_flow_def Key_def)

lemma next_names [simp]:
  "bi_Name (next_interface fl acc ifc) = bi_Name ifc" "Key (next_flow fl acc2 flow) = Key flow"
  "bi_Name (absent_interface fl interval a) = bi_Name a" "Key (absent_flow fl interval b) = Key b"
  by (auto simp: next_interface_def average_interface_def next_flow_def absent_interface_def absent_flow_def
      average_flow_Key split: option.splits)

lemma fills:
  "fill_interface fl interval = fill bi_Name (absent_interface fl interval)"
  "fill_flow fl interval = fill Key (absent_flow fl interval)"
  by (simp_all add: fun_eq_iff fill_def fill_interface_def fill_flow_def)

text \<open>The samples of an interval by name; a repeated name counts with its last sample.\<close>

definition sampled :: "('b \<Rightarrow> string) \<Rightarrow> ('b \<Rightarrow> 'b) \<Rightarrow> 'b list \<Rightarrow> (string \<rightharpoonup> 'b)" where
  "sampled name f xs = foldl (\<lambda>m x. m(name x \<mapsto> f x)) Map.empty xs"

lemma accumulate_entries:
  assumes "well_keyed acc" and "range_order (acc_Interfaces acc) (acc_if_order i)"
    and "range_order (acc_Flows acc) (acc_flow_order i)"
  shows "acc_Interfaces (accumulate fl i acc entry) k =
      (case sampled bi_Name (next_interface fl (acc_Interfaces acc)) (bo_Interfaces entry) k of
         Some e \<Rightarrow> Some e | None \<Rightarrow> map_option (absent_interface fl (tick_time i)) (acc_Interfaces acc k))"
    and "acc_Flows (accumulate fl i acc entry) k =
      (case sampled Key (next_flow fl (acc_Flows acc)) (bo_Flows entry) k of
         Some e \<Rightarrow> Some e | None \<Rightarrow> map_option (absent_flow fl (tick_time i)) (acc_Flows acc k))"
  using filled [OF _ assms(2)] filled [OF _ assms(3)] assms(1)
  by (simp_all add: accumulate_def updateAccOutput_def updateAccInterfaces_def updateAccFlows_def fills well_keyed_def
      NewAccumulatedOutput_def sampled_def)

lemma accumulate_well_keyed:
  assumes "well_keyed acc" and "range_order (acc_Interfaces acc) (acc_if_order i)"
    and "range_order (acc_Flows acc) (acc_flow_order i)"
  shows "well_keyed (accumulate fl i acc entry)"
proof -
  have "keyed bi_Name (sampled bi_Name (next_interface fl (acc_Interfaces acc)) (bo_Interfaces entry))"
    and "keyed Key (sampled Key (next_flow fl (acc_Flows acc)) (bo_Flows entry))"
    unfolding sampled_def by (rule keyed_foldl; simp add: keyed_def)+
  with assms show ?thesis
    unfolding well_keyed_def keyed_def accumulate_entries [OF assms]
    by (auto split: option.splits)
qed

text \<open>
  \<^bold>\<open>C27\<close>. The accumulated output loses nothing and invents nothing: after any number of
  intervals, in whatever orders its maps are ranged over, it has an entry for exactly the
  interfaces and exactly the flows that some interval reported, each stored under its own name.
\<close>

theorem accumulated_tracks_all:
  assumes "accumulated fl es acc"
  shows "dom (acc_Interfaces acc) = (\<Union>(i, e) \<in> set es. bi_Name ` set (bo_Interfaces e)) \<and>
    dom (acc_Flows acc) = (\<Union>(i, e) \<in> set es. Key ` set (bo_Flows e)) \<and> well_keyed acc"
  using assms
proof (induction rule: accumulated.induct)
  case acc_none
  then show ?case by (simp add: NewAccumulatedOutput_def well_keyed_def keyed_def)
next
  case (acc_more es acc i entry)
  then have w: "well_keyed acc" by simp
  note e = accumulate_entries [OF w acc_more.hyps(2,3)]
  have "dom (acc_Interfaces (accumulate fl i acc entry)) =
      dom (sampled bi_Name (next_interface fl (acc_Interfaces acc)) (bo_Interfaces entry)) \<union> dom (acc_Interfaces acc)"
    "dom (acc_Flows (accumulate fl i acc entry)) =
      dom (sampled Key (next_flow fl (acc_Flows acc)) (bo_Flows entry)) \<union> dom (acc_Flows acc)"
    by (auto simp: e dom_def split: option.splits)
  with acc_more.IH accumulate_well_keyed [OF w acc_more.hyps(2,3)] show ?case
    by (auto simp: sampled_def foldl_names)
qed

section \<open>An example of two intervals\<close>

text \<open>
  An example arithmetic in which a \<open>float64\<close> is read as a 64-bit number and a duration counts as it is;
  it satisfies the laws used below.
\<close>

definition word_floats :: floats where
  "word_floats = \<lparr>of_uint = F64, to_uint = f64_bits, fadd = (\<lambda>a b. F64 (f64_bits a + f64_bits b)),
     fmul = (\<lambda>a b. F64 (f64_bits a * f64_bits b)), fdiv = (\<lambda>a b. F64 (f64_bits a div f64_bits b)), Seconds = F64\<rparr>"

definition wan_sample :: "u64 \<Rightarrow> BatchInterfaceOutput" where
  "wan_sample bps = no_interface\<lparr>bi_Name := ''halo0'', bi_Type := ''wan'', bi_RxBps := bps, bi_Time := 1\<rparr>"

definition wan_entry :: "u64 \<Rightarrow> BatchOutput" where
  "wan_entry bps = \<lparr>bo_Time = F64 1, bo_Interfaces = [wan_sample bps], bo_Flows = []\<rparr>"

definition quiet :: "string list \<Rightarrow> (unit, unit) interval" where
  "quiet order = \<lparr>elapsed_time = 1, tick_time = 1, flows_time = 0, hal_order = [], acc_if_order = order,
     acc_flow_order = [], meanwhile = id\<rparr>"

definition acc_one :: AccumulatedOutput where
  "acc_one = accumulate word_floats (quiet []) NewAccumulatedOutput (wan_entry 100)"

lemma acc_one_fields:
  "acc_Interfaces acc_one = [''halo0'' \<mapsto> wan_sample 100]" "acc_Flows acc_one = Map.empty"
  by (simp_all add: acc_one_def accumulate_def updateAccOutput_def updateAccInterfaces_def updateAccFlows_def
      NewAccumulatedOutput_def wan_entry_def quiet_def next_interface_def wan_sample_def List.map_filter_simps)

lemma accumulated_one: "accumulated word_floats [(quiet [], wan_entry 100)] acc_one"
  using acc_more [OF acc_none, of "quiet []" word_floats "wan_entry 100"]
  by (simp add: acc_one_def NewAccumulatedOutput_def quiet_def)

theorem accumulated_tracks_all_witness:
  "dom (acc_Interfaces acc_one) = {''halo0''} \<and> well_keyed acc_one"
  using accumulated_tracks_all [OF accumulated_one] by (simp add: wan_entry_def wan_sample_def)

section \<open>What the averages weigh\<close>

text \<open>
  Facts of IEEE arithmetic: a finite number times zero is zero, zero is neutral for the products
  and times that occur (none of them negative).
\<close>

definition zero_weight :: "floats \<Rightarrow> bool" where
  "zero_weight fl \<longleftrightarrow>
     (\<forall>n. fmul fl (of_uint fl n) (Seconds fl 0) = Seconds fl 0) \<and>
     (\<forall>n d. 0 \<le> sint d \<longrightarrow> fadd fl (Seconds fl 0) (fmul fl (of_uint fl n) (Seconds fl d)) = fmul fl (of_uint fl n) (Seconds fl d)) \<and>
     (\<forall>d. 0 \<le> sint d \<longrightarrow> fadd fl (Seconds fl 0) (Seconds fl d) = Seconds fl d)"

text \<open>The average of a sample with nothing before it.\<close>

definition alone :: "floats \<Rightarrow> i64 \<Rightarrow> u64 \<Rightarrow> u64" where
  "alone fl t b = to_uint fl (fdiv fl (fmul fl (of_uint fl b) (Seconds fl t)) (Seconds fl t))"

lemma avg_zero_weight:
  assumes "zero_weight fl" and "0 \<le> sint t"
  shows "avg_U64 fl (MakeAverageF64 (Seconds fl 0) (Seconds fl t)) a b = alone fl t b"
  using assms by (simp add: avg_U64_def MakeAverageF64_def alone_def zero_weight_def)

lemma sampled_absent: "n \<notin> name ` set xs \<Longrightarrow> foldl (\<lambda>m x. m(name x \<mapsto> f x)) m xs n = m n"
  by (induction xs arbitrary: m) auto

lemma sampled_lookup:
  assumes "distinct (map name xs)" and "x \<in> set xs"
  shows "sampled name f xs (name x) = Some (f x)"
proof -
  obtain ys zs where xs: "xs = ys @ x # zs" using assms(2) by (meson split_list)
  with assms(1) have "name x \<notin> name ` set zs" by auto
  then show ?thesis unfolding sampled_def xs by (simp add: sampled_absent)
qed

lemma foldl_from:
  "foldl (\<lambda>m x. m(name x \<mapsto> f x)) m xs n = Some e \<Longrightarrow> m n = Some e \<or> (\<exists>x. name x = n \<and> e = f x)"
proof (induction xs arbitrary: m)
  case (Cons x xs)
  then have "foldl (\<lambda>m x. m(name x \<mapsto> f x)) (m(name x \<mapsto> f x)) xs n = Some e" by (simp del: fun_upd_apply)
  from Cons.IH [OF this] show ?case by (auto split: if_splits)
qed simp

lemma sampled_from: "sampled name f xs n = Some e \<Longrightarrow> \<exists>x. name x = n \<and> e = f x"
  using foldl_from [of name f Map.empty xs n e] by (simp add: sampled_def)

text \<open>Once an entry has been averaged its time is gone.\<close>

lemma averaged_time:
  assumes "well_keyed acc" and "range_order (acc_Interfaces acc) (acc_if_order i)"
    and "range_order (acc_Flows acc) (acc_flow_order i)" and "acc_Interfaces acc n \<noteq> None"
  shows "\<exists>e. acc_Interfaces (accumulate fl i acc entry) n = Some e \<and> bi_Time e = 0"
proof (cases "sampled bi_Name (next_interface fl (acc_Interfaces acc)) (bo_Interfaces entry) n")
  case None
  with assms(4) show ?thesis
    by (auto simp: accumulate_entries [OF assms(1-3)] absent_interface_def average_interface_def)
next
  case (Some e)
  from sampled_from [OF Some]
  obtain x where "bi_Name x = n" "e = next_interface fl (acc_Interfaces acc) x" by auto
  with assms(4) have "bi_Time e = 0" by (auto simp: next_interface_def average_interface_def)
  with Some show ?thesis by (simp add: accumulate_entries [OF assms(1-3)])
qed

text \<open>
  The accumulated averages do not accumulate: an update leaves the time of the entries
  it computes at zero, and that time is the weight of the past in the next update. From the
  third sample of an interface on, its accumulated counters and rates are those of the latest
  sample alone, whatever was measured before.
\<close>

theorem accumulated_is_last_sample:
  assumes "zero_weight fl" and "accumulated fl es acc" and "acc_Interfaces acc (bi_Name x) \<noteq> None"
    and "range_order (acc_Interfaces acc) (acc_if_order i)" and "range_order (acc_Flows acc) (acc_flow_order i)"
    and "acc1 = accumulate fl i acc entry1"
    and "range_order (acc_Interfaces acc1) (acc_if_order j)" and "range_order (acc_Flows acc1) (acc_flow_order j)"
    and "x \<in> set (bo_Interfaces entry2)" and "distinct (map bi_Name (bo_Interfaces entry2))" and "0 \<le> sint (bi_Time x)"
  shows "\<exists>r. acc_Interfaces (accumulate fl j acc1 entry2) (bi_Name x) = Some r \<and>
    bi_RxBps r = alone fl (bi_Time x) (bi_RxBps x) \<and> bi_TxBps r = alone fl (bi_Time x) (bi_TxBps x) \<and>
    bi_RxBytes r = alone fl (bi_Time x) (bi_RxBytes x) \<and> bi_TxBytes r = alone fl (bi_Time x) (bi_TxBytes x)"
proof -
  have w: "well_keyed acc"
    using assms(2) by (induction rule: accumulated.induct)
      (simp_all add: accumulate_well_keyed, simp add: NewAccumulatedOutput_def well_keyed_def keyed_def)
  obtain e where e: "acc_Interfaces acc1 (bi_Name x) = Some e" "bi_Time e = 0"
    using averaged_time [OF w assms(4,5,3)] assms(6) by blast
  have w1: "well_keyed acc1" using accumulate_well_keyed [OF w assms(4,5)] assms(6) by simp
  have "acc_Interfaces (accumulate fl j acc1 entry2) (bi_Name x) = Some (next_interface fl (acc_Interfaces acc1) x)"
    using sampled_lookup [OF assms(10,9)] by (simp add: accumulate_entries [OF w1 assms(7,8)])
  with e show ?thesis
    by (simp add: next_interface_def average_interface_def avg_zero_weight [OF assms(1,11)])
qed

text \<open>Samples 100, 5000 and 7: the result is 7.\<close>

theorem accumulated_is_last_sample_witness:
  "\<exists>r. acc_Interfaces (accumulate word_floats (quiet [''halo0''])
       (accumulate word_floats (quiet [''halo0'']) acc_one (wan_entry 5000)) (wan_entry 7)) ''halo0'' = Some r \<and> bi_RxBps r = 7"
proof -
  let ?q = "quiet [''halo0'']" and ?acc1 = "accumulate word_floats (quiet [''halo0'']) acc_one (wan_entry 5000)"
  have z: "zero_weight word_floats" by (simp add: zero_weight_def word_floats_def)
  have o: "range_order (acc_Interfaces acc_one) (acc_if_order ?q)" "range_order (acc_Flows acc_one) (acc_flow_order ?q)"
    by (simp_all add: acc_one_fields range_order_def quiet_def)
  have w: "well_keyed acc_one" by (simp add: well_keyed_def keyed_def acc_one_fields wan_sample_def)
  have d: "dom (acc_Interfaces ?acc1) = {''halo0''}" "dom (acc_Flows ?acc1) = {}"
    by (auto simp: dom_def accumulate_entries [OF w o] acc_one_fields sampled_def wan_entry_def wan_sample_def split: option.splits if_splits)
  then have o1: "range_order (acc_Interfaces ?acc1) (acc_if_order ?q)" "range_order (acc_Flows ?acc1) (acc_flow_order ?q)"
    by (simp_all add: range_order_def quiet_def)
  have t: "(0::int) \<le> sint (bi_Time (wan_sample 7))" by (simp add: wan_sample_def)
  have n: "bi_Name (wan_sample 7) = ''halo0''" by (simp add: wan_sample_def)
  have p: "acc_Interfaces acc_one (bi_Name (wan_sample 7)) \<noteq> None" by (simp add: acc_one_fields n)
  have m: "wan_sample 7 \<in> set (bo_Interfaces (wan_entry 7))" "distinct (map bi_Name (bo_Interfaces (wan_entry 7)))"
    by (simp_all add: wan_entry_def)
  have "alone word_floats (bi_Time (wan_sample 7)) (bi_RxBps (wan_sample 7)) = 7"
    by (simp add: alone_def word_floats_def wan_sample_def)
  with accumulated_is_last_sample [OF z accumulated_one p o refl o1 m t] n show ?thesis by auto
qed

end
