(* ===== verification/StatsTool.thy ===== *)
theory StatsTool
  imports Servers
begin

text \<open>
  The statistics viewer (\<open>cmd/stats/main.go\<close>): a sliding window of samples per interface and
  host, one round of polling a host's statistics service, and the charts over the windows. The
  connection is a parameter; a stream is what its \<open>Recv\<close> returns call by call. Drawing on the
  terminal is left out.
\<close>

section \<open>Windows of samples\<close>

record IfcStats =
  ifc_name :: string
  rx_bps :: "f64 list"
  tx_bps :: "f64 list"

definition STATS_LEN :: nat where
  "STATS_LEN = 48"

definition NewIfcStats :: "string \<Rightarrow> nat \<Rightarrow> IfcStats" where
  "NewIfcStats name len = \<lparr>ifc_name = name, rx_bps = replicate len zero_f64, tx_bps = replicate len zero_f64\<rparr>"

record HostStats =
  host_name :: string
  host_url :: string
  host_conn :: bool
  host_ifc :: "string \<rightharpoonup> IfcStats"
  host_acl :: "f64 list"

definition NewHostStats :: "string \<Rightarrow> string \<Rightarrow> HostStats" where
  "NewHostStats name url = \<lparr>host_name = name, host_url = url, host_conn = False,
     host_ifc = [''halo_local0'' \<mapsto> NewIfcStats ''local'' STATS_LEN, ''halo0'' \<mapsto> NewIfcStats ''halo0'' STATS_LEN,
       ''halo1'' \<mapsto> NewIfcStats ''halo1'' STATS_LEN],
     host_acl = replicate STATS_LEN zero_f64\<rparr>"

text \<open>The loop of \<open>shift\<close> over an array; without an element the last index is out of range.\<close>

definition shift :: "f64 list \<Rightarrow> f64 \<Rightarrow> f64 list outcome" where
  "shift s e =
     (let n = length s;
          s' = foldl (\<lambda>s i. s[i := s ! (i + 1)]) s [0..<n - 1]
      in if n = 0 then Panic ''index out of range'' else Ok (s'[n - 1 := e]))"

section \<open>Polling a host\<close>

record IfcStatSample =
  sample_rx :: f64
  sample_tx :: f64

record HostStatSample =
  sample_ifc :: "string \<rightharpoonup> IfcStatSample"
  sample_acl :: f64

definition NewHostStatSample :: "HostStats \<Rightarrow> HostStatSample" where
  "NewHostStatSample h =
     \<lparr>sample_ifc = map_option (\<lambda>_. \<lparr>sample_rx = zero_f64, sample_tx = zero_f64\<rparr>) \<circ> host_ifc h, sample_acl = zero_f64\<rparr>"

text \<open>One result of \<open>Recv\<close>: a message, the end of the stream, another error (without a message).\<close>

datatype recv = Received pb_Interface | EOF | RecvError string

text \<open>\<open>to_f64\<close> is the conversion of an unsigned integer.\<close>

definition take_message :: "(u64 \<Rightarrow> f64) \<Rightarrow> pb_Interface \<Rightarrow> HostStatSample \<Rightarrow> HostStatSample" where
  "take_message to_f64 m s =
     (case sample_ifc s (pb_Name m) of
        None \<Rightarrow> s
      | Some _ \<Rightarrow> s\<lparr>sample_ifc := (sample_ifc s)(pb_Name m \<mapsto>
          \<lparr>sample_rx = to_f64 (RxBps (pb_Stats m)), sample_tx = to_f64 (TxBps (pb_Stats m))\<rparr>)\<rparr>)"

text \<open>The receiving loop leaves at the end of the stream only; another error is a round without a message.\<close>

partial_function (option) recv_loop ::
    "(u64 \<Rightarrow> f64) \<Rightarrow> (nat \<Rightarrow> recv) \<Rightarrow> nat \<Rightarrow> HostStatSample \<Rightarrow> HostStatSample option" where
  "recv_loop to_f64 recv n s =
     (case recv n of
        EOF \<Rightarrow> Some s
      | RecvError err \<Rightarrow> recv_loop to_f64 recv (Suc n) s
      | Received m \<Rightarrow> recv_loop to_f64 recv (Suc n) (take_message to_f64 m s))"

text \<open>
  A host as one round meets it: whether it can be dialled, the stream of its interfaces or an
  error of the call, the size of its rule cache or an error.
\<close>

record host_env =
  dial_ok :: bool
  GetInterfaces_call :: "string + (nat \<Rightarrow> recv)"
  GetAclCacheSize_call :: "string + u64"

definition Connect_host :: "host_env \<Rightarrow> HostStats \<Rightarrow> HostStats" where
  "Connect_host env h = (if host_conn h then h else h\<lparr>host_conn := dial_ok env\<rparr>)"

definition Disconnect :: "HostStats \<Rightarrow> HostStats" where
  "Disconnect h = h\<lparr>host_conn := False\<rparr>"

text \<open>The two requests of a round; \<open>None\<close> is a loop that does not end.\<close>

definition poll_interfaces ::
    "(u64 \<Rightarrow> f64) \<Rightarrow> host_env \<Rightarrow> HostStats \<times> HostStatSample \<Rightarrow> (HostStats \<times> HostStatSample) option" where
  "poll_interfaces to_f64 env hs = (case hs of (h, s) \<Rightarrow>
     if host_conn h then
       (case GetInterfaces_call env of
          Inl err \<Rightarrow> Some (Disconnect h, s)
        | Inr recv \<Rightarrow> map_option (\<lambda>s'. (h, s')) (recv_loop to_f64 recv 0 s))
     else Some (h, s))"

definition poll_acl :: "(u64 \<Rightarrow> f64) \<Rightarrow> host_env \<Rightarrow> HostStats \<times> HostStatSample \<Rightarrow> HostStats \<times> HostStatSample" where
  "poll_acl to_f64 env hs = (case hs of (h, s) \<Rightarrow>
     if host_conn h then
       (case GetAclCacheSize_call env of
          Inl err \<Rightarrow> (Disconnect h, s)
        | Inr n \<Rightarrow> (h, s\<lparr>sample_acl := to_f64 n\<rparr>))
     else (h, s))"

text \<open>Shifting in the sample of every interface, in the order of the range over the sample.\<close>

definition shift_ifc :: "IfcStats \<Rightarrow> IfcStatSample \<Rightarrow> IfcStats outcome" where
  "shift_ifc st x =
     bind_outcome (shift (rx_bps st) (sample_rx x)) (\<lambda>rx.
     bind_outcome (shift (tx_bps st) (sample_tx x)) (\<lambda>tx. Ok (st\<lparr>rx_bps := rx, tx_bps := tx\<rparr>)))"

text \<open>A name the host does not have reads as the zero value, whose windows are empty.\<close>

fun shift_all :: "(string \<rightharpoonup> IfcStatSample) \<Rightarrow> string list \<Rightarrow> (string \<rightharpoonup> IfcStats) \<Rightarrow> (string \<rightharpoonup> IfcStats) outcome" where
  "shift_all s [] m = Ok m"
| "shift_all s (name # names) m =
     (case s name of
        None \<Rightarrow> shift_all s names m
      | Some x \<Rightarrow>
          bind_outcome (shift_ifc (case m name of Some st \<Rightarrow> st | None \<Rightarrow> NewIfcStats [] 0) x) (\<lambda>st.
            shift_all s names (m(name \<mapsto> st))))"

definition finish_round :: "string list \<Rightarrow> HostStats \<times> HostStatSample \<Rightarrow> HostStats outcome" where
  "finish_round order hs = (case hs of (h, s) \<Rightarrow>
     bind_outcome (shift_all (sample_ifc s) order (host_ifc h)) (\<lambda>m.
     bind_outcome (shift (host_acl h) (sample_acl s)) (\<lambda>a. Ok (h\<lparr>host_ifc := m, host_acl := a\<rparr>))))"

text \<open>One round of \<open>Update\<close>.\<close>

definition update_round ::
    "(u64 \<Rightarrow> f64) \<Rightarrow> host_env \<Rightarrow> string list \<Rightarrow> HostStats \<Rightarrow> HostStats outcome option" where
  "update_round to_f64 env order h0 =
     (let h = Connect_host env h0
      in map_option (\<lambda>hs. finish_round order (poll_acl to_f64 env hs))
           (poll_interfaces to_f64 env (h, NewHostStatSample h0)))"

section \<open>Charts\<close>

record Sparkline =
  Title :: string
  ChartData :: "f64 list"
  MaxVal :: f64

text \<open>The options of the viewer, converted to \<open>float64\<close>.\<close>

record chart_opts =
  maxBwOpt :: f64
  maxAclOpt :: f64

definition host_window :: "HostStats \<Rightarrow> string \<Rightarrow> IfcStats" where
  "host_window h name = (case host_ifc h name of Some st \<Rightarrow> st | None \<Rightarrow> NewIfcStats [] 0)"

text \<open>
  A chart holds the window itself, which \<open>shift\<close> updates in place; the model gives what the
  chart shows for the host's windows at the time it is drawn.
\<close>

definition rx_line :: "chart_opts \<Rightarrow> HostStats \<Rightarrow> string \<Rightarrow> string \<Rightarrow> Sparkline" where
  "rx_line o' h title name = \<lparr>Title = title, ChartData = rx_bps (host_window h name), MaxVal = maxBwOpt o'\<rparr>"

definition tx_line :: "chart_opts \<Rightarrow> HostStats \<Rightarrow> string \<Rightarrow> string \<Rightarrow> Sparkline" where
  "tx_line o' h title name = \<lparr>Title = title, ChartData = tx_bps (host_window h name), MaxVal = maxBwOpt o'\<rparr>"

definition acl_line :: "chart_opts \<Rightarrow> HostStats \<Rightarrow> Sparkline" where
  "acl_line o' h = \<lparr>Title = ''acl_size'', ChartData = host_acl h, MaxVal = maxAclOpt o'\<rparr>"

definition node_title :: "HostStats \<Rightarrow> string" where
  "node_title h = ''Node: '' @ host_name h"

definition MakeNodeAWidget :: "chart_opts \<Rightarrow> HostStats \<Rightarrow> string \<times> Sparkline list" where
  "MakeNodeAWidget o' h = (node_title h,
     [rx_line o' h ''local_rx'' ''halo_local0'', tx_line o' h ''halo1_tx'' ''halo1'',
      tx_line o' h ''halo0_tx'' ''halo0'', acl_line o' h])"

definition MakeNodeBWidget :: "chart_opts \<Rightarrow> HostStats \<Rightarrow> string \<times> Sparkline list" where
  "MakeNodeBWidget o' h = (node_title h,
     [rx_line o' h ''halo1_rx'' ''halo1'', tx_line o' h ''halo0_tx'' ''halo0'', acl_line o' h])"

definition MakeNodeCWidget :: "chart_opts \<Rightarrow> HostStats \<Rightarrow> string \<times> Sparkline list" where
  "MakeNodeCWidget o' h = (node_title h,
     [rx_line o' h ''halo0_rx'' ''halo0'', rx_line o' h ''halo1_rx'' ''halo1'',
      tx_line o' h ''local_tx'' ''halo_local0'', acl_line o' h])"

definition HostStatsUrl :: "string \<Rightarrow> string" where
  "HostStatsUrl host = host @ CHR '':'' # utoa 7732"

end
