(* ===== verification/StatsProps.thy ===== *)
theory StatsProps
  imports StatsTool
begin

text \<open>
  Properties of the statistics viewer: its windows keep their length and slide by one sample a
  round, and a round ends exactly when the stream does.
\<close>

section \<open>Sliding a window\<close>

lemma shift_loop:
  assumes "k < length s"
  shows "foldl (\<lambda>s i. s[i := s ! (i + 1)]) s [0..<k] = take k (tl s) @ drop k s"
  using assms
proof (induction k)
  case (Suc k)
  have len: "length (take k (tl s)) = k" using Suc.prems by simp
  have "foldl (\<lambda>s i. s[i := s ! (i + 1)]) s [0..<Suc k] =
      (take k (tl s) @ drop k s)[k := (take k (tl s) @ drop k s) ! (k + 1)]"
    using Suc by simp
  also have "\<dots> = take k (tl s) @ (drop k s)[0 := s ! (k + 1)]"
    using Suc.prems len by (simp add: list_update_append nth_append)
  also have "(drop k s)[0 := s ! (k + 1)] = s ! Suc k # drop (Suc k) s"
    using Suc.prems by (simp add: Cons_nth_drop_Suc [symmetric])
  also have "take k (tl s) @ s ! Suc k # drop (Suc k) s = take (Suc k) (tl s) @ drop (Suc k) s"
    using Suc.prems by (simp add: take_Suc_conv_app_nth nth_tl)
  finally show ?case .
qed simp

lemma shift_slides: "s \<noteq> [] \<Longrightarrow> shift s e = Ok (tl s @ [e])"
proof -
  assume "s \<noteq> []"
  then have n: "length s - 1 < length s" by simp
  have "drop (length s - 1) s = [last s]" using \<open>s \<noteq> []\<close> by (metis append_butlast_last_id append_eq_conv_conj length_butlast)
  with shift_loop [OF n] \<open>s \<noteq> []\<close> show ?thesis
    by (simp add: shift_def list_update_append)
qed

definition slid :: "IfcStats \<Rightarrow> IfcStatSample \<Rightarrow> IfcStats" where
  "slid st x = st\<lparr>rx_bps := tl (rx_bps st) @ [sample_rx x], tx_bps := tl (tx_bps st) @ [sample_tx x]\<rparr>"

lemma shift_ifc_slid: "rx_bps st \<noteq> [] \<Longrightarrow> tx_bps st \<noteq> [] \<Longrightarrow> shift_ifc st x = Ok (slid st x)"
  by (simp add: shift_ifc_def shift_slides slid_def)

lemma shift_all_slid:
  assumes "distinct order" and "\<forall>n \<in> set order. \<exists>x. s n = Some x"
    and "\<forall>n \<in> set order. \<exists>st. m n = Some st \<and> rx_bps st \<noteq> [] \<and> tx_bps st \<noteq> []"
  shows "shift_all s order m = Ok (\<lambda>n. if n \<in> set order then Some (slid (the (m n)) (the (s n))) else m n)"
  using assms
proof (induction order arbitrary: m)
  case (Cons a order)
  from Cons.prems obtain x st where "s a = Some x" "m a = Some st" "rx_bps st \<noteq> []" "tx_bps st \<noteq> []" by auto
  moreover have "shift_all s order (m(a \<mapsto> slid st x)) =
      Ok (\<lambda>n. if n \<in> set order then Some (slid (the ((m(a \<mapsto> slid st x)) n)) (the (s n))) else (m(a \<mapsto> slid st x)) n)"
    using Cons.prems by (intro Cons.IH) auto
  ultimately show ?case using Cons.prems(1) by (auto simp: shift_ifc_slid)
qed simp

section \<open>The type of a host\<close>

definition window_ok :: "f64 list \<Rightarrow> bool" where
  "window_ok w \<longleftrightarrow> length w = STATS_LEN"

definition host_typed :: "HostStats \<Rightarrow> bool" where
  "host_typed h \<longleftrightarrow> dom (host_ifc h) = {''halo_local0'', ''halo0'', ''halo1''} \<and>
     (\<forall>st \<in> ran (host_ifc h). window_ok (rx_bps st) \<and> window_ok (tx_bps st)) \<and> window_ok (host_acl h)"

lemma NewHostStats_typed: "host_typed (NewHostStats name url)"
  by (auto simp: host_typed_def NewHostStats_def NewIfcStats_def window_ok_def ran_def split: if_splits)

text \<open>Polling changes neither the windows nor the set of names of the sample.\<close>

lemma Connect_host_keeps [simp]:
  "host_ifc (Connect_host env h) = host_ifc h" "host_acl (Connect_host env h) = host_acl h"
  by (simp_all add: Connect_host_def)

lemma dom_take_message [simp]: "dom (sample_ifc (take_message to_f64 m s)) = dom (sample_ifc s)"
  by (auto simp: take_message_def split: option.splits if_splits)

lemma recv_loop_result:
  assumes "recv_loop to_f64 recv n s = Some s'"
  shows "(\<exists>k. recv k = EOF) \<and> dom (sample_ifc s') = dom (sample_ifc s)"
  using _ assms
proof (rule recv_loop.raw_induct)
  fix rl :: "(u64 \<Rightarrow> f64) \<Rightarrow> (nat \<Rightarrow> recv) \<Rightarrow> nat \<Rightarrow> HostStatSample \<Rightarrow> HostStatSample option"
    and f :: "u64 \<Rightarrow> f64" and r :: "nat \<Rightarrow> recv" and n s s'
  assume IH: "\<And>f r n s s'. rl f r n s = Some s' \<Longrightarrow> (\<exists>k. r k = EOF) \<and> dom (sample_ifc s') = dom (sample_ifc s)"
    and step: "(case r n of EOF \<Rightarrow> Some s | RecvError err \<Rightarrow> rl f r (Suc n) s
       | Received m \<Rightarrow> rl f r (Suc n) (take_message f m s)) = Some s'"
  show "(\<exists>k. r k = EOF) \<and> dom (sample_ifc s') = dom (sample_ifc s)"
  proof (cases "r n")
    case (Received m)
    with step IH [of f r "Suc n" "take_message f m s" s'] show ?thesis by (simp del: dom_eq_empty_conv)
  next
    case EOF
    with step show ?thesis by auto
  next
    case (RecvError err)
    with step IH [of f r "Suc n" s s'] show ?thesis by simp
  qed
qed

lemma recv_loop_ends:
  assumes "recv (n + k) = EOF"
  shows "\<exists>s'. recv_loop to_f64 recv n s = Some s'"
  using assms
proof (induction k arbitrary: n s)
  case 0
  then show ?case by (subst recv_loop.simps) simp
next
  case (Suc k)
  from Suc.IH [of "Suc n"] Suc.prems show ?case by (subst recv_loop.simps) (auto split: recv.splits)
qed

text \<open>A round, as far as it ends.\<close>

lemma poll_interfaces_Some:
  assumes "poll_interfaces to_f64 env (h, s) = Some (h', s')"
  shows "host_ifc h' = host_ifc h \<and> host_acl h' = host_acl h \<and> dom (sample_ifc s') = dom (sample_ifc s)"
  using assms recv_loop_result
  by (auto simp: poll_interfaces_def Disconnect_def split: if_splits sum.splits) blast+

lemma poll_acl_keeps:
  assumes "poll_acl to_f64 env (h, s) = (h', s')"
  shows "host_ifc h' = host_ifc h \<and> host_acl h' = host_acl h \<and> sample_ifc s' = sample_ifc s"
  using assms by (auto simp: poll_acl_def Disconnect_def split: if_splits sum.splits)

text \<open>What a round does to the windows: each loses its oldest sample and gains one.\<close>

definition slides :: "f64 list \<Rightarrow> f64 list \<Rightarrow> bool" where
  "slides w w' \<longleftrightarrow> butlast w' = tl w \<and> length w' = length w"

lemma window_ok_slides: "window_ok w \<Longrightarrow> slides w (tl w @ [x]) \<and> window_ok (tl w @ [x])"
  by (auto simp: slides_def window_ok_def STATS_LEN_def)

lemma update_round_slides:
  assumes "host_typed h" and "range_order (host_ifc h) order" and "update_round to_f64 env order h = Some r"
  shows "\<exists>h'. r = Ok h' \<and> host_typed h' \<and> slides (host_acl h) (host_acl h') \<and>
    (\<forall>n st. host_ifc h n = Some st \<longrightarrow> (\<exists>st'. host_ifc h' n = Some st' \<and>
       slides (rx_bps st) (rx_bps st') \<and> slides (tx_bps st) (tx_bps st')))"
proof -
  obtain h1 s1 where 1: "poll_interfaces to_f64 env (Connect_host env h, NewHostStatSample h) = Some (h1, s1)"
    and r: "r = finish_round order (poll_acl to_f64 env (h1, s1))"
    using assms(3) by (auto simp: update_round_def Let_def)
  obtain h2 s2 where 2: "poll_acl to_f64 env (h1, s1) = (h2, s2)" by fastforce
  have keep: "host_ifc h2 = host_ifc h" "host_acl h2 = host_acl h" "dom (sample_ifc s2) = dom (host_ifc h)"
    using poll_interfaces_Some [OF 1] poll_acl_keeps [OF 2] by (auto simp: NewHostStatSample_def)
  note t = assms(1) [unfolded host_typed_def]
  have ok: "window_ok (rx_bps st) \<and> window_ok (tx_bps st)" if "host_ifc h n = Some st" for n st
    using t that by (auto simp: ran_def)
  have ne: "w \<noteq> []" if "window_ok w" for w using that by (auto simp: window_ok_def STATS_LEN_def)
  let ?m = "\<lambda>n. if n \<in> set order then Some (slid (the (host_ifc h n)) (the (sample_ifc s2 n))) else host_ifc h n"
  have o: "distinct order" "set order = dom (host_ifc h)" using assms(2) by (simp_all add: range_order_def)
  have "shift_all (sample_ifc s2) order (host_ifc h) = Ok ?m"
  proof (rule shift_all_slid [OF o(1)])
    show "\<forall>n\<in>set order. \<exists>x. sample_ifc s2 n = Some x" using o(2) keep(3) by auto
    show "\<forall>n\<in>set order. \<exists>st. host_ifc h n = Some st \<and> rx_bps st \<noteq> [] \<and> tx_bps st \<noteq> []"
      using o(2) ok ne by (metis domD)
  qed
  moreover have "host_acl h \<noteq> []" by (rule ne [OF t [THEN conjunct2, THEN conjunct2]])
  ultimately have r': "r = Ok (h2\<lparr>host_ifc := ?m, host_acl := tl (host_acl h) @ [sample_acl s2]\<rparr>)"
    using keep by (simp add: r 2 finish_round_def shift_slides)
  have each: "?m n = Some (slid st (the (sample_ifc s2 n)))" if "host_ifc h n = Some st" for n st
    using that o(2) by auto
  have out: "?m n = None" if "host_ifc h n = None" for n using that o(2) by auto
  have sl: "slides (rx_bps st) (rx_bps (slid st x)) \<and> window_ok (rx_bps (slid st x)) \<and>
      slides (tx_bps st) (tx_bps (slid st x)) \<and> window_ok (tx_bps (slid st x))" if "host_ifc h n = Some st" for n st x
    using ok [OF that] by (simp add: slid_def window_ok_slides)
  have "dom ?m = dom (host_ifc h)" using o(2) by (auto simp: dom_def)
  also have "\<dots> = {''halo_local0'', ''halo0'', ''halo1''}" by (rule t [THEN conjunct1])
  finally have d: "dom ?m = {''halo_local0'', ''halo0'', ''halo1''}" .
  have w: "window_ok (rx_bps st') \<and> window_ok (tx_bps st')" if "?m n = Some st'" for n st'
  proof (cases "host_ifc h n")
    case (Some st)
    with that each sl show ?thesis by (metis option.inject)
  qed (use that out in simp)
  have rn: "\<forall>st \<in> ran ?m. window_ok (rx_bps st) \<and> window_ok (tx_bps st)"
    unfolding ran_def using w by blast
  have acl: "slides (host_acl h) (tl (host_acl h) @ [sample_acl s2])" "window_ok (tl (host_acl h) @ [sample_acl s2])"
    using window_ok_slides [OF t [THEN conjunct2, THEN conjunct2]] by simp_all
  define hr where "hr = h2\<lparr>host_ifc := ?m, host_acl := tl (host_acl h) @ [sample_acl s2]\<rparr>"
  have f: "host_ifc hr = ?m" "host_acl hr = tl (host_acl h) @ [sample_acl s2]" by (simp_all add: hr_def)
  have typed: "host_typed hr" unfolding host_typed_def f using d rn acl(2) by (intro conjI)
  have win: "\<exists>st'. host_ifc hr n = Some st' \<and> slides (rx_bps st) (rx_bps st') \<and> slides (tx_bps st) (tx_bps st')"
    if "host_ifc h n = Some st" for n st
    unfolding f using each [OF that] sl [OF that] by blast
  have "r = Ok hr" by (simp only: r' hr_def)
  moreover have "slides (host_acl h) (host_acl hr)" using acl(1) f(2) by simp
  ultimately show ?thesis using typed win by blast
qed

inductive host_reachable :: "(u64 \<Rightarrow> f64) \<Rightarrow> HostStats \<Rightarrow> bool" for to_f64 where
  host_new: "host_reachable to_f64 (NewHostStats name url)"
| host_round: "host_reachable to_f64 h \<Longrightarrow> range_order (host_ifc h) order \<Longrightarrow>
    update_round to_f64 env order h = Some (Ok h') \<Longrightarrow> host_reachable to_f64 h'"

text \<open>
  \<^bold>\<open>C26\<close>. The windows of a viewer keep their shape: a host always has exactly its three interfaces,
  each with a window of 48 receive and 48 transmit samples, and 48 samples of the rule cache;
  a round that ends never panics, and moves every window by one sample, the oldest leaving,
  whatever the host sent, also when it was not reached.
\<close>

theorem windows_typed:
  assumes "host_reachable to_f64 h"
  shows "host_typed h \<and> (\<forall>order env r. range_order (host_ifc h) order \<longrightarrow> update_round to_f64 env order h = Some r \<longrightarrow>
    (\<exists>h'. r = Ok h' \<and> slides (host_acl h) (host_acl h') \<and>
      (\<forall>n st. host_ifc h n = Some st \<longrightarrow> (\<exists>st'. host_ifc h' n = Some st' \<and>
         slides (rx_bps st) (rx_bps st') \<and> slides (tx_bps st) (tx_bps st')))))"
proof -
  have "host_typed h" using assms
    by (induction rule: host_reachable.induct) (use NewHostStats_typed update_round_slides in blast)+
  then show ?thesis using update_round_slides by meson
qed

theorem windows_typed_witness:
  "host_reachable F64 (NewHostStats ''halo-a'' (HostStatsUrl ''192.168.50.36'')) \<and>
   host_typed (NewHostStats ''halo-a'' (HostStatsUrl ''192.168.50.36''))"
  using windows_typed [OF host_new [of F64 "''halo-a''" "HostStatsUrl ''192.168.50.36''"]] host_new by blast

text \<open>
  \<^bold>\<open>C40\<close>. A round with a connected host comes to an end exactly if its stream reaches its regular
  end: the loop does not leave on an error. A stream that breaks, whose \<open>Recv\<close> then returns the
  same error for ever, keeps \<open>Update\<close> in that loop and its windows stand still.
\<close>

theorem broken_stream_never_ends:
  assumes "host_conn (Connect_host env h)" and "GetInterfaces_call env = Inr recv"
  shows "update_round to_f64 env order h \<noteq> None \<longleftrightarrow> (\<exists>k. recv k = EOF)"
proof -
  have "recv_loop to_f64 recv 0 s \<noteq> None \<longleftrightarrow> (\<exists>k. recv k = EOF)" for s
  proof
    assume "recv_loop to_f64 recv 0 s \<noteq> None"
    then obtain s' where "recv_loop to_f64 recv 0 s = Some s'" by blast
    from recv_loop_result [OF this] show "\<exists>k. recv k = EOF" by blast
  next
    assume "\<exists>k. recv k = EOF"
    then obtain k where "recv (0 + k) = EOF" by auto
    from recv_loop_ends [where recv = recv and n = 0, OF this] show "recv_loop to_f64 recv 0 s \<noteq> None" by blast
  qed
  with assms show ?thesis by (simp add: update_round_def poll_interfaces_def Let_def)
qed

text \<open>One message, then a deadline that has passed.\<close>

definition late_host :: host_env where
  "late_host = \<lparr>dial_ok = True,
     GetInterfaces_call = Inr (\<lambda>n. if n = 0 then Received \<lparr>pb_Name = ''halo0'', pb_Stats = zero_telemetry\<rparr>
       else RecvError ''context deadline exceeded''),
     GetAclCacheSize_call = Inr 0\<rparr>"

theorem broken_stream_never_ends_witness:
  "update_round F64 late_host [''halo0'', ''halo1'', ''halo_local0''] (NewHostStats ''halo-a'' []) = None"
proof -
  let ?recv = "\<lambda>n. if n = 0 then Received \<lparr>pb_Name = ''halo0'', pb_Stats = zero_telemetry\<rparr>
       else RecvError ''context deadline exceeded''"
  have "host_conn (Connect_host late_host (NewHostStats ''halo-a'' []))"
    by (simp add: Connect_host_def late_host_def NewHostStats_def)
  moreover have "GetInterfaces_call late_host = Inr ?recv" by (simp add: late_host_def)
  moreover have "?recv k \<noteq> EOF" for k :: nat by simp
  ultimately show ?thesis using broken_stream_never_ends by blast
qed

end
