(* ===== verification/RefineProps.thy ===== *)
theory RefineProps
  imports SteerProps Servers
begin

text \<open>
  Two parts of the program against what they stand for. The registry implements a table from
  names to interfaces: an abstract machine on maps, simulated by the operations on the store,
  the lookup maps and the sorted name lists. The rule cache implements the set of steered flows.
\<close>

section \<open>The table\<close>

type_synonym table = "string \<rightharpoonup> Interface"

datatype registry_op =
    OpNew "OptionInterface list"
  | OpRemove string
  | OpDelay string f64 f64

definition table_new :: "OptionInterface list \<Rightarrow> table \<Rightarrow> table" where
  "table_new ops m =
     (case apply_options ops fresh_interface of
        Ok i \<Rightarrow> if m (Upper i) = None then m(Upper i \<mapsto> i) else m
      | _ \<Rightarrow> m)"

primrec table_op :: "registry_op \<Rightarrow> table \<Rightarrow> table" where
  "table_op (OpNew ops) m = table_new ops m"
| "table_op (OpRemove u) m = m(u := None)"
| "table_op (OpDelay u d j) m =
     m(u := map_option (\<lambda>i. i\<lparr>Stats := (Stats i)\<lparr>LinkDelay := d, LinkJitter := j\<rparr>\<rparr>) (m u))"

primrec do_op :: "'m target_manager \<Rightarrow> registry_op \<Rightarrow> 'm registry \<Rightarrow> 'm registry" where
  "do_op tm (OpNew ops) reg = snd (NewInterface tm ops reg)"
| "do_op tm (OpRemove u) reg = snd (RemoveInterface tm u reg)"
| "do_op tm (OpDelay u d j) reg = updateInterfaceDelayJitter u d j reg"

text \<open>The table's names of a kind, in order.\<close>

definition table_names :: "(Interface \<Rightarrow> bool) \<Rightarrow> table \<Rightarrow> string list" where
  "table_names P m = sorted_list_of_set {u. \<exists>i. m u = Some i \<and> P i}"

section \<open>Simulation\<close>

lemma registered_New:
  assumes "registry_inv reg"
  shows "registered (snd (NewInterface tm ops reg)) = table_new ops (registered reg)"
proof -
  have inv: "maps_sound reg" "store_bounded reg" using assms by (simp_all add: registry_inv_def)
  show ?thesis
  proof (cases "apply_options ops fresh_interface")
    case (Ok i)
    note none = registered_None [OF inv(1), of "Upper i"]
    show ?thesis
    proof (cases "Upper2Interface reg (Upper i)")
      case None
      with NewInterface_Ok [OF Ok None, of tm] Ok none show ?thesis
        by (auto simp: table_new_def fun_eq_iff registered_register [OF inv])
    next
      case (Some q)
      with Ok none show ?thesis by (auto simp: table_new_def NewInterface_def)
    qed
  qed (simp_all add: table_new_def NewInterface_def)
qed

lemma registered_monitor [simp]: "registered (reg\<lparr>monitor := m\<rparr>) = registered reg"
  by (simp add: fun_eq_iff registered_def deref_def)

lemma registered_Remove:
  assumes "registry_inv reg"
  shows "registered (snd (RemoveInterface tm u reg)) = (registered reg)(u := None)"
  using assms
proof (cases rule: RemoveInterface_cases [where u = u and tm = tm])
  case absent
  then show ?thesis by auto
next
  case (gone ifc r m)
  then show ?thesis by (auto simp: fun_eq_iff registered_unregister)
qed

lemma registered_Delay:
  assumes "registry_inv reg"
  shows "registered (updateInterfaceDelayJitter u d j reg) = table_op (OpDelay u d j) (registered reg)"
proof (cases "Upper2Interface reg u")
  case None
  then have "registered reg u = None" by (simp add: registered_def deref_def)
  with None show ?thesis by (simp add: updateInterfaceDelayJitter_def fun_upd_idem)
next
  case (Some r)
  have "v = u" if "Upper2Interface reg v = Some r" for v
    using maps_soundD(1) [OF registry_inv_sound [OF assms] Some]
      maps_soundD(1) [OF registry_inv_sound [OF assms] that] by auto
  then have only: "Upper2Interface reg v = Some r \<longleftrightarrow> v = u" for v using Some by blast
  show ?thesis
  proof
    fix v
    show "registered (updateInterfaceDelayJitter u d j reg) v = table_op (OpDelay u d j) (registered reg) v"
      by (simp add: updateInterfaceDelayJitter_def Some registered_modify only)
  qed
qed

lemma do_op_simulates:
  assumes "registry_inv reg"
  shows "registered (do_op tm p reg) = table_op p (registered reg) \<and> registry_inv (do_op tm p reg)"
proof (cases p)
  case (OpNew ops)
  with registered_New [OF assms] registry_inv_New [OF assms, of tm ops] show ?thesis by (simp add: prod_eq_iff)
next
  case (OpRemove u)
  with registered_Remove [OF assms] registry_inv_Remove [OF assms, of tm u] show ?thesis by (simp add: prod_eq_iff)
next
  case (OpDelay u d j)
  with registered_Delay [OF assms] registry_inv_updateInterfaceDelayJitter [OF assms] show ?thesis by simp
qed

interpretation registry_sim: simulation registered registry_inv "do_op tm" table_op for tm :: "'m target_manager"
  by unfold_locales (simp_all add: do_op_simulates)

lemma registry_lists:
  assumes "registry_inv reg"
  shows "LanSorted reg = table_names (\<lambda>i. \<not> IsWan i) (registered reg) \<and> WanSorted reg = table_names IsWan (registered reg)"
proof -
  note n = registry_inv_names [OF assms, unfolded names_sound_def]
  have sets: "{u. \<exists>i. registered reg u = Some i \<and> \<not> IsWan i} = set (LanSorted reg)"
    "{u. \<exists>i. registered reg u = Some i \<and> IsWan i} = set (WanSorted reg)"
    using n by auto
  have "sorted (LanSorted reg)" "distinct (LanSorted reg)" "sorted (WanSorted reg)" "distinct (WanSorted reg)"
    using n by blast+
  then show ?thesis
    unfolding table_names_def sets
    by (simp add: sorted_list_of_set_sort_remdups distinct_remdups_id sorted_sort_id)
qed

text \<open>
  \<^bold>\<open>C4\<close>. The registry refines a table from names to interfaces: after any sequence of
  creations (also refused ones), removals and measurements from a start, the interface found
  under a name is the table's, and the two lists that the visitors walk are the table's LAN and
  WAN names in order, whatever the gNMI manager answers.
\<close>

theorem registry_refines_table:
  fixes tm :: "'m target_manager" and ops :: "registry_op list"
  assumes "store_bounded reg"
  defines "reg' \<equiv> foldl (\<lambda>r p. do_op tm p r) (registry_reset reg) ops"
    and "m \<equiv> foldl (\<lambda>m p. table_op p m) Map.empty ops"
  shows "registered reg' = m \<and> LanSorted reg' = table_names (\<lambda>i. \<not> IsWan i) m \<and> WanSorted reg' = table_names IsWan m"
proof -
  have start: "registry_inv (registry_reset reg)" by (rule registry_inv_reset [OF assms(1)])
  have "registered (registry_reset reg) = Map.empty" by (simp add: fun_eq_iff registered_def deref_def)
  with registry_sim.run_abs [OF start] registry_sim.run_inv [OF start]
  have "registered reg' = m" "registry_inv reg'"
    by (simp_all add: reg'_def m_def registry_sim.run_def registry_sim.arun_def)
  with registry_lists show ?thesis by blast
qed

definition halo0_options :: "OptionInterface list" where
  "halo0_options = wan_options ''halo0'' ''ge1'' 7"

theorem registry_refines_table_witness:
  "registered (foldl (\<lambda>r p. do_op name_manager p r) (registry_reset empty_registry)
     [OpNew halo0_options, OpNew halo0_options, OpDelay ''halo0'' (F64 1) (F64 2)]) ''halo0'' =
   Some ((wan_interface ''halo0'' ''ge1'' 7)\<lparr>Stats :=
     (Stats (wan_interface ''halo0'' ''ge1'' 7))\<lparr>LinkDelay := F64 1, LinkJitter := F64 2\<rparr>\<rparr>)"
proof -
  have "store_bounded empty_registry" by simp
  from registry_refines_table [OF this, of name_manager "[OpNew halo0_options, OpNew halo0_options, OpDelay ''halo0'' (F64 1) (F64 2)]"]
  show ?thesis
    using wan_options_interface [of "''halo0''" "''ge1''" 7] by (simp add: halo0_options_def table_new_def)
qed

section \<open>The steered flows\<close>

text \<open>
  A history of calls of \<open>Steer\<close> and \<open>RemoveSteer\<close>, on any device and with any of a set of
  registries, with the set of flows that are steered after it: what succeeded calls added less
  what they removed.
\<close>

inductive steered :: "'m registry set \<Rightarrow> 'd netconf \<Rightarrow> 'd steering \<Rightarrow> string set \<Rightarrow> bool" for regs nc where
  steered_start: "aclRules st = Map.empty \<Longrightarrow> accessListID st = 10 \<Longrightarrow> steered regs nc st {}"
| steered_more: "steered regs nc st S \<Longrightarrow> reg \<in> regs \<Longrightarrow> batch_ok orders items st \<Longrightarrow>
    Steer nc reg orders items st = (r, st') \<Longrightarrow>
    steered regs nc st' (if is_ok r then S \<union> item_key ` set items else S)"
| steered_less: "steered regs nc st S \<Longrightarrow> \<forall>j. range_order (aclRules st) (orders j) \<Longrightarrow>
    RemoveSteer nc orders fks st = (r, st') \<Longrightarrow> steered regs nc st' (if is_ok r then S - AsKey ` set fks else S)"

lemma steered_cache:
  assumes "steered regs nc st S"
  shows "ran (aclRules st) = S \<and> cache_inv (aclRules st) (accessListID st)"
  using assms
proof (induction rule: steered.induct)
  case (steered_start st)
  then show ?case by (simp add: cache_inv_def ids_below_def)
next
  case (steered_more st S reg orders items r st')
  then have inv: "cache_inv (aclRules st) (accessListID st)" and S: "ran (aclRules st) = S" by simp_all
  show ?case
  proof (cases "is_ok r")
    case True
    then obtain u where "r = Ok u" by (auto simp: is_ok_iff)
    with steered_more.hyps(4) have "Steer nc reg orders items st = (Ok u, st')" by simp
    note b = Steer_batch(2,3) [OF inv steered_more.hyps(3) this]
    show ?thesis using b S True by simp
  next
    case False
    have "accessListID st + 10 * int (length items) < 2 ^ 63" "\<forall>j. range_order (aclRules st) (orders j)"
      using steered_more.hyps(3) by (simp_all add: batch_ok_def)
    with Steer_not_Ok [OF steered_more.hyps(4) False cache_inv_below [OF inv]] S False cache_inv_mono [OF inv] show ?thesis
      by auto
  qed
next
  case (steered_less st S orders fks r st')
  then have inv: "cache_inv (aclRules st) (accessListID st)" and S: "ran (aclRules st) = S" by simp_all
  note c = RemoveSteer_cases [OF steered_less.hyps(3,2)]
  show ?case
  proof (cases "is_ok r")
    case True
    with c have st': "aclRules st' = (\<lambda>k. if cached_flow fks (aclRules st k) then None else aclRules st k)"
      "accessListID st' = accessListID st" by simp_all
    have "ran (aclRules st') = S - AsKey ` set fks"
    proof -
      have "aclRules st' k = Some v \<longleftrightarrow> aclRules st k = Some v \<and> v \<notin> AsKey ` set fks" for k v
        unfolding st'(1) by (auto simp: cached_flow_def)
      then show ?thesis by (auto simp: ran_def S [symmetric])
    qed
    with True st' cache_inv_restrict [OF inv] show ?thesis by simp
  next
    case False
    with c S inv show ?thesis by simp
  qed
qed

text \<open>
  \<^bold>\<open>C3\<close>. The rule cache refines the set of steered flows: after any history of steering and
  removing from an empty cache with 10 as the next id, in which no single call of \<open>Steer\<close> names a
  flow twice and the ids stay below 2^63, and of which any call may have failed, on any device,
  the flows in the cache are exactly those that successful calls steered and none has removed
  since, each under one id, and the size the statistics service reports is their number.
\<close>

theorem steering_refines_flow_set:
  assumes "steered regs nc (hal_steering h) S"
  shows "ran (aclRules (hal_steering h)) = S \<and> finite S \<and>
    GetAclCacheSize h = word_of_nat (card S) \<and> inj_on (aclRules (hal_steering h)) (dom (aclRules (hal_steering h)))"
proof -
  let ?m = "aclRules (hal_steering h)"
  have ran: "ran ?m = S" and inj: "inj_on ?m (dom ?m)" and fin: "finite (dom ?m)"
    using steered_cache [OF assms] by (simp_all add: cache_inv_def)
  have "Some ` ran ?m = ?m ` dom ?m" by (auto simp: ran_def dom_def image_iff) metis
  then have "card (Some ` ran ?m) = card (dom ?m)" using card_image [OF inj] by simp
  moreover have "card (Some ` ran ?m) = card (ran ?m)" by (rule card_image) simp
  ultimately have "card (dom ?m) = card S" using ran by simp
  with ran inj fin finite_ran show ?thesis by (auto simp: GetAclCacheSize_def)
qed

definition one_config :: HalCfg where
  "one_config = \<lparr>Netconf = \<lparr>User = [], Password = []\<rparr>, DnosAddr = [], LocalIfname = [],
     IfcSamplingInterval = F64 1, FlowThreshold = 0, SkipTwamp = False, FlushSteer = False,
     StatsServer = False, Debug = False,
     Lan = \<lparr>CfgUpper = [], CfgLower = [], HwAddr = [], Ipv4Addr = []\<rparr>, Wan = [],
     Topo = \<lparr>TopoNextHop = Map.empty, TopoTwamp = Map.empty, TopoPeer = Map.empty\<rparr>\<rparr>"

theorem steering_refines_flow_set_witness:
  "\<exists>st S. steered {one_wan} log_device st S \<and> S = {AsKey (web_flow 1)} \<and>
     GetAclCacheSize \<lparr>initialized = True, grpcAddr = [], UpdateInterval = 0, interfaces = one_wan,
       hal_flows = InitFlows 0, hal_steering = st, config = one_config, configRequired = True\<rparr> = 1"
proof -
  have "list_all2 (\<lambda>it nh. item_nexthop one_wan (NextHop it) = Ok nh \<and> length nh \<in> {0, 4, 16})
      [to_halo0 1] [IPv4 10 0 0 1]" by simp
  from Steer_accepts [where orders = "\<lambda>_. []", OF log_device_accepts steer_start_fields(3) list.distinct(2) this]
  obtain st1 where s: "Steer log_device one_wan (\<lambda>_. []) [to_halo0 1] steer_start = (Ok (), st1)" by blast
  have "steered {one_wan} log_device steer_start {}" by (rule steered_start) simp_all
  moreover have "batch_ok (\<lambda>_. []) [to_halo0 1] steer_start" by (simp add: batch_ok_def)
  ultimately have "steered {one_wan} log_device st1 (if is_ok (Ok ()) then {} \<union> item_key ` set [to_halo0 1] else {})"
    by (rule steered_more [OF _ singletonI _ s])
  then have st1: "steered {one_wan} log_device st1 {AsKey (web_flow 1)}" by simp
  let ?h = "\<lparr>initialized = True, grpcAddr = [], UpdateInterval = 0, interfaces = one_wan,
       hal_flows = InitFlows 0, hal_steering = st1, config = one_config, configRequired = True\<rparr>"
  from st1 have "steered {one_wan} log_device (hal_steering ?h) {AsKey (web_flow 1)}" by simp
  from steering_refines_flow_set [OF this] have "GetAclCacheSize ?h = 1" by simp
  with st1 show ?thesis by blast
qed

end
