(* ===== verification/TwampTool.thy ===== *)
theory TwampTool
  imports TwampTest FlowKeys
begin

text \<open>
  The TWAMP tool (\<open>cmd/twamp/main.go\<close>) and what only it uses of the package: a series whose
  length comes from the command line, the series that prints as it goes (\<open>Ping\<close>), and the run
  of the tool from its arguments to the end of the session. The state of the printing steps is
  what has been printed and the test. The formatting of \<open>float64\<close> and of JSON are parameters.
\<close>

section \<open>A series of any length\<close>

text \<open>
  \<open>RunX\<close> for an \<open>int\<close> count: none of the probes is sent for a negative one, and the average
  divides by it all the same.
\<close>

definition RunX_count ::
    "'f float_ops \<Rightarrow> int \<Rightarrow> (nat \<Rightarrow> probe) \<Rightarrow> int \<Rightarrow> TwampTest \<Rightarrow> 'f PingResults outcome \<times> TwampTest" where
  "RunX_count fp zone probes n = bind_state (probe_loop zone 0 (map probes [0..<nat n]) empty_tally) (\<lambda>a t.
     (summarize fp True n a, t))"

lemma RunX_count_RunX:
  "0 \<le> n \<Longrightarrow> RunX_count fp zone probes n = RunX fp zone (map probes [0..<nat n])"
  by (simp add: RunX_count_def RunX_def)

section \<open>Printing\<close>

type_synonym console = "string \<times> TwampTest"

definition print :: "string \<Rightarrow> console \<Rightarrow> unit outcome \<times> console" where
  "print s = (\<lambda>(out, t). (Ok (), out @ s, t))"

definition on_test :: "(TwampTest \<Rightarrow> 'a outcome \<times> TwampTest) \<Rightarrow> console \<Rightarrow> 'a outcome \<times> console" where
  "on_test m = (\<lambda>(out, t). case m t of (r, t') \<Rightarrow> (r, out, t'))"

definition packet_size :: "TwampTest \<Rightarrow> int" where
  "packet_size t = 14 + Padding (session_config (test_session t))"

text \<open>A duration in milliseconds, to three places; \<open>fmt\<close> prints a number to so many places.\<close>

definition millis :: "'f float_ops \<Rightarrow> (nat \<Rightarrow> 'f \<Rightarrow> string) \<Rightarrow> i64 \<Rightarrow> string" where
  "millis fp fmt d = fmt 3 (f_div fp (of_int64 fp (sint d)) (of_int64 fp 1000000))"

text \<open>What a probe prints: a mark, or a line if it is answered.\<close>

definition probe_text ::
    "'f float_ops \<Rightarrow> (nat \<Rightarrow> 'f \<Rightarrow> string) \<Rightarrow> string \<Rightarrow> int \<Rightarrow> bool \<Rightarrow> TwampResults option \<Rightarrow> string" where
  "probe_text fp fmt host size1 isRapid result =
     (case result of
        None \<Rightarrow> if isRapid then ''.'' else []
      | Some r \<Rightarrow>
          if isRapid then ''!''
          else itoa size1 @ '' bytes from '' @ host @ '': twamp_seq='' @ utoa (unat (SenderSeqNum r)) @
            '' ttl='' @ utoa (unat (SenderTTL r)) @ '' time='' @ millis fp fmt (GetRTT r) @ '' ms'' @ newline)"

definition summary_text :: "'f float_ops \<Rightarrow> (nat \<Rightarrow> 'f \<Rightarrow> string) \<Rightarrow> string \<Rightarrow> 'f PingResultStats \<Rightarrow> string" where
  "summary_text fp fmt host st =
     ''--- '' @ host @ '' twamp ping statistics ---'' @ newline @
     itoa (Transmitted st) @ '' packets transmitted, '' @ itoa (Received st) @ '' packets received, '' @
     fmt 1 (Loss st) @ ''% packet loss'' @ newline @
     ''round-trip min/avg/max/stddev = '' @ millis fp fmt (MinRTT st) @ ''/'' @ millis fp fmt (Avg st) @ ''/'' @
     millis fp fmt (MaxRTT st) @ ''/'' @ millis fp fmt (StdDev st) @ '' ms'' @ newline"

section \<open>Ping\<close>

fun ping_loop ::
    "int \<Rightarrow> (TwampResults option \<Rightarrow> string) \<Rightarrow> nat \<Rightarrow> probe list \<Rightarrow> tally \<Rightarrow> console \<Rightarrow> tally outcome \<times> console" where
  "ping_loop zone show1 i [] a = (\<lambda>s. (Ok a, s))"
| "ping_loop zone show1 i (p # ps) a = (\<lambda>(out, t).
     let a' = a\<lparr>t_Transmitted := t_Transmitted a + 1\<rparr>
     in case Run zone p t of
          (Ok r, t') \<Rightarrow> ping_loop zone show1 (Suc i) ps (count_result i r a') (out @ show1 (Some r), t')
        | (Err e, t') \<Rightarrow> ping_loop zone show1 (Suc i) ps a' (out @ show1 None, t')
        | (Fatal e, t') \<Rightarrow> (Fatal e, out, t')
        | (Panic e, t') \<Rightarrow> (Panic e, out, t')
        | (Blocked, t') \<Rightarrow> (Blocked, out, t'))"

text \<open>The pause between two probes only shows in the clock readings of the probes.\<close>

definition Ping ::
    "'f float_ops \<Rightarrow> (nat \<Rightarrow> 'f \<Rightarrow> string) \<Rightarrow> int \<Rightarrow> string \<Rightarrow> (nat \<Rightarrow> probe) \<Rightarrow> int \<Rightarrow> bool \<Rightarrow>
     console \<Rightarrow> 'f PingResults outcome \<times> console" where
  "Ping fp fmt zone host probes n isRapid = (\<lambda>s0.
     let size1 = packet_size (snd s0)
     in bind_state (print (''TWAMP PING '' @ host @ '': '' @ itoa size1 @ '' data bytes'' @ newline)) (\<lambda>_.
        bind_state (ping_loop zone (probe_text fp fmt host size1 isRapid) 0 (map probes [0..<nat n]) empty_tally) (\<lambda>a.
        bind_state (print (if isRapid then newline else [])) (\<lambda>_.
        bind_state (\<lambda>s. (summarize fp False n a, s)) (\<lambda>res.
        bind_state (print (summary_text fp fmt host (Stat res))) (\<lambda>_ s. (Ok res, s)))))) s0)"

section \<open>The tool\<close>

text \<open>The flags; the flag of the interval only sets the pause.\<close>

record tool_flags =
  flag_count :: int
  flag_rapid :: bool
  flag_size :: int
  flag_tos :: int
  flag_wait :: int
  flag_sport :: int
  flag_rport :: int
  flag_mode :: string

record 'f tool_env =
  tool_dial :: "string \<Rightarrow> TwampConnection outcome"
  tool_net :: "(string, arrivals) udp_network"
  tool_now :: int
  tool_zone :: int
  tool_probes :: "nat \<Rightarrow> probe"
  tool_floats :: "'f float_ops"
  tool_fmt :: "nat \<Rightarrow> 'f \<Rightarrow> string"
  json_Marshal :: "'f PingResults \<Rightarrow> string outcome"

text \<open>\<open>if err != nil { log.Fatal(err) }\<close>\<close>

primrec die_on_err :: "'a outcome \<Rightarrow> 'a outcome" where
  "die_on_err (Ok a) = Ok a"
| "die_on_err (Err e) = Fatal e"
| "die_on_err (Fatal e) = Fatal e"
| "die_on_err (Panic e) = Panic e"
| "die_on_err Blocked = Blocked"

definition FormatJSON :: "('f PingResults \<Rightarrow> string outcome) \<Rightarrow> 'f PingResults \<Rightarrow> console \<Rightarrow> unit outcome \<times> console" where
  "FormatJSON marshal r = bind_state (\<lambda>s. (die_on_err (marshal r), s)) (\<lambda>doc. print (doc @ newline))"

definition session_flags :: "tool_flags \<Rightarrow> TwampSessionConfig" where
  "session_flags flags =
     \<lparr>SenderPort = flag_sport flags, ReceiverPort = flag_rport flags, Padding = flag_size flags,
      Timeout = flag_wait flags, TOS = flag_tos flags\<rparr>"

text \<open>An unknown mode measures nothing.\<close>

definition run_mode :: "'f tool_env \<Rightarrow> tool_flags \<Rightarrow> string \<Rightarrow> console \<Rightarrow> unit outcome \<times> console" where
  "run_mode env flags host =
     (if flag_mode flags = ''json''
      then bind_state (on_test (RunX_count (tool_floats env) (tool_zone env) (tool_probes env) (flag_count flags)))
             (FormatJSON (json_Marshal env))
      else if flag_mode flags = ''ping''
      then bind_state (Ping (tool_floats env) (tool_fmt env) (tool_zone env) host (tool_probes env) (flag_count flags)
             (flag_rapid flags)) (\<lambda>_ s. (Ok (), s))
      else (\<lambda>s. (Ok (), s)))"

definition open_session ::
    "'f tool_env \<Rightarrow> TwampSessionConfig \<Rightarrow> string \<Rightarrow> (TwampConnection \<times> TwampTest) outcome" where
  "open_session env config remoteServer =
     bind_outcome (die_on_err (Connect (tool_dial env) remoteServer)) (\<lambda>c.
     (case CreateSession (tool_zone env) (tool_now env) config c of (r, c1) \<Rightarrow>
        bind_outcome (die_on_err r) (\<lambda>s.
        (case CreateTest (tool_net env) s c1 of (r, c2) \<Rightarrow>
           bind_outcome (die_on_err r) (\<lambda>u.
             Ok (c2, \<lparr>test_session = s, seq = 0, udp_pending = u, udp_sent = []\<rparr>))))))"

text \<open>What the tool has printed, its control connection and its test, if it runs to its end.\<close>

definition twamp_main ::
    "'f tool_env \<Rightarrow> tool_flags \<Rightarrow> string list \<Rightarrow> (string \<times> TwampConnection \<times> TwampTest) outcome" where
  "twamp_main env flags args =
     (case args of
        [] \<Rightarrow> Fatal ''No hostname or IP address was specified.''
      | remoteIP # _ \<Rightarrow>
          bind_outcome (open_session env (session_flags flags) (remoteIP @ '':862'')) (\<lambda>(c, t).
          (case run_mode env flags (test_host (RemoteAddr c)) ([], t) of (r, out, t') \<Rightarrow>
             bind_outcome r (\<lambda>_.
             (case Stop c of (r, c') \<Rightarrow> bind_outcome r (\<lambda>_. Ok (out, conn_Close c', t')))))))"

end
