(* ===== verification/TwampToolProps.thy ===== *)
theory TwampToolProps
  imports TwampTool TwampProps PingProps
begin

text \<open>
  Properties of the TWAMP tool: its printing series measures what \<open>RunX\<close> measures, and with a
  server and a reflector that answer it runs from the dialogue on the control connection to the
  printed report.
\<close>

section \<open>Ping measures what RunX measures\<close>

lemma ping_loop_probe_loop:
  "(case ping_loop zone show1 i ps a (out, t) of (r, _, t') \<Rightarrow> (r, t')) = probe_loop zone i ps a t"
proof (induction ps arbitrary: i a out t)
  case (Cons p ps)
  obtain r t' where r: "Run zone p t = (r, t')" by fastforce
  then show ?case using Cons.IH by (cases r) (simp_all add: Let_def)
qed simp

definition without_jitter :: "'f PingResults \<Rightarrow> 'f PingResults" where
  "without_jitter res = res\<lparr>Stat := (Stat res)\<lparr>Jitter := 0\<rparr>\<rparr>"

lemma summarize_jitter: "summarize fp False n a = bind_outcome (summarize fp True n a) (\<lambda>res. Ok (without_jitter res))"
  by (simp add: summarize_def bind_outcome_assoc without_jitter_def)

text \<open>
  \<^bold>\<open>C37\<close>. \<open>Ping\<close> measures what \<open>RunX\<close> measures: for any count, with or without output line by
  line, it ends the same way (also blocked, or with the panic for a count of 0), leaves the
  test in the same state, and returns the same results and statistics but the jitter, which it
  does not compute.
\<close>

theorem Ping_is_RunX:
  "(case Ping fp fmt zone host probes n isRapid (out, t) of (r, _, t') \<Rightarrow> (r, t')) =
   (case RunX_count fp zone probes n t of (r, t') \<Rightarrow> (bind_outcome r (\<lambda>res. Ok (without_jitter res)), t'))"
proof -
  let ?size = "packet_size t"
  let ?out = "out @ ''TWAMP PING '' @ host @ '': '' @ itoa ?size @ '' data bytes'' @ newline"
  let ?ps = "map probes [0..<nat n]"
  obtain r out' t' where p: "ping_loop zone (probe_text fp fmt host ?size isRapid) 0 ?ps empty_tally (?out, t) = (r, out', t')"
    by (metis prod.collapse)
  with ping_loop_probe_loop [of zone "probe_text fp fmt host ?size isRapid" 0 ?ps empty_tally ?out t]
  have l: "probe_loop zone 0 ?ps empty_tally t = (r, t')" by simp
  show ?thesis
  proof (cases r)
    case (Ok a)
    then show ?thesis
      using p l by (cases "summarize fp True n a")
        (simp_all add: Ping_def RunX_count_def bind_state_def print_def summarize_jitter)
  qed (use p l in \<open>simp_all add: Ping_def RunX_count_def bind_state_def print_def\<close>)
qed

section \<open>The marks\<close>

text \<open>The mark of probe \<open>j\<close> of a series, by the reply it gets.\<close>

definition mark :: "u32 \<Rightarrow> arrivals \<Rightarrow> nat \<Rightarrow> char" where
  "mark n as j = (if reply_number (as ! j) = Some (n + of_nat j) then CHR ''!'' else CHR ''.'')"

text \<open>What probe \<open>j\<close> gives: a result if the reply carries its number, and no result otherwise.\<close>

definition fits_reply :: "u32 \<Rightarrow> arrivals \<Rightarrow> nat \<Rightarrow> TwampResults option \<Rightarrow> bool" where
  "fits_reply n as j result =
     (case result of None \<Rightarrow> reply_number (as ! j) \<noteq> Some (n + of_nat j)
      | Some r \<Rightarrow> reply_number (as ! j) = Some (n + of_nat j) \<and> SeqNum r = n + of_nat j)"

lemma fits_reply_Suc: "fits_reply n (a # as) (Suc j) res = fits_reply (n + 1) as j res"
  by (simp add: fits_reply_def add.assoc split: option.splits)

lemma rapid_marks:
  assumes "\<And>j. j < length results \<Longrightarrow> fits_reply n as j (results ! j)"
  shows "concat (map (probe_text fp fmt host size1 True) results) = map (mark n as) [0..<length results]"
proof -
  have "map (probe_text fp fmt host size1 True) results = map (\<lambda>j. [mark n as j]) [0..<length results]"
  proof (rule nth_equalityI)
    fix j assume "j < length (map (probe_text fp fmt host size1 True) results)"
    then have j: "j < length results" by simp
    from assms [OF this] have "probe_text fp fmt host size1 True (results ! j) = [mark n as j]"
      by (auto simp: probe_text_def mark_def fits_reply_def split: option.splits)
    with j show "map (probe_text fp fmt host size1 True) results ! j = map (\<lambda>j. [mark n as j]) [0..<length results] ! j" by simp
  qed simp
  then show ?thesis by (simp add: concat_map_singleton)
qed

lemma ping_loop_results:
  "sane_padding t \<Longrightarrow> length ps \<le> length (udp_pending t) \<Longrightarrow>
   \<exists>a' t' results. ping_loop zone show1 i ps a (out, t) = (Ok a', out @ concat (map show1 results), t') \<and>
     length results = length ps \<and> (\<forall>j<length ps. fits_reply (seq t) (udp_pending t) j (results ! j)) \<and>
     length (udp_sent t') = length (udp_sent t) + length ps"
proof (induction ps arbitrary: i a out t)
  case (Cons p ps)
  obtain x rest where pend: "udp_pending t = x # rest" using Cons.prems(2) by (cases "udp_pending t") auto
  from Run_answers [OF Cons.prems(1) pend, of zone p] obtain t' where n: "next_test rest t t'"
    and r: "if reply_number x = Some (seq t) then \<exists>r. Run zone p t = (Ok r, t') \<and> SeqNum r = seq t
      else \<exists>m. Run zone p t = (Err m, t')" by blast
  have t': "sane_padding t'" "udp_pending t' = rest" "seq t' = seq t + 1" "length (udp_sent t') = Suc (length (udp_sent t))"
    using n Cons.prems(1) next_test_sane by (auto simp: next_test_def)
  have len: "length ps \<le> length (udp_pending t')" using Cons.prems(2) pend t' by simp
  obtain res a1 where res: "fits_reply (seq t) (udp_pending t) 0 res"
    and run: "ping_loop zone show1 i (p # ps) a (out, t) = ping_loop zone show1 (Suc i) ps a1 (out @ show1 res, t')"
  proof (cases "reply_number x = Some (seq t)")
    case True
    with r obtain q where "Run zone p t = (Ok q, t')" "SeqNum q = seq t" by auto
    with True pend show ?thesis by (intro that [of "Some q"]) (auto simp: fits_reply_def Let_def)
  next
    case False
    with r obtain e where "Run zone p t = (Err e, t')" by auto
    with False pend show ?thesis by (intro that [of None]) (auto simp: fits_reply_def Let_def)
  qed
  from Cons.IH [OF t'(1) len, of "Suc i" a1 "out @ show1 res"] obtain a' t2 results where
    ih: "ping_loop zone show1 (Suc i) ps a1 (out @ show1 res, t') = (Ok a', (out @ show1 res) @ concat (map show1 results), t2)"
      "length results = length ps" "\<forall>j<length ps. fits_reply (seq t + 1) rest j (results ! j)"
      "length (udp_sent t2) = length (udp_sent t') + length ps"
    unfolding t' by blast
  have "\<forall>j<length (p # ps). fits_reply (seq t) (udp_pending t) j ((res # results) ! j)"
    using res ih(3) by (auto simp: pend fits_reply_Suc less_Suc_eq_0_disj)
  with run ih t'(4) show ?case
    by (intro exI [of _ a'] exI [of _ t2] exI [of _ "res # results"]) simp
qed simp

text \<open>What a series prints for its probes.\<close>

definition probes_text ::
    "'f float_ops \<Rightarrow> (nat \<Rightarrow> 'f \<Rightarrow> string) \<Rightarrow> string \<Rightarrow> int \<Rightarrow> bool \<Rightarrow> TwampResults option list \<Rightarrow> string" where
  "probes_text fp fmt host size1 isRapid results =
     concat (map (probe_text fp fmt host size1 isRapid) results) @ (if isRapid then newline else [])"

lemma Ping_completes:
  assumes "sane_padding t" and "0 < n" and "nat n \<le> length (udp_pending t)"
  shows "\<exists>res results t'. Ping fp fmt zone host probes n isRapid ([], t) =
      (Ok res, ''TWAMP PING '' @ host @ '': '' @ itoa (packet_size t) @ '' data bytes'' @ newline @
        probes_text fp fmt host (packet_size t) isRapid results @ summary_text fp fmt host (Stat res), t') \<and>
     length results = nat n \<and> (\<forall>j<nat n. fits_reply (seq t) (udp_pending t) j (results ! j)) \<and>
     length (udp_sent t') = length (udp_sent t) + nat n"
proof -
  let ?head = "''TWAMP PING '' @ host @ '': '' @ itoa (packet_size t) @ '' data bytes'' @ newline"
  let ?show = "probe_text fp fmt host (packet_size t) isRapid"
  have "length (map probes [0..<nat n]) \<le> length (udp_pending t)" using assms(3) by simp
  from ping_loop_results [OF assms(1) this, of zone ?show 0 empty_tally ?head]
  obtain a t' results where l: "ping_loop zone ?show 0 (map probes [0..<nat n]) empty_tally (?head, t) =
      (Ok a, ?head @ concat (map ?show results), t')" "length results = nat n"
    "\<forall>j<nat n. fits_reply (seq t) (udp_pending t) j (results ! j)"
    "length (udp_sent t') = length (udp_sent t) + nat n" by auto
  obtain res where "summarize fp False n a = Ok res"
    using summarize_Ok [of n fp False a] assms(2) by (auto simp: is_ok_iff)
  with l(1) have "Ping fp fmt zone host probes n isRapid ([], t) =
      (Ok res, ?head @ probes_text fp fmt host (packet_size t) isRapid results @ summary_text fp fmt host (Stat res), t')"
    by (simp add: Ping_def bind_state_def print_def probes_text_def Let_def)
  with l(2-4) show ?thesis by (intro exI [of _ res] exI [of _ results] exI [of _ t'] conjI) simp_all
qed

section \<open>The dialogue\<close>

text \<open>The messages with fixed content: the setup response, the start and the stop of the sessions.\<close>

definition setup_message :: "byte list" where
  "setup_message = PutUint32 1 @ replicate 160 0"

definition start_message :: "byte list" where
  "start_message = 2 # replicate 31 0"

definition stop_message :: "byte list" where
  "stop_message = [3, 0, 0, 0, 0, 1] @ replicate 26 0"

lemma negotiate_accepted:
  assumes "pending c = (greet, None) # (start, None) # rest" and "length greet = 64" and "length start = 48"
    and "Uint32 (drop 12 greet) = Ok 1" and "start ! 15 = 0"
  shows "negotiate c = (Ok (), c\<lparr>pending := rest, sent := sent c @ [setup_message]\<rparr>)"
proof -
  obtain g where g: "getTwampServerGreetingMessage c = (Ok g, c\<lparr>pending := (start, None) # rest\<rparr>)" "Mode g = 1"
    using greeting_read [OF assms(1,2,4)] by blast
  let ?c2 = "c\<lparr>pending := (start, None) # rest, sent := sent c @ [setup_message]\<rparr>"
  have wrote: "sendTwampClientSetupResponse (c\<lparr>pending := (start, None) # rest\<rparr>) = (Ok (), ?c2)"
    by (simp add: sendTwampClientSetupResponse_def conn_Write_def encode_setup_def setup_message_def replicate_add [symmetric])
  have "pending ?c2 = (start, None) # rest" by simp
  from start_read [OF this] assms(3,5) obtain m where
    m: "getTwampServerStartMessage ?c2 = (Ok m, ?c2\<lparr>pending := rest\<rparr>)" "start_Accept m = 0" by auto
  have "check_greeting g = Ok ()" using g(2) by (simp add: check_greeting_def)
  then show ?thesis using g(1) m wrote by (simp add: negotiate_def bind_state_def checkAcceptStatus_def)
qed

lemma CreateSession_accepted:
  assumes "Encode zone now config c (replicate 112 0) = Ok request" and "pending c = (accept, None) # rest"
    and "length accept = 48" and "accept ! 0 = 0" and "Uint16 (drop 2 accept) = Ok port"
  shows "CreateSession zone now config c =
    (Ok \<lparr>session_port = port, session_config = config\<rparr>, c\<lparr>pending := rest, sent := sent c @ [request]\<rparr>)"
proof -
  obtain x y as where a: "accept = x # y # as" using assms(3) by (auto simp: numeral_eq_Suc length_Suc_conv)
  have "Uint16 (take 2 (drop 2 accept)) = Uint16 (drop 2 accept)"
    by (cases "drop 2 accept" rule: Uint16.cases) auto
  then show ?thesis
    using assms a by (simp add: CreateSession_def bind_state_def conn_Write_def readFromSocket_whole
        NewTwampAcceptSession_def Next_def checkAcceptStatus_def)
qed

lemma CreateTest_accepted:
  assumes "pending c = (ack, None) # rest" and "length ack = 32" and "ack ! 0 = 0" and "open_test net s c = Ok u"
  shows "CreateTest net s c = (Ok u, c\<lparr>pending := rest, sent := sent c @ [start_message]\<rparr>)"
proof -
  obtain x as where a: "ack = x # as" using assms(2) by (auto simp: numeral_eq_Suc length_Suc_conv)
  have "open_test net s (c\<lparr>sent := sent c @ [start_message], pending := rest\<rparr>) = Ok u"
    using assms(4) by (simp add: open_test_def)
  with assms(1-3) a show ?thesis
    by (simp add: CreateTest_def bind_state_def conn_Write_def readFromSocket_whole start_message_def checkAcceptStatus_def)
qed

lemma Stop_sends: "Stop c = (Ok (), c\<lparr>sent := sent c @ [stop_message]\<rparr>)"
  by (simp add: Stop_def bind_state_def conn_Write_def put_at_def PutUint16_def stop_message_def numeral_eq_Suc)


text \<open>
  \<^bold>\<open>C25\<close>. In ping mode, the default, with a positive count, over IPv4, and against a server that
  accepts and a reflector that sends something for each probe, the tool runs to its end: on the
  control connection it sends exactly the setup response, the session request of its flags, the
  start and the stop of the sessions, and closes it; it sends as many probes as asked for, and
  exactly those whose reply carries their number give a result. Between the heading and the
  summary it prints for these probes in order, with \<open>-rapid\<close>, one mark for each, \<open>!\<close> for a result
  and \<open>.\<close> for none, and a newline, and without \<open>-rapid\<close>, the default, the line of each result
  and nothing for the others.
\<close>

theorem tool_completes:
  assumes "tool_dial env (host @ '':862'') = Ok c0"
    and "LocalAddr c0 = IP_String lip @ CHR '':'' # utoa lp" and "is_v4 lip"
    and "RemoteAddr c0 = IP_String rip @ CHR '':'' # utoa rp" and "is_v4 rip"
    and "pending c0 = [(greet, None), (start, None), (accept, None), (ack, None)]"
    and "map length [greet, start, accept, ack] = [64, 48, 48, 32]"
    and "Uint32 (drop 12 greet) = Ok 1" and "start ! 15 = 0" and "accept ! 0 = 0" and "ack ! 0 = 0"
    and "Uint16 (drop 2 accept) = Ok port"
    and "open_test (tool_net env) \<lparr>session_port = port, session_config = session_flags flags\<rparr> c0 = Ok replies"
    and "flag_mode flags = ''ping''" and "0 \<le> flag_size flags"
    and "0 < flag_count flags" and "nat (flag_count flags) \<le> length replies"
  shows "\<exists>request results st c t.
    Encode (tool_zone env) (tool_now env) (session_flags flags) c0 (replicate 112 0) = Ok request \<and>
    twamp_main env flags (host # args) =
      Ok (''TWAMP PING '' @ test_host (RemoteAddr c0) @ '': '' @ itoa (14 + flag_size flags) @ '' data bytes'' @ newline @
            probes_text (tool_floats env) (tool_fmt env) (test_host (RemoteAddr c0)) (14 + flag_size flags) (flag_rapid flags) results @
            summary_text (tool_floats env) (tool_fmt env) (test_host (RemoteAddr c0)) st, c, t) \<and>
    length results = nat (flag_count flags) \<and> (\<forall>j<nat (flag_count flags). fits_reply 0 replies j (results ! j)) \<and>
    (flag_rapid flags \<longrightarrow> probes_text (tool_floats env) (tool_fmt env) (test_host (RemoteAddr c0)) (14 + flag_size flags)
        (flag_rapid flags) results = map (mark 0 replies) [0..<nat (flag_count flags)] @ newline) \<and>
    sent c = sent c0 @ [setup_message, request, start_message, stop_message] \<and> conn_closed c \<and>
    length (udp_sent t) = nat (flag_count flags)"
proof -
  let ?s = "\<lparr>session_port = port, session_config = session_flags flags\<rparr>"
  let ?c1 = "c0\<lparr>pending := [(accept, None), (ack, None)], sent := sent c0 @ [setup_message]\<rparr>"
  let ?t = "\<lparr>test_session = ?s, seq = 0, udp_pending = replies, udp_sent = []\<rparr>"
  obtain request where enc: "Encode (tool_zone env) (tool_now env) (session_flags flags) c0 (replicate 112 0) = Ok request"
    using Encode_between_v4 [OF assms(2-5)] by blast
  have "negotiate c0 = (Ok (), ?c1)" using negotiate_accepted [OF assms(6)] assms(7-9) by simp
  then have conn: "Connect (tool_dial env) (host @ '':862'') = Ok ?c1" using assms(1) by (simp add: Connect_def)
  have enc1: "Encode (tool_zone env) (tool_now env) (session_flags flags) ?c1 (replicate 112 0) = Ok request"
    using enc by (simp add: Encode_def LocalAddrUint32_def RemoteAddrUint32_def)
  let ?c2 = "?c1\<lparr>pending := [(ack, None)], sent := sent ?c1 @ [request]\<rparr>"
  have sess: "CreateSession (tool_zone env) (tool_now env) (session_flags flags) ?c1 = (Ok ?s, ?c2)"
    using CreateSession_accepted [OF enc1, of accept "[(ack, None)]" port] assms(7,10,12) by simp
  let ?c3 = "?c2\<lparr>pending := [], sent := sent ?c2 @ [start_message]\<rparr>"
  have "open_test (tool_net env) ?s ?c2 = Ok replies" using assms(13) by (simp add: open_test_def)
  then have "CreateTest (tool_net env) ?s ?c2 = (Ok replies, ?c3)"
    using CreateTest_accepted [of ?c2 ack "[]" "tool_net env" ?s replies] assms(7,11) by simp
  with conn sess have opened: "open_session env (session_flags flags) (host @ '':862'') = Ok (?c3, ?t)"
    by (simp add: open_session_def)
  have "sane_padding ?t" "nat (flag_count flags) \<le> length (udp_pending ?t)"
    using assms(15,17) by (simp_all add: sane_padding_def session_flags_def)
  from Ping_completes [OF this(1) assms(16) this(2), of "tool_floats env" "tool_fmt env" "tool_zone env"
      "test_host (RemoteAddr c0)" "tool_probes env" "flag_rapid flags"]
  obtain res results t' where ping: "Ping (tool_floats env) (tool_fmt env) (tool_zone env) (test_host (RemoteAddr c0)) (tool_probes env)
      (flag_count flags) (flag_rapid flags) ([], ?t) = (Ok res, ''TWAMP PING '' @ test_host (RemoteAddr c0) @ '': '' @
        itoa (packet_size ?t) @ '' data bytes'' @ newline @
        probes_text (tool_floats env) (tool_fmt env) (test_host (RemoteAddr c0)) (packet_size ?t) (flag_rapid flags) results @
        summary_text (tool_floats env) (tool_fmt env) (test_host (RemoteAddr c0)) (Stat res), t')"
    and results: "length results = nat (flag_count flags)" "\<forall>j<nat (flag_count flags). fits_reply 0 replies j (results ! j)"
      "length (udp_sent t') = nat (flag_count flags)" by auto
  have size1: "packet_size ?t = 14 + flag_size flags" by (simp add: packet_size_def session_flags_def)
  have main: "twamp_main env flags (host # args) =
    Ok (''TWAMP PING '' @ test_host (RemoteAddr c0) @ '': '' @ itoa (14 + flag_size flags) @ '' data bytes'' @ newline @
          probes_text (tool_floats env) (tool_fmt env) (test_host (RemoteAddr c0)) (14 + flag_size flags) (flag_rapid flags) results @
          summary_text (tool_floats env) (tool_fmt env) (test_host (RemoteAddr c0)) (Stat res),
        conn_Close (?c3\<lparr>sent := sent ?c3 @ [stop_message]\<rparr>), t')"
    using opened assms(14) ping [unfolded size1] by (simp add: twamp_main_def run_mode_def bind_state_def Stop_sends)
  have "flag_rapid flags \<longrightarrow> probes_text (tool_floats env) (tool_fmt env) (test_host (RemoteAddr c0)) (14 + flag_size flags)
      (flag_rapid flags) results = map (mark 0 replies) [0..<nat (flag_count flags)] @ newline"
    using rapid_marks [of results 0 replies "tool_floats env"] results(1,2) by (simp add: probes_text_def)
  with enc main results show ?thesis
    by (intro exI [of _ request] exI [of _ results] exI [of _ "Stat res"]
        exI [of _ "conn_Close (?c3\<lparr>sent := sent ?c3 @ [stop_message]\<rparr>)"] exI [of _ t'] conjI) (simp_all add: conn_Close_def)
qed

definition accept_bytes :: "byte list" where
  "accept_bytes = [0, 0] @ PutUint16 863 @ replicate 44 0"

definition answering_server :: TwampConnection where
  "answering_server = demo_conn [(greeting_bytes 1, None), (start_bytes 0, None), (accept_bytes, None), (replicate 32 0, None)]"

definition july_replies :: arrivals where
  "july_replies = [demo_reply 0 july, demo_reply 5 july]"

definition july_tool :: "int tool_env" where
  "july_tool = \<lparr>tool_dial = (\<lambda>addr. if addr = ''10.0.0.2:862'' then Ok answering_server else Err ''unreachable''),
     tool_net = \<lparr>ResolveUDPAddr = Ok, DialUDP = (\<lambda>l r. Ok july_replies), SetTTL = (\<lambda>u n. None), SetTOS = (\<lambda>u n. None)\<rparr>,
     tool_now = july, tool_zone = 0, tool_probes = (\<lambda>i. demo_probe july), tool_floats = whole_ops,
     tool_fmt = (\<lambda>n x. itoa x), json_Marshal = (\<lambda>r. Ok [])\<rparr>"

definition two_probes :: "bool \<Rightarrow> tool_flags" where
  "two_probes rapid = \<lparr>flag_count = 2, flag_rapid = rapid, flag_size = 42, flag_tos = 0, flag_wait = 1,
     flag_sport = 10001, flag_rport = 10002, flag_mode = ''ping''\<rparr>"

lemma accept_bytes_facts: "length accept_bytes = 48" "accept_bytes ! 0 = 0" "Uint16 (drop 2 accept_bytes) = Ok 863"
  using u16_be.get_put [of 863 "replicate 44 0"] by (simp_all add: accept_bytes_def)

theorem tool_completes_witness:
  "(\<exists>report c t. twamp_main july_tool (two_probes True) [''10.0.0.2''] =
      Ok (''TWAMP PING 10.0.0.2: 56 data bytes'' @ newline @ ''!.'' @ newline @ report, c, t) \<and> length (udp_sent t) = 2) \<and>
   (\<exists>r report c t. twamp_main july_tool (two_probes False) [''10.0.0.2''] =
      Ok (''TWAMP PING 10.0.0.2: 56 data bytes'' @ newline @
        probe_text whole_ops (\<lambda>n x. itoa x) ''10.0.0.2'' 56 False (Some r) @ report, c, t) \<and> SeqNum r = 0 \<and> length (udp_sent t) = 2)"
proof -
  have dial: "tool_dial july_tool (''10.0.0.2'' @ '':862'') = Ok answering_server" by (simp add: july_tool_def)
  have addrs: "LocalAddr answering_server = IP_String (IPv4 10 0 0 1) @ CHR '':'' # utoa 40000" "is_v4 (IPv4 10 0 0 1)"
    "RemoteAddr answering_server = IP_String (IPv4 10 0 0 2) @ CHR '':'' # utoa 862" "is_v4 (IPv4 10 0 0 2)"
    by (simp_all only: answering_server_def demo_addrs is_v4_IPv4)
  have script: "pending answering_server =
      [(greeting_bytes 1, None), (start_bytes 0, None), (accept_bytes, None), (replicate 32 0, None)]"
    "map length [greeting_bytes 1, start_bytes 0, accept_bytes, replicate 32 0] = [64, 48, 48, 32]"
    "Uint32 (drop 12 (greeting_bytes 1)) = Ok 1" "start_bytes 0 ! 15 = 0" "replicate 32 (0 :: byte) ! 0 = 0"
    by (simp_all add: answering_server_def demo_conn_def greeting_bytes_facts accept_bytes_facts)
  have net: "open_test (tool_net july_tool) \<lparr>session_port = 863, session_config = session_flags (two_probes rapid)\<rparr>
      answering_server = Ok july_replies" for rapid
    by (simp add: open_test_def july_tool_def SetConnection_def)
  have flags: "flag_mode (two_probes rapid) = ''ping''" "0 \<le> flag_size (two_probes rapid)"
    "0 < flag_count (two_probes rapid)" "nat (flag_count (two_probes rapid)) \<le> length july_replies" for rapid
    by (simp_all add: two_probes_def july_replies_def)
  have host: "test_host (RemoteAddr answering_server) = ''10.0.0.2''"
    by (simp add: test_host_def answering_server_def demo_conn_def)
  have marks: "map (mark 0 july_replies) [0..<2] = ''!.''"
    by (simp add: mark_def july_replies_def demo_reply_number upt_rec)
  have itoa: "14 + flag_size (two_probes rapid) = 56" "itoa 56 = ''56''" "nat (flag_count (two_probes rapid)) = 2"
      "flag_rapid (two_probes rapid) = rapid" for rapid
    by (simp_all add: two_probes_def itoa_def utoa_eval)
  have tool: "tool_floats july_tool = whole_ops" "tool_fmt july_tool = (\<lambda>n x. itoa x)" by (simp_all add: july_tool_def)
  note run = tool_completes [where host = "''10.0.0.2''" and args = "[]", OF dial addrs script(1-4) accept_bytes_facts(2)
      script(5) accept_bytes_facts(3) net flags, unfolded host itoa tool]
  obtain results st c t where r: "twamp_main july_tool (two_probes True) [''10.0.0.2''] =
      Ok (''TWAMP PING '' @ ''10.0.0.2'' @ '': '' @ ''56'' @ '' data bytes'' @ newline @
        (map (mark 0 july_replies) [0..<2] @ newline) @ summary_text whole_ops (\<lambda>n x. itoa x) ''10.0.0.2'' st, c, t)"
      "length (udp_sent t) = 2"
    using run [of True] by auto
  obtain results' st' c' t' where q: "twamp_main july_tool (two_probes False) [''10.0.0.2''] =
      Ok (''TWAMP PING '' @ ''10.0.0.2'' @ '': '' @ ''56'' @ '' data bytes'' @ newline @
        probes_text whole_ops (\<lambda>n x. itoa x) ''10.0.0.2'' 56 False results' @
        summary_text whole_ops (\<lambda>n x. itoa x) ''10.0.0.2'' st', c', t')"
      "length (udp_sent t') = 2" "length results' = 2" "\<forall>j<2. fits_reply 0 july_replies j (results' ! j)"
    using run [of False] by auto
  obtain a b where ab: "results' = [a, b]" using q(3) by (auto simp: numeral_2_eq_2 length_Suc_conv)
  have "fits_reply 0 july_replies 0 a" "fits_reply 0 july_replies 1 b"
    using q(4) [rule_format, of 0] q(4) [rule_format, of 1] ab by simp_all
  then obtain w where w: "a = Some w" "SeqNum w = 0" "b = None"
    by (auto simp: fits_reply_def july_replies_def demo_reply_number split: option.splits)
  have "probes_text whole_ops (\<lambda>n x. itoa x) ''10.0.0.2'' 56 False results' =
      probe_text whole_ops (\<lambda>n x. itoa x) ''10.0.0.2'' 56 False (Some w)"
    by (simp add: ab w probes_text_def probe_text_def)
  with q w have "twamp_main july_tool (two_probes False) [''10.0.0.2''] =
      Ok (''TWAMP PING 10.0.0.2: 56 data bytes'' @ newline @
        probe_text whole_ops (\<lambda>n x. itoa x) ''10.0.0.2'' 56 False (Some w) @
        summary_text whole_ops (\<lambda>n x. itoa x) ''10.0.0.2'' st', c', t')" by simp
  moreover have "twamp_main july_tool (two_probes True) [''10.0.0.2''] =
      Ok (''TWAMP PING 10.0.0.2: 56 data bytes'' @ newline @ ''!.'' @ newline @
        summary_text whole_ops (\<lambda>n x. itoa x) ''10.0.0.2'' st, c, t)" using r marks by simp
  ultimately show ?thesis using r(2) q(2) w(2) by blast
qed

end
