(* ===== verification/RwLock.thy ===== *)
theory RwLock
  imports Prelude
begin

text \<open>
  An object guarded by a \<open>sync.RWMutex\<close>, and the goroutines that use it. A write section is the
  list of its assignments, fixed when the lock is taken, and other goroutines may move between
  any two of them; a read section only looks. Some assignments are made without the lock. The
  interface \<open>guarded_object\<close> says when that is sound, and its lemmas what then holds of every
  interleaving: writers exclude all others, nobody else ever sees a section half done, and the
  whole is as if the sections had been executed one after another.
\<close>

section \<open>Sections\<close>

datatype 's task = Outside | Reading | Writing "('s \<Rightarrow> 's) list"

primrec is_writing :: "'s task \<Rightarrow> bool" where
  "is_writing Outside = False"
| "is_writing Reading = False"
| "is_writing (Writing fs) = True"

text \<open>\<open>entered\<close> lists the write sections in the order in which they took the lock.\<close>

record ('s, 'w) guarded =
  shared :: 's
  tasks :: "nat \<Rightarrow> 's task"
  entered :: "'w list"

definition run_steps :: "('s \<Rightarrow> 's) list \<Rightarrow> 's \<Rightarrow> 's" where
  "run_steps fs s = foldl (\<lambda>s f. f s) s fs"

lemma run_steps_simps [simp]:
  "run_steps [] s = s" "run_steps (f # fs) s = run_steps fs (f s)"
  "run_steps (fs @ gs) s = run_steps gs (run_steps fs s)"
  by (simp_all add: run_steps_def)

text \<open>
  The lock is held by the goroutines that are inside: a reader may enter unless a writer is
  inside, a writer only when nobody is.
\<close>

inductive guard_step ::
    "('w \<Rightarrow> 's \<Rightarrow> ('s \<Rightarrow> 's) list) \<Rightarrow> ('s \<Rightarrow> 's) set \<Rightarrow> ('s, 'w) guarded \<Rightarrow> ('s, 'w) guarded \<Rightarrow> bool"
  for body raws where
  guard_RLock: "tasks g i = Outside \<Longrightarrow> \<forall>j. \<not> is_writing (tasks g j) \<Longrightarrow>
    guard_step body raws g (g\<lparr>tasks := (tasks g)(i := Reading)\<rparr>)"
| guard_RUnlock: "tasks g i = Reading \<Longrightarrow> guard_step body raws g (g\<lparr>tasks := (tasks g)(i := Outside)\<rparr>)"
| guard_Lock: "\<forall>j. tasks g j = Outside \<Longrightarrow>
    guard_step body raws g (g\<lparr>tasks := (tasks g)(i := Writing (body w (shared g))), entered := entered g @ [w]\<rparr>)"
| guard_assign: "tasks g i = Writing (f # fs) \<Longrightarrow>
    guard_step body raws g (g\<lparr>shared := f (shared g), tasks := (tasks g)(i := Writing fs)\<rparr>)"
| guard_Unlock: "tasks g i = Writing [] \<Longrightarrow> guard_step body raws g (g\<lparr>tasks := (tasks g)(i := Outside)\<rparr>)"
| guard_raw: "f \<in> raws \<Longrightarrow> guard_step body raws g (g\<lparr>shared := f (shared g)\<rparr>)"

inductive guard_reachable ::
    "('w \<Rightarrow> 's \<Rightarrow> ('s \<Rightarrow> 's) list) \<Rightarrow> ('s \<Rightarrow> 's) set \<Rightarrow> 's \<Rightarrow> ('s, 'w) guarded \<Rightarrow> bool"
  for body raws s0 where
  guard_start: "guard_reachable body raws s0 \<lparr>shared = s0, tasks = \<lambda>i. Outside, entered = []\<rparr>"
| guard_next: "guard_reachable body raws s0 g \<Longrightarrow> guard_step body raws g g' \<Longrightarrow> guard_reachable body raws s0 g'"

text \<open>The sections one after another.\<close>

definition sequential :: "('w \<Rightarrow> 's \<Rightarrow> ('s \<Rightarrow> 's) list) \<Rightarrow> 'w list \<Rightarrow> 's \<Rightarrow> 's" where
  "sequential body ws s = foldl (\<lambda>s w. run_steps (body w s) s) s ws"

lemma sequential_simps [simp]:
  "sequential body [] s = s"
  "sequential body (ws @ [w]) s = run_steps (body w (sequential body ws s)) (sequential body ws s)"
  by (simp_all add: sequential_def)

text \<open>A goroutine that finds the lock free can run a whole section.\<close>

lemma guard_run_alone:
  assumes "guard_reachable body raws s0 g" and "tasks g = (\<lambda>j. Outside)"
  shows "guard_reachable body raws s0
    (g\<lparr>shared := run_steps (body w (shared g)) (shared g), entered := entered g @ [w]\<rparr>)"
proof -
  have run: "guard_reachable body raws s0 h \<Longrightarrow> tasks h = (\<lambda>j. Outside)(0 := Writing fs) \<Longrightarrow>
      guard_reachable body raws s0 (h\<lparr>shared := run_steps fs (shared h), tasks := \<lambda>j. Outside\<rparr>)" for h fs
  proof (induction fs arbitrary: h)
    case Nil
    have free: "(tasks h)(0 := Outside) = (\<lambda>j. Outside)" using Nil(2) by auto
    have "tasks h 0 = Writing []" using Nil(2) by simp
    from guard_next [OF Nil(1) guard_Unlock [OF this]] show ?case by (simp add: free)
  next
    case (Cons f fs)
    have w: "(tasks h)(0 := Writing fs) = (\<lambda>j. Outside)(0 := Writing fs)" using Cons.prems(2) by auto
    have "tasks h 0 = Writing (f # fs)" using Cons.prems(2) by simp
    from guard_next [OF Cons.prems(1) guard_assign [OF this]]
    have "guard_reachable body raws s0 (h\<lparr>shared := f (shared h), tasks := (\<lambda>j. Outside)(0 := Writing fs)\<rparr>)"
      by (simp only: w)
    from Cons.IH [OF this] show ?case by simp
  qed
  let ?h = "g\<lparr>tasks := (tasks g)(0 := Writing (body w (shared g))), entered := entered g @ [w]\<rparr>"
  have "guard_reachable body raws s0 ?h"
    using assms by (intro guard_next [OF assms(1)] guard_Lock) simp
  from run [OF this, of "body w (shared g)"]
  have "guard_reachable body raws s0
    (?h\<lparr>shared := run_steps (body w (shared g)) (shared g), tasks := \<lambda>j. Outside\<rparr>)" using assms(2) by simp
  moreover have "?h\<lparr>shared := run_steps (body w (shared g)) (shared g), tasks := \<lambda>j. Outside\<rparr> =
      g\<lparr>shared := run_steps (body w (shared g)) (shared g), entered := entered g @ [w]\<rparr>"
    by (rule guarded.equality) (simp_all add: assms(2))
  ultimately show ?thesis by simp
qed

section \<open>The interface\<close>

text \<open>
  \<open>same\<close> relates states that differ only in what may be assigned without the lock. The sections
  are the same on such states and keep them so; the invariant does not see the difference.
\<close>

locale guarded_object =
  fixes inv :: "'s \<Rightarrow> bool" and same :: "'s \<Rightarrow> 's \<Rightarrow> bool"
    and body :: "'w \<Rightarrow> 's \<Rightarrow> ('s \<Rightarrow> 's) list" and raws :: "('s \<Rightarrow> 's) set"
  assumes body_inv: "inv s \<Longrightarrow> inv (run_steps (body w s) s)"
    and same_refl: "same s s" and same_sym: "same s t \<Longrightarrow> same t s"
    and same_trans: "same s t \<Longrightarrow> same t u \<Longrightarrow> same s u"
    and same_inv: "same s t \<Longrightarrow> inv s \<Longrightarrow> inv t"
    and body_same: "same s t \<Longrightarrow> body w s = body w t"
    and step_same: "f \<in> set (body w u) \<Longrightarrow> same s t \<Longrightarrow> same (f s) (f t)"
    and raw_same: "f \<in> raws \<Longrightarrow> same s (f s)"
begin

lemma sequential_inv: "inv s \<Longrightarrow> inv (sequential body ws s)"
  by (induction ws rule: rev_induct) (simp_all add: body_inv)

lemma run_steps_same: "set fs \<subseteq> set (body w u) \<Longrightarrow> same s t \<Longrightarrow> same (run_steps fs s) (run_steps fs t)"
  by (induction fs arbitrary: s t) (auto intro: step_same)

text \<open>
  What holds along a run: a writer is alone and finishing its section leads to the sequential
  state; without a writer the state is the sequential one, up to unguarded assignments.
\<close>

definition sound :: "'s \<Rightarrow> ('s, 'w) guarded \<Rightarrow> bool" where
  "sound s0 g \<longleftrightarrow>
     (\<forall>i fs. tasks g i = Writing fs \<longrightarrow> (\<forall>j. j \<noteq> i \<longrightarrow> tasks g j = Outside) \<and>
        (\<exists>w u. set fs \<subseteq> set (body w u)) \<and> same (sequential body (entered g) s0) (run_steps fs (shared g))) \<and>
     ((\<forall>i. \<not> is_writing (tasks g i)) \<longrightarrow> same (sequential body (entered g) s0) (shared g))"

lemma step_sound:
  assumes "sound s0 g" and "guard_step body raws g g'"
  shows "sound s0 g'"
  using assms(2,1)
proof (induction rule: guard_step.induct)
  case (guard_RLock g i)
  then have quiet: "\<not> is_writing (((tasks g)(i := Reading)) j)" for j by simp
  then have "((tasks g)(i := Reading)) j \<noteq> Writing fs" for j fs by (metis is_writing.simps(3))
  with guard_RLock show ?case by (simp add: sound_def)
next
  case (guard_RUnlock g i)
  have "\<not> is_writing (tasks g j)" for j
  proof
    assume "is_writing (tasks g j)"
    then obtain fs where fs: "tasks g j = Writing fs" by (cases "tasks g j") auto
    with guard_RUnlock(1) have "i \<noteq> j" by auto
    with fs guard_RUnlock(2) have "tasks g i = Outside" by (simp add: sound_def)
    with guard_RUnlock(1) show False by simp
  qed
  then have quiet: "\<not> is_writing (tasks g j)" "\<not> is_writing (((tasks g)(i := Outside)) j)" for j by simp_all
  then have "((tasks g)(i := Outside)) j \<noteq> Writing fs" for j fs by (metis is_writing.simps(3))
  with guard_RUnlock(2) quiet show ?case by (simp add: sound_def)
next
  case (guard_Lock g w i)
  then have "same (sequential body (entered g) s0) (shared g)" by (simp add: sound_def)
  then have "same (run_steps (body w (shared g)) (sequential body (entered g) s0)) (run_steps (body w (shared g)) (shared g))"
    by (rule run_steps_same [OF order_refl])
  with body_same [OF \<open>same (sequential body (entered g) s0) (shared g)\<close>, of w] guard_Lock(1)
  show ?case by (auto simp: sound_def)
next
  case (guard_assign g i f fs)
  have "(\<forall>j. j \<noteq> i \<longrightarrow> tasks g j = Outside) \<and> (\<exists>w u. set (f # fs) \<subseteq> set (body w u)) \<and>
      same (sequential body (entered g) s0) (run_steps (f # fs) (shared g))"
    using guard_assign unfolding sound_def by blast
  then have a: "\<forall>j. j \<noteq> i \<longrightarrow> tasks g j = Outside" "\<exists>w u. set fs \<subseteq> set (body w u)"
    "same (sequential body (entered g) s0) (run_steps fs (f (shared g)))" by auto
  then show ?case by (auto simp: sound_def)
next
  case (guard_Unlock g i)
  then have "(\<forall>j. j \<noteq> i \<longrightarrow> tasks g j = Outside) \<and> same (sequential body (entered g) s0) (run_steps [] (shared g))"
    unfolding sound_def by blast
  then have "same (sequential body (entered g) s0) (shared g)" "((tasks g)(i := Outside)) j = Outside" for j by auto
  then show ?case by (simp add: sound_def)
next
  case (guard_raw f g)
  note f = raw_same [OF guard_raw(1), of "shared g"]
  have "same (sequential body (entered g) s0) (run_steps fs (f (shared g)))"
    if "set fs \<subseteq> set (body w u)" "same (sequential body (entered g) s0) (run_steps fs (shared g))" for fs w u
    using that(2) run_steps_same [OF that(1) f] by (rule same_trans)
  with guard_raw(2) same_trans [OF _ f] show ?case unfolding sound_def by simp blast
qed

lemma reachable_sound: "guard_reachable body raws s0 g \<Longrightarrow> sound s0 g"
proof (induction rule: guard_reachable.induct)
  case guard_start
  show ?case by (simp add: sound_def same_refl)
qed (rule step_sound)

lemma writer_alone:
  assumes "guard_reachable body raws s0 g" and "tasks g i = Writing fs"
  shows "\<forall>j. j \<noteq> i \<longrightarrow> tasks g j = Outside"
  using reachable_sound [OF assms(1)] assms(2) by (auto simp: sound_def)

lemma quiet_state:
  assumes "guard_reachable body raws s0 g" and "\<forall>i. \<not> is_writing (tasks g i)" and "inv s0"
  shows "inv (shared g) \<and> same (sequential body (entered g) s0) (shared g)"
  using reachable_sound [OF assms(1)] assms(2) same_inv sequential_inv [OF assms(3)]
  unfolding sound_def by blast

end

end
