(* ===== verification/MapLock.thy ===== *)
theory MapLock
  imports RwLock RegistryProps
begin

text \<open>
  The registry under its lock (\<open>hal.interfaces.Map.Lock\<close>): the write sections of \<open>NewInterface\<close>,
  \<open>RemoveInterface\<close> and \<open>updateInterfaceDelayJitter\<close> assignment by assignment, the assignments
  the monitor goroutine makes without the lock, and the interleavings of all of them with any
  number of readers. Telemetry and the monitor may change at any time; everything else is what
  the sections give one after another.
\<close>

section \<open>Write sections\<close>

text \<open>
  \<open>WNew\<close> carries the object its options have built before the lock is taken; the address it
  gets belongs to the section, where the object becomes known to others.
\<close>

datatype map_write = WNew Interface | WRemove string | WDelay string f64 f64

definition register_steps :: "'m target_manager \<Rightarrow> nat \<Rightarrow> Interface \<Rightarrow> ('m registry \<Rightarrow> 'm registry) list" where
  "register_steps tm r ifc =
     [\<lambda>reg. reg\<lparr>store := (store reg)(r \<mapsto> ifc), next_ref := Suc r\<rparr>,
      \<lambda>reg. reg\<lparr>Lower2Interface := (Lower2Interface reg)(Lower ifc \<mapsto> r)\<rparr>,
      \<lambda>reg. reg\<lparr>Upper2Interface := (Upper2Interface reg)(Upper ifc \<mapsto> r)\<rparr>] @
     (if NetFlowId ifc \<noteq> NETFLOW_ID_INVALID
      then [\<lambda>reg. reg\<lparr>NetFlow2Interface := (NetFlow2Interface reg)(NetFlowId ifc \<mapsto> r)\<rparr>] else []) @
     (if IsWan ifc
      then [\<lambda>reg. reg\<lparr>NextHop2Interface := (NextHop2Interface reg)(Upper ifc \<mapsto> r)\<rparr>,
            \<lambda>reg. reg\<lparr>WanSorted := WanSorted reg @ [Upper ifc]\<rparr>, \<lambda>reg. reg\<lparr>WanSorted := sort (WanSorted reg)\<rparr>]
      else [\<lambda>reg. reg\<lparr>LanSorted := LanSorted reg @ [Upper ifc]\<rparr>, \<lambda>reg. reg\<lparr>LanSorted := sort (LanSorted reg)\<rparr>]) @
     [\<lambda>reg. reg\<lparr>monitor := map_option (\<lambda>im. Monitor_Add tm im (Lower ifc)) (monitor reg)\<rparr>]"

definition unregister_steps ::
    "'m target_manager \<Rightarrow> string \<Rightarrow> string \<Rightarrow> u32 \<Rightarrow> ('m registry \<Rightarrow> 'm registry) list" where
  "unregister_steps tm upper lower nfid =
     [\<lambda>reg. reg\<lparr>Lower2Interface := (Lower2Interface reg)(lower := None)\<rparr>,
      \<lambda>reg. reg\<lparr>Upper2Interface := (Upper2Interface reg)(upper := None)\<rparr>] @
     (if nfid \<noteq> NETFLOW_ID_INVALID
      then [\<lambda>reg. reg\<lparr>NetFlow2Interface := (NetFlow2Interface reg)(nfid := None)\<rparr>] else []) @
     [\<lambda>reg. reg\<lparr>NextHop2Interface := (NextHop2Interface reg)(upper := None)\<rparr>,
      \<lambda>reg. reg\<lparr>WanSorted := remove_name (WanSorted reg) upper\<rparr>,
      \<lambda>reg. reg\<lparr>LanSorted := remove_name (LanSorted reg) upper\<rparr>,
      \<lambda>reg. reg\<lparr>monitor := map_option (\<lambda>im. fst (Monitor_Remove tm im lower)) (monitor reg)\<rparr>]"

text \<open>A section that finds its name taken, or no object, ends without an assignment.\<close>

fun section_steps :: "'m target_manager \<Rightarrow> map_write \<Rightarrow> 'm registry \<Rightarrow> ('m registry \<Rightarrow> 'm registry) list" where
  "section_steps tm (WNew ifc) reg =
     (if Upper2Interface reg (Upper ifc) \<noteq> None then [] else register_steps tm (next_ref reg) ifc)"
| "section_steps tm (WRemove u) reg =
     (case deref reg (Upper2Interface reg u) of
        None \<Rightarrow> []
      | Some ifc \<Rightarrow> unregister_steps tm (Upper ifc) (Lower ifc) (NetFlowId ifc))"
| "section_steps tm (WDelay u d j) reg =
     (case Upper2Interface reg u of
        None \<Rightarrow> []
      | Some r \<Rightarrow> [modify_object r (\<lambda>i. i\<lparr>Stats := (Stats i)\<lparr>LinkDelay := d\<rparr>\<rparr>),
                  modify_object r (\<lambda>i. i\<lparr>Stats := (Stats i)\<lparr>LinkJitter := j\<rparr>\<rparr>)])"

text \<open>The operation a section belongs to.\<close>

primrec section_op :: "'m target_manager \<Rightarrow> map_write \<Rightarrow> 'm registry \<Rightarrow> 'm registry" where
  "section_op tm (WNew ifc) reg = snd (NewInterface tm [\<lambda>_. Ok ifc] reg)"
| "section_op tm (WRemove u) reg = snd (RemoveInterface tm u reg)"
| "section_op tm (WDelay u d j) reg = updateInterfaceDelayJitter u d j reg"

section \<open>Assignments without the lock\<close>

text \<open>
  The monitor goroutine writes the fields of an object whose pointer it has looked up before,
  and sets the global monitor and subscribes interfaces when it starts.
\<close>

inductive_set unguarded_writes :: "'m target_manager \<Rightarrow> ('m registry \<Rightarrow> 'm registry) set" for tm where
  raw_Speed: "modify_object r (\<lambda>i. i\<lparr>Stats := (Stats i)\<lparr>Speed := x\<rparr>\<rparr>) \<in> unguarded_writes tm"
| raw_RxBytes: "modify_object r (\<lambda>i. i\<lparr>Stats := (Stats i)\<lparr>RxBytes := x\<rparr>\<rparr>) \<in> unguarded_writes tm"
| raw_RxBps: "modify_object r (\<lambda>i. i\<lparr>Stats := (Stats i)\<lparr>RxBps := x\<rparr>\<rparr>) \<in> unguarded_writes tm"
| raw_TxBytes: "modify_object r (\<lambda>i. i\<lparr>Stats := (Stats i)\<lparr>TxBytes := x\<rparr>\<rparr>) \<in> unguarded_writes tm"
| raw_TxBps: "modify_object r (\<lambda>i. i\<lparr>Stats := (Stats i)\<lparr>TxBps := x\<rparr>\<rparr>) \<in> unguarded_writes tm"
| raw_monitor: "(\<lambda>reg. reg\<lparr>monitor := Some im\<rparr>) \<in> unguarded_writes tm"
| raw_Add: "(\<lambda>reg. reg\<lparr>monitor := map_option (\<lambda>im. Monitor_Add tm im l) (monitor reg)\<rparr>) \<in> unguarded_writes tm"

section \<open>Registration\<close>

text \<open>A registry without what may be written at any time.\<close>

definition without_stats :: "Interface \<Rightarrow> Interface" where
  "without_stats i = i\<lparr>Stats := zero_telemetry\<rparr>"

definition registration :: "'m registry \<Rightarrow> 'm registry" where
  "registration reg = reg\<lparr>store := map_option without_stats \<circ> store reg, monitor := None\<rparr>"

definition same_registration :: "'m registry \<Rightarrow> 'm registry \<Rightarrow> bool" where
  "same_registration s t \<longleftrightarrow> registration s = registration t"

lemma without_stats_fields [simp]:
  "Upper (without_stats i) = Upper i" "Lower (without_stats i) = Lower i" "NetFlowId (without_stats i) = NetFlowId i"
  "IsWan (without_stats i) = IsWan i"
  by (simp_all add: without_stats_def IsWan_def)

lemma registration_fields [simp]:
  "store (registration reg) r = map_option without_stats (store reg r)"
  "next_ref (registration reg) = next_ref reg" "Upper2Interface (registration reg) = Upper2Interface reg"
  "Lower2Interface (registration reg) = Lower2Interface reg" "NetFlow2Interface (registration reg) = NetFlow2Interface reg"
  "NextHop2Interface (registration reg) = NextHop2Interface reg" "WanSorted (registration reg) = WanSorted reg"
  "LanSorted (registration reg) = LanSorted reg"
  by (simp_all add: registration_def)

lemma registered_registration: "registered (registration reg) u = map_option without_stats (registered reg u)"
  by (auto simp: registered_def deref_def split: bind_splits)

lemma registry_inv_registration: "registry_inv (registration reg) \<longleftrightarrow> registry_inv reg"
proof -
  have ex: "(\<exists>i. map_option without_stats x = Some i \<and> P i) \<longleftrightarrow> (\<exists>z. x = Some z \<and> P (without_stats z))" for x P
    by (cases x) auto
  have "maps_sound (registration reg) \<longleftrightarrow> maps_sound reg" unfolding maps_sound_def by (simp only: registration_fields ex without_stats_fields)
  moreover have "names_sound (registration reg) \<longleftrightarrow> names_sound reg"
    unfolding names_sound_def by (simp only: registration_fields registered_registration ex without_stats_fields)
  ultimately show ?thesis by (simp add: registry_inv_def store_bounded_def)
qed

text \<open>An assignment that does not look at telemetry or the monitor.\<close>

definition telemetry_free :: "('m registry \<Rightarrow> 'm registry) \<Rightarrow> bool" where
  "telemetry_free f \<longleftrightarrow> (\<forall>s. registration (f s) = registration (f (registration s)))"

lemma telemetry_free_same: "telemetry_free f \<Longrightarrow> same_registration s t \<Longrightarrow> same_registration (f s) (f t)"
  unfolding telemetry_free_def same_registration_def by metis

lemma without_stats_again [simp]: "without_stats (without_stats i) = without_stats i" "without_stats \<circ> without_stats = without_stats"
  by (simp_all add: without_stats_def fun_eq_iff)

lemma registration_again: "map_option without_stats \<circ> (map_option without_stats \<circ> m) = map_option without_stats \<circ> m"
  by (simp add: fun_eq_iff option.map_comp)

lemma field_write_free:
  "telemetry_free (\<lambda>reg. reg\<lparr>Lower2Interface := a (Lower2Interface reg)\<rparr>)"
  "telemetry_free (\<lambda>reg. reg\<lparr>Upper2Interface := b (Upper2Interface reg)\<rparr>)"
  "telemetry_free (\<lambda>reg. reg\<lparr>NetFlow2Interface := c (NetFlow2Interface reg)\<rparr>)"
  "telemetry_free (\<lambda>reg. reg\<lparr>NextHop2Interface := d (NextHop2Interface reg)\<rparr>)"
  "telemetry_free (\<lambda>reg. reg\<lparr>WanSorted := e (WanSorted reg)\<rparr>)"
  "telemetry_free (\<lambda>reg. reg\<lparr>LanSorted := f (LanSorted reg)\<rparr>)"
  "telemetry_free (\<lambda>reg. reg\<lparr>monitor := h (monitor reg)\<rparr>)"
  by (simp_all add: telemetry_free_def registration_def registration_again)

lemma alloc_free: "telemetry_free (\<lambda>reg. reg\<lparr>store := (store reg)(r \<mapsto> i), next_ref := n\<rparr>)"
proof -
  have "map_option without_stats \<circ> (m(r \<mapsto> i)) = map_option without_stats \<circ> ((map_option without_stats \<circ> m)(r \<mapsto> i))" for m
    by (simp add: fun_eq_iff option.map_comp)
  then show ?thesis by (simp add: telemetry_free_def registration_def)
qed

lemma register_steps_free: "f \<in> set (register_steps tm r ifc) \<Longrightarrow> telemetry_free f"
  unfolding register_steps_def by (auto intro: field_write_free alloc_free split: if_splits)

lemma unregister_steps_free: "f \<in> set (unregister_steps tm u l n) \<Longrightarrow> telemetry_free f"
  unfolding unregister_steps_def by (auto intro: field_write_free split: if_splits)

lemma registration_stats:
  "registration (modify_object r (\<lambda>i. i\<lparr>Stats := h (Stats i)\<rparr>) reg) = registration reg"
proof -
  have "map_option without_stats \<circ> (store reg)(r := map_option (\<lambda>i. i\<lparr>Stats := h (Stats i)\<rparr>) (store reg r)) =
      map_option without_stats \<circ> store reg"
    unfolding without_stats_def by (simp add: fun_eq_iff option.map_comp o_def)
  then show ?thesis by (simp add: registration_def modify_object_def)
qed

lemma registration_registration [simp]: "registration (registration reg) = registration reg"
  by (simp add: registration_def registration_again)

lemma stats_write_free: "telemetry_free (modify_object r (\<lambda>i. i\<lparr>Stats := h (Stats i)\<rparr>))"
  by (simp add: telemetry_free_def registration_stats)

lemma section_steps_free: "f \<in> set (section_steps tm w reg) \<Longrightarrow> telemetry_free f"
  by (cases w) (auto intro: register_steps_free unregister_steps_free stats_write_free split: if_splits option.splits)

lemma section_steps_registration: "section_steps tm w reg = section_steps tm w (registration reg)"
  by (cases w) (auto simp: deref_def split: option.splits bind_splits)

lemma section_runs: "run_steps (section_steps tm w reg) reg = section_op tm w reg"
proof (cases w)
  case (WNew ifc)
  then show ?thesis
    by (auto intro!: registry.equality simp: NewInterface_def register_steps_def)
next
  case (WRemove u)
  then show ?thesis
    by (auto intro!: registry.equality simp: RemoveInterface_def unregister_steps_def deref_def remove_name_remove1 Let_def
        split: option.splits bind_splits prod.splits)
next
  case (WDelay u d j)
  then show ?thesis
    by (auto intro!: registry.equality simp: updateInterfaceDelayJitter_def fun_eq_iff option.map_comp o_def split: option.splits)
qed

lemma section_op_inv: "registry_inv reg \<Longrightarrow> registry_inv (section_op tm w reg)"
  by (cases w) (auto intro: registry_inv_New registry_inv_Remove registry_inv_updateInterfaceDelayJitter simp: prod_eq_iff)

lemma unguarded_registration: "f \<in> unguarded_writes tm \<Longrightarrow> registration (f reg) = registration reg"
  by (induction rule: unguarded_writes.induct) (simp_all add: registration_stats, simp_all add: registration_def)

interpretation map_lock: guarded_object registry_inv same_registration "section_steps tm" "unguarded_writes tm"
  for tm :: "'m target_manager"
proof unfold_locales
  fix s t u :: "'m registry" and w and f :: "'m registry \<Rightarrow> 'm registry"
  show "registry_inv s \<Longrightarrow> registry_inv (run_steps (section_steps tm w s) s)"
    by (simp add: section_runs section_op_inv)
  show "same_registration s s" "same_registration s t \<Longrightarrow> same_registration t s"
    "same_registration s t \<Longrightarrow> same_registration t u \<Longrightarrow> same_registration s u"
    by (simp_all add: same_registration_def)
  show "same_registration s t \<Longrightarrow> registry_inv s \<Longrightarrow> registry_inv t"
    unfolding same_registration_def by (metis registry_inv_registration)
  show "same_registration s t \<Longrightarrow> section_steps tm w s = section_steps tm w t"
    unfolding same_registration_def by (metis section_steps_registration)
  show "f \<in> set (section_steps tm w u) \<Longrightarrow> same_registration s t \<Longrightarrow> same_registration (f s) (f t)"
    by (rule telemetry_free_same [OF section_steps_free])
  show "f \<in> unguarded_writes tm \<Longrightarrow> same_registration s (f s)"
    by (simp add: same_registration_def unguarded_registration)
qed

section \<open>Every interleaving\<close>

lemma sequential_sections: "sequential (section_steps tm) ws reg = foldl (\<lambda>reg w. section_op tm w reg) reg ws"
  by (simp add: sequential_def section_runs)

text \<open>
  \<^bold>\<open>C12\<close>. The registry is linearizable under its lock: whatever the order in which the assignments of
  concurrent \<open>NewInterface\<close>, \<open>RemoveInterface\<close> and delay updates, of readers and of the monitor
  goroutine (which does not take the lock for the objects it has looked up) are executed, a writer
  is alone inside; and whenever no writer is inside, that is whenever a reader with the lock can
  look (the range of \<open>GetSteerInterface\<close> over the next hops does not take it), the
  registry satisfies its invariant and is, up to telemetry and the state of the monitor, what the
  complete operations give one after another in the order in which they took the lock.
\<close>

theorem locked_registry_linearizable:
  assumes "guard_reachable (section_steps tm) (unguarded_writes tm) reg0 g" and "registry_inv reg0"
  shows "(is_writing (tasks g i) \<longrightarrow> (\<forall>j. j \<noteq> i \<longrightarrow> tasks g j = Outside)) \<and>
    ((\<forall>j. \<not> is_writing (tasks g j)) \<longrightarrow> registry_inv (shared g) \<and>
       registration (shared g) = registration (foldl (\<lambda>reg w. section_op tm w reg) reg0 (entered g)))"
proof -
  have "\<forall>j. j \<noteq> i \<longrightarrow> tasks g j = Outside" if "is_writing (tasks g i)"
    using that map_lock.writer_alone [OF assms(1), of i] by (cases "tasks g i") simp_all
  then show ?thesis
    using map_lock.quiet_state [OF assms(1) _ assms(2)] by (simp add: same_registration_def sequential_sections)
qed

theorem locked_registry_linearizable_witness:
  "\<exists>g. guard_reachable (section_steps name_manager) (unguarded_writes name_manager) (registry_reset empty_registry) g \<and>
     entered g = [WNew (wan_interface ''halo0'' ''ge1'' 7)] \<and> registry_inv (shared g) \<and>
     registration (shared g) =
       registration (section_op name_manager (WNew (wan_interface ''halo0'' ''ge1'' 7)) (registry_reset empty_registry)) \<and>
     findInterfaceByLower (shared g) ''ge1'' = Some 0"
proof -
  let ?w = "WNew (wan_interface ''halo0'' ''ge1'' 7)" and ?reg = "registry_reset empty_registry"
  let ?g = "\<lparr>shared = section_op name_manager ?w ?reg, tasks = \<lambda>j. Outside, entered = [?w]\<rparr>"
  have "guard_reachable (section_steps name_manager) (unguarded_writes name_manager) ?reg ?g"
    using guard_run_alone [OF guard_start [of "section_steps name_manager" "unguarded_writes name_manager" ?reg], of ?w]
    by (simp add: section_runs del: section_op.simps section_steps.simps)
  note g = this locked_registry_linearizable [OF this, of undefined]
  have "registry_inv ?reg" by (rule registry_inv_reset) simp
  with g show ?thesis
    by (intro exI [of _ ?g]) (simp add: findInterfaceByLower_def NewInterface_def)
qed

end
