(* ===== verification/MonitorStart.thy ===== *)
theory MonitorStart
  imports RegistryProps
begin

text \<open>
  The start of \<open>monitorInterfaces\<close> (\<open>pkg/hal/hal.go\<close>) while the management service is already
  adding and removing interfaces: the global monitor is set, then the LAN interfaces are copied
  under the lock and subscribed one by one without it, then the WAN interfaces. The sections of
  \<open>NewInterface\<close> and \<open>RemoveInterface\<close> may run between any two of these steps.
\<close>

section \<open>The steps\<close>

datatype start_phase = NotStarted | Assigned | LanAdds "nat option list" | WanAdds "nat option list" | Started

record 'm starting =
  st_registry :: "'m registry"
  st_phase :: start_phase

definition subscribe_object :: "'m target_manager \<Rightarrow> Interface \<Rightarrow> 'm registry \<Rightarrow> 'm registry" where
  "subscribe_object tm ifc reg = reg\<lparr>monitor := map_option (\<lambda>im. Monitor_Add tm im (Lower ifc)) (monitor reg)\<rparr>"

text \<open>A step of the monitor goroutine; a nil pointer among the copies would be a panic, no step.\<close>

fun start_own :: "'m target_manager \<Rightarrow> 'm InterfaceMonitor \<Rightarrow> 'm starting \<Rightarrow> 'm starting option" where
  "start_own tm im \<lparr>st_registry = reg, st_phase = NotStarted\<rparr> =
     Some \<lparr>st_registry = reg\<lparr>monitor := Some im\<rparr>, st_phase = Assigned\<rparr>"
| "start_own tm im \<lparr>st_registry = reg, st_phase = Assigned\<rparr> =
     Some \<lparr>st_registry = reg, st_phase = LanAdds (copyLanInterfaces reg)\<rparr>"
| "start_own tm im \<lparr>st_registry = reg, st_phase = LanAdds (p # ps)\<rparr> =
     map_option (\<lambda>ifc. \<lparr>st_registry = subscribe_object tm ifc reg, st_phase = LanAdds ps\<rparr>) (deref reg p)"
| "start_own tm im \<lparr>st_registry = reg, st_phase = LanAdds []\<rparr> =
     Some \<lparr>st_registry = reg, st_phase = WanAdds (copyWanInterfaces reg)\<rparr>"
| "start_own tm im \<lparr>st_registry = reg, st_phase = WanAdds (p # ps)\<rparr> =
     map_option (\<lambda>ifc. \<lparr>st_registry = subscribe_object tm ifc reg, st_phase = WanAdds ps\<rparr>) (deref reg p)"
| "start_own tm im \<lparr>st_registry = reg, st_phase = WanAdds []\<rparr> =
     Some \<lparr>st_registry = reg, st_phase = Started\<rparr>"
| "start_own tm im \<lparr>st_registry = reg, st_phase = Started\<rparr> = Some \<lparr>st_registry = reg, st_phase = Started\<rparr>"

text \<open>An interface is added on a lower port no registered interface uses.\<close>

definition fresh_lower :: "OptionInterface list \<Rightarrow> 'm registry \<Rightarrow> bool" where
  "fresh_lower ops reg \<longleftrightarrow> (case apply_options ops fresh_interface of
     Ok ifc \<Rightarrow> Lower2Interface reg (Lower ifc) = None | _ \<Rightarrow> True)"

inductive start_step :: "'m target_manager \<Rightarrow> 'm InterfaceMonitor \<Rightarrow> 'm starting \<Rightarrow> 'm starting \<Rightarrow> bool" for tm im where
  start_new: "fresh_lower ops (st_registry s) \<Longrightarrow> NewInterface tm ops (st_registry s) = (r, reg') \<Longrightarrow>
    start_step tm im s (s\<lparr>st_registry := reg'\<rparr>)"
| start_remove: "RemoveInterface tm u (st_registry s) = (r, reg') \<Longrightarrow> start_step tm im s (s\<lparr>st_registry := reg'\<rparr>)"
| start_own: "start_own tm im s = Some s' \<Longrightarrow> start_step tm im s s'"

abbreviation start_steps :: "'m target_manager \<Rightarrow> 'm InterfaceMonitor \<Rightarrow> 'm starting \<Rightarrow> 'm starting \<Rightarrow> bool" where
  "start_steps tm im \<equiv> (start_step tm im)\<^sup>*\<^sup>*"

section \<open>The subscription manager\<close>

text \<open>
  What the documentation of the manager promises, for the set \<open>subs m\<close> of the names with a
  subscription: adding a name that is there already is refused and leaves it there, removing one
  that is not is refused.
\<close>

definition keeps_targets :: "'m target_manager \<Rightarrow> ('m \<Rightarrow> string set) \<Rightarrow> bool" where
  "keeps_targets tm subs \<longleftrightarrow>
     (\<forall>m n r. subs (mgr_Add tm m n r) = insert n (subs m)) \<and> (\<forall>m n. subs (fst (mgr_Remove tm m n)) = subs m - {n})"

definition subscribed :: "('m \<Rightarrow> string set) \<Rightarrow> 'm registry \<Rightarrow> string \<Rightarrow> bool" where
  "subscribed subs reg l \<longleftrightarrow> (case monitor reg of None \<Rightarrow> False | Some im \<Rightarrow> l \<in> subs (im_Manager im))"

lemma subscribed_add:
  "keeps_targets tm subs \<Longrightarrow> monitor reg \<noteq> None \<Longrightarrow>
   subscribed subs (reg\<lparr>monitor := map_option (\<lambda>im. Monitor_Add tm im n) (monitor reg)\<rparr>) l \<longleftrightarrow>
     l = n \<or> subscribed subs reg l"
  by (auto simp: subscribed_def keeps_targets_def Monitor_Add_def Let_def split: option.splits prod.splits)

section \<open>The invariant\<close>

definition lowers_distinct :: "'m registry \<Rightarrow> bool" where
  "lowers_distinct reg \<longleftrightarrow> (\<forall>u i. registered reg u = Some i \<longrightarrow> Lower2Interface reg (Lower i) = Upper2Interface reg u)"

lemma lowers_distinct_register:
  assumes "registry_inv reg" and "lowers_distinct reg" and "Lower2Interface reg (Lower ifc) = None"
  shows "lowers_distinct (register_interface tm ifc reg)"
proof -
  have inv: "maps_sound reg" "store_bounded reg" using assms(1) by (auto simp: registry_inv_def)
  have "Lower i \<noteq> Lower ifc" if "registered reg u = Some i" for u i
    using that assms(2,3) registered_None [OF inv(1), of u] unfolding lowers_distinct_def by (metis option.distinct(1))
  then show ?thesis
    using assms(2) by (auto simp: lowers_distinct_def registered_register [OF inv])
qed

lemma lowers_distinct_unregister:
  assumes "registry_inv reg" and "lowers_distinct reg" and "registered reg v = Some ifc"
  shows "lowers_distinct (unregister_interface ifc reg)"
    and "registered reg u = Some i \<Longrightarrow> u \<noteq> v \<Longrightarrow> Lower i \<noteq> Lower ifc"
proof -
  have sound: "maps_sound reg" using assms(1) by (simp add: registry_inv_def)
  have ne: "Lower i \<noteq> Lower ifc" if "registered reg u = Some i" "u \<noteq> v" for u i
  proof
    assume eq: "Lower i = Lower ifc"
    have "Upper2Interface reg u = Upper2Interface reg v"
      using that(1) assms(2,3) eq unfolding lowers_distinct_def by metis
    then have "i = ifc" using that(1) assms(3) by (simp add: registered_def)
    with registered_Upper [OF sound that(1)] registered_Upper [OF sound assms(3)] that(2) show False by simp
  qed
  show "registered reg u = Some i \<Longrightarrow> u \<noteq> v \<Longrightarrow> Lower i \<noteq> Lower ifc" by (rule ne)
  have "Upper ifc = v" by (rule registered_Upper [OF sound assms(3)])
  with assms(2) ne show "lowers_distinct (unregister_interface ifc reg)"
    by (auto simp: lowers_distinct_def registered_unregister)
qed

text \<open>What the goroutine has still to subscribe, and the interfaces it has copied for that.\<close>

fun awaited :: "start_phase \<Rightarrow> Interface \<Rightarrow> nat option \<Rightarrow> bool" where
  "awaited NotStarted i p = True"
| "awaited Assigned i p = True"
| "awaited (LanAdds ps) i p = (IsWan i \<or> p \<in> set ps)"
| "awaited (WanAdds ps) i p = (IsWan i \<and> p \<in> set ps)"
| "awaited Started i p = False"

fun copied :: "start_phase \<Rightarrow> nat option list" where
  "copied (LanAdds ps) = ps"
| "copied (WanAdds ps) = ps"
| "copied ph = []"

definition start_inv :: "('m \<Rightarrow> string set) \<Rightarrow> 'm starting \<Rightarrow> bool" where
  "start_inv subs s \<longleftrightarrow>
     registry_inv (st_registry s) \<and> lowers_distinct (st_registry s) \<and>
     (st_phase s \<noteq> NotStarted \<longrightarrow> monitor (st_registry s) \<noteq> None) \<and>
     (\<forall>p\<in>set (copied (st_phase s)). deref (st_registry s) p \<noteq> None) \<and>
     (\<forall>u i. registered (st_registry s) u = Some i \<longrightarrow>
        awaited (st_phase s) i (Upper2Interface (st_registry s) u) \<or> subscribed subs (st_registry s) (Lower i))"

lemma copies_hold:
  assumes "registry_inv reg" and "registered reg u = Some i"
  shows "Upper2Interface reg u \<in> set (if IsWan i then copyWanInterfaces reg else copyLanInterfaces reg)"
  using registry_inv_names [OF assms(1)] assms(2)
  by (auto simp: names_sound_def copyWanInterfaces_def copyLanInterfaces_def)

lemma RemoveInterface_registry:
  assumes "registered reg u = Some ifc"
  shows "snd (RemoveInterface tm u reg) =
    (unregister_interface ifc reg)\<lparr>monitor := map_option (\<lambda>im. fst (Monitor_Remove tm im (Lower ifc))) (monitor reg)\<rparr>"
proof -
  obtain q where "Upper2Interface reg u = Some q" "store reg q = Some ifc" using assms by (auto simp: registered_Some)
  then show ?thesis
    by (auto intro!: registry.equality simp: RemoveInterface_def Let_def split: option.splits prod.splits)
qed

lemma monitor_not_seen [simp]: "registered (reg\<lparr>monitor := m\<rparr>) u = registered reg u"
  "lowers_distinct (reg\<lparr>monitor := m\<rparr>) \<longleftrightarrow> lowers_distinct reg" "deref (reg\<lparr>monitor := m\<rparr>) p = deref reg p"
  by (simp_all add: registered_def deref_def lowers_distinct_def)

lemma subscribed_remove:
  assumes "keeps_targets tm subs" and "l \<noteq> n"
  shows "subscribed subs (reg\<lparr>monitor := map_option (\<lambda>im. fst (Monitor_Remove tm im n)) m\<rparr>) l \<longleftrightarrow>
    subscribed subs (reg\<lparr>monitor := m\<rparr>) l"
proof -
  have "subs (im_Manager (fst (Monitor_Remove tm im n))) = subs (im_Manager im) - {n}" for im
    using assms(1) by (simp add: keeps_targets_def Monitor_Remove_def case_prod_beta)
  with assms(2) show ?thesis by (auto simp: subscribed_def split: option.splits)
qed

lemma start_inv_register:
  assumes "keeps_targets tm subs" and "start_inv subs s"
    and "Upper2Interface (st_registry s) (Upper ifc) = None" "Lower2Interface (st_registry s) (Lower ifc) = None"
  shows "start_inv subs (s\<lparr>st_registry := register_interface tm ifc (st_registry s)\<rparr>)"
proof -
  let ?reg = "st_registry s" let ?reg' = "register_interface tm ifc ?reg"
  have inv: "registry_inv ?reg" "lowers_distinct ?reg" using assms(2) by (simp_all add: start_inv_def)
  then have sound: "maps_sound ?reg" "store_bounded ?reg" by (simp_all add: registry_inv_def)
  have sub: "subscribed subs ?reg' l \<longleftrightarrow> l = Lower ifc \<or> subscribed subs ?reg l" if "monitor ?reg \<noteq> None" for l
    using subscribed_add [OF assms(1) that, of "Lower ifc" l] by (simp add: subscribed_def)
  have kept: "subscribed subs ?reg' l" if "subscribed subs ?reg l" for l
    using sub [of l] that by (cases "monitor ?reg") (auto simp: subscribed_def)
  have "\<forall>p\<in>set (copied (st_phase s)). deref ?reg' p \<noteq> None"
    using assms(2) by (auto simp: start_inv_def deref_def split: bind_splits)
  moreover have "awaited (st_phase s) i (Upper2Interface ?reg' u) \<or> subscribed subs ?reg' (Lower i)"
    if "registered ?reg' u = Some i" for u i
  proof (cases "u = Upper ifc")
    case True
    then have "i = ifc" using that by (simp add: registered_register [OF sound])
    then show ?thesis using sub assms(2) by (cases "st_phase s") (auto simp: start_inv_def)
  next
    case False
    then have "registered ?reg u = Some i" using that by (simp add: registered_register [OF sound])
    then have "awaited (st_phase s) i (Upper2Interface ?reg u) \<or> subscribed subs ?reg (Lower i)"
      using assms(2) by (simp add: start_inv_def)
    then show ?thesis using False kept by auto
  qed
  ultimately show ?thesis
    using assms(2) registry_inv_register [OF inv(1) assms(3)] lowers_distinct_register [OF inv assms(4)]
    by (simp add: start_inv_def)
qed

lemma start_inv_remove:
  assumes "keeps_targets tm subs" and "start_inv subs s"
  shows "start_inv subs (s\<lparr>st_registry := snd (RemoveInterface tm v (st_registry s))\<rparr>)"
proof -
  let ?reg = "st_registry s"
  have inv: "registry_inv ?reg" "lowers_distinct ?reg" using assms(2) by (simp_all add: start_inv_def)
  then have sound: "maps_sound ?reg" by (simp add: registry_inv_def)
  show ?thesis
  proof (cases "registered ?reg v")
    case None
    with registered_None [OF sound] have "snd (RemoveInterface tm v ?reg) = ?reg" by (simp add: RemoveInterface_def)
    with assms(2) show ?thesis by simp
  next
    case (Some ifc)
    note v = registered_Upper [OF sound Some]
    let ?reg' = "(unregister_interface ifc ?reg)\<lparr>monitor := map_option (\<lambda>im. fst (Monitor_Remove tm im (Lower ifc))) (monitor ?reg)\<rparr>"
    have "subscribed subs ?reg' l \<longleftrightarrow> subscribed subs ?reg l" if "l \<noteq> Lower ifc" for l
      unfolding subscribed_remove [OF assms(1) that] by (simp add: subscribed_def)
    then have "\<forall>u i. registered ?reg' u = Some i \<longrightarrow>
        awaited (st_phase s) i (Upper2Interface ?reg' u) \<or> subscribed subs ?reg' (Lower i)"
      using assms(2) lowers_distinct_unregister(2) [OF inv Some] v by (auto simp: registered_unregister start_inv_def)
    moreover have "\<forall>p\<in>set (copied (st_phase s)). deref ?reg' p \<noteq> None"
      using assms(2) by (simp add: start_inv_def deref_def)
    ultimately show ?thesis
      using assms(2) registry_inv_unregister [OF inv(1) Some] lowers_distinct_unregister(1) [OF inv Some]
      by (simp add: start_inv_def RemoveInterface_registry [OF Some] registry_inv_monitor)
  qed
qed

lemma start_inv_subscribe:
  assumes "keeps_targets tm subs" and "start_inv subs \<lparr>st_registry = reg, st_phase = ph\<rparr>"
    and "copied ph = p # ps" and "deref reg p = Some ifc" and "ph' = (case ph of WanAdds _ \<Rightarrow> WanAdds ps | _ \<Rightarrow> LanAdds ps)"
  shows "start_inv subs \<lparr>st_registry = subscribe_object tm ifc reg, st_phase = ph'\<rparr>"
proof -
  have mon: "monitor reg \<noteq> None" using assms(2,3) by (cases ph) (auto simp: start_inv_def)
  note sub = subscribed_add [OF assms(1) mon, of "Lower ifc", folded subscribe_object_def]
  have "i = ifc" if "registered reg u = Some i" "Upper2Interface reg u = p" for u i
    using that assms(4) by (simp add: registered_def)
  then have "\<forall>u i. registered reg u = Some i \<longrightarrow>
      awaited ph' i (Upper2Interface reg u) \<or> subscribed subs (subscribe_object tm ifc reg) (Lower i)"
    using assms(2,3) unfolding assms(5) sub by (cases ph) (fastforce simp: start_inv_def)+
  moreover have "\<forall>q\<in>set (copied ph'). deref reg q \<noteq> None"
    using assms(2,3) unfolding assms(5) by (cases ph) (auto simp: start_inv_def)
  ultimately show ?thesis
    using assms(2) mon by (simp add: start_inv_def subscribe_object_def registry_inv_monitor)
qed

lemma start_own_inv:
  assumes "keeps_targets tm subs" and "start_inv subs s" and "start_own tm im s = Some s'"
  shows "start_inv subs s'"
proof -
  obtain reg ph where s: "s = \<lparr>st_registry = reg, st_phase = ph\<rparr>" by (cases s)
  have inv: "registry_inv reg" "lowers_distinct reg" using assms(2) by (simp_all add: start_inv_def s)
  have held: "\<forall>u i. registered reg u = Some i \<longrightarrow> IsWan i \<or> Upper2Interface reg u \<in> set (copyLanInterfaces reg)"
    "\<forall>u i. registered reg u = Some i \<longrightarrow> IsWan i \<longrightarrow> Upper2Interface reg u \<in> set (copyWanInterfaces reg)"
    using copies_hold [OF inv(1)] by (metis (full_types))+
  have derefs: "\<forall>p\<in>set (copyLanInterfaces reg). deref reg p \<noteq> None" "\<forall>p\<in>set (copyWanInterfaces reg). deref reg p \<noteq> None"
    using copies_deref [OF inv(1)] by simp_all
  show ?thesis
  proof (cases ph)
    case NotStarted
    then show ?thesis using assms(2,3) by (auto simp: s start_inv_def registry_inv_monitor)
  next
    case Assigned
    then have "s' = \<lparr>st_registry = reg, st_phase = LanAdds (copyLanInterfaces reg)\<rparr>" using assms(3) by (simp add: s)
    then show ?thesis using Assigned assms(2) held derefs by (simp add: s start_inv_def)
  next
    case (LanAdds ps)
    show ?thesis
    proof (cases ps)
      case Nil
      with LanAdds have "s' = \<lparr>st_registry = reg, st_phase = WanAdds (copyWanInterfaces reg)\<rparr>" using assms(3) by (simp add: s)
      moreover have "IsWan i \<or> subscribed subs reg (Lower i)" if "registered reg u = Some i" for u i
        using that assms(2) by (auto simp: s LanAdds Nil start_inv_def)
      then have "\<forall>u i. registered reg u = Some i \<longrightarrow>
          IsWan i \<and> Upper2Interface reg u \<in> set (copyWanInterfaces reg) \<or> subscribed subs reg (Lower i)"
        using held(2) by blast
      ultimately show ?thesis using LanAdds assms(2) derefs by (simp add: s start_inv_def)
    next
      case (Cons p qs)
      with LanAdds start_inv_subscribe [OF assms(1) assms(2) [unfolded s]] assms(3) show ?thesis by (auto simp: s)
    qed
  next
    case (WanAdds ps)
    show ?thesis
    proof (cases ps)
      case Nil
      then show ?thesis using WanAdds assms(2,3) by (auto simp: s start_inv_def)
    next
      case (Cons p qs)
      with WanAdds start_inv_subscribe [OF assms(1) assms(2) [unfolded s]] assms(3) show ?thesis by (auto simp: s)
    qed
  next
    case Started
    then show ?thesis using assms(2,3) by (simp add: s)
  qed
qed

lemma start_step_inv:
  assumes "keeps_targets tm subs" and "start_step tm im s s'" and "start_inv subs s"
  shows "start_inv subs s'"
  using assms(2,3)
proof (induction rule: start_step.induct)
  case (start_new ops s r reg')
  show ?case
  proof (cases rule: NewInterface_cases [of ops "st_registry s" tm])
    case (ok ifc)
    with start_new have "Lower2Interface (st_registry s) (Lower ifc) = None" "reg' = register_interface tm ifc (st_registry s)"
      by (simp_all add: fresh_lower_def)
    with start_inv_register [OF assms(1) start_new.prems ok(2)] show ?thesis by simp
  next
    case (fail r)
    with start_new have "reg' = st_registry s" by simp
    with start_new.prems show ?thesis by simp
  qed
next
  case (start_remove u s r reg')
  then show ?case using start_inv_remove [OF assms(1) start_remove.prems, of u] by simp
next
  case (start_own s s')
  then show ?case using start_own_inv [OF assms(1)] by blast
qed

lemma start_steps_inv:
  "start_steps tm im s s' \<Longrightarrow> keeps_targets tm subs \<Longrightarrow> start_inv subs s \<Longrightarrow> start_inv subs s'"
  by (induction rule: rtranclp_induct) (auto intro: start_step_inv)

text \<open>The goroutine never waits and never meets a nil pointer, so left alone it comes to its loop.\<close>

lemma start_own_total:
  assumes "start_inv subs s"
  shows "start_own tm im s \<noteq> None"
  using assms by (cases "(tm, im, s)" rule: start_own.cases) (auto simp: start_inv_def)

fun start_left :: "start_phase \<Rightarrow> nat" where
  "start_left NotStarted = 3"
| "start_left Assigned = 2"
| "start_left (LanAdds ps) = 1"
| "start_left (WanAdds ps) = 0"
| "start_left Started = 0"

lemma start_finishes:
  assumes "keeps_targets tm subs" and "start_inv subs s"
  shows "\<exists>s'. start_steps tm im s s' \<and> st_phase s' = Started"
proof -
  let ?R = "measures [\<lambda>s. start_left (st_phase s), \<lambda>s. if st_phase s = Started then 0 else Suc (length (copied (st_phase s)))]"
  have "wf ?R" by simp
  from this assms(2) show ?thesis
  proof (induction s rule: wf_induct_rule)
    case (less s)
    show ?case
    proof (cases "st_phase s = Started")
      case True
      then show ?thesis by auto
    next
      case False
      obtain s' where s': "start_own tm im s = Some s'" using start_own_total [OF less.prems] by blast
      have "(s', s) \<in> ?R"
        using s' False by (cases "(tm, im, s)" rule: start_own.cases) auto
      with less.IH [OF this] start_own_inv [OF assms(1) less.prems s']
      obtain s'' where "start_steps tm im s' s''" "st_phase s'' = Started" by blast
      moreover have "start_step tm im s s'" by (rule start_step.start_own [OF s'])
      ultimately show ?thesis by (blast intro: converse_rtranclp_into_rtranclp)
    qed
  qed
qed

section \<open>The property\<close>

text \<open>
  \<^bold>\<open>C15\<close>. The monitor misses no interface. However the sections of \<open>NewInterface\<close> and
  \<open>RemoveInterface\<close> fall between the steps of the starting goroutine, the goroutine never meets a
  nil pointer and can always come to its loop, and once it is there every registered interface has
  its subscription. This is for interfaces that never share a lower port: those there at the
  start have different ones, and each addition is on a port no registered interface has. On a
  shared port the removal of one interface ends the subscription of the other.
\<close>

theorem monitor_misses_no_interface:
  assumes "keeps_targets tm subs" and "start_steps tm im \<lparr>st_registry = reg, st_phase = NotStarted\<rparr> s"
    and "registry_inv reg" and "lowers_distinct reg"
  shows "start_own tm im s \<noteq> None \<and> (\<exists>s'. start_steps tm im s s' \<and> st_phase s' = Started) \<and>
    (st_phase s = Started \<longrightarrow> (\<forall>u i. registered (st_registry s) u = Some i \<longrightarrow> subscribed subs (st_registry s) (Lower i)))"
proof -
  have "start_inv subs \<lparr>st_registry = reg, st_phase = NotStarted\<rparr>"
    using assms(3,4) by (simp add: start_inv_def)
  with start_steps_inv [OF assms(2,1)] have inv: "start_inv subs s" by blast
  then have "\<forall>u i. registered (st_registry s) u = Some i \<longrightarrow> subscribed subs (st_registry s) (Lower i)"
    if "st_phase s = Started" using that by (simp add: start_inv_def)
  then show ?thesis using start_own_total [OF inv] start_finishes [OF assms(1) inv] by blast
qed

text \<open>
  A manager that keeps the set of its targets, and an interface added before the goroutine
  starts.
\<close>

definition target_names :: "string set target_manager" where
  "target_names = \<lparr>mgr_Add = (\<lambda>m name req. insert name m),
     mgr_Remove = (\<lambda>m name. (m - {name}, if name \<in> m then None else Some ''unknown target''))\<rparr>"

definition fresh_registry :: "string set registry" where
  "fresh_registry = \<lparr>store = Map.empty, next_ref = 0, LanSorted = [], WanSorted = [],
     Upper2Interface = Map.empty, Lower2Interface = Map.empty, NetFlow2Interface = Map.empty,
     NextHop2Interface = Map.empty, monitor = None\<rparr>"

definition early_wan :: "string set registry" where
  "early_wan = snd (NewInterface target_names (wan_options ''halo0'' ''ge1'' 7) fresh_registry)"

definition small_monitor :: "string set InterfaceMonitor" where
  "small_monitor = \<lparr>im_UpdateInterval = 1000, im_Manager = {}\<rparr>"

lemma keeps_target_names: "keeps_targets target_names id"
  by (simp add: keeps_targets_def target_names_def)

lemma fresh_registry_inv: "registry_inv fresh_registry" "lowers_distinct fresh_registry"
  by (simp_all add: registry_inv_def maps_sound_def names_sound_def store_bounded_def lowers_distinct_def
      registered_def deref_def fresh_registry_def)

lemma early_wan_eq: "NewInterface target_names (wan_options ''halo0'' ''ge1'' 7) fresh_registry = (Ok 0, early_wan)"
  "early_wan = register_interface target_names (wan_interface ''halo0'' ''ge1'' 7) fresh_registry"
  using NewInterface_Ok [OF wan_options_interface, where reg = fresh_registry and tm = target_names]
  by (simp_all add: early_wan_def fresh_registry_def)

lemma early_wan_fields: "copyLanInterfaces early_wan = []" "copyWanInterfaces early_wan = [Some 0]"
  "deref early_wan (Some 0) = Some (wan_interface ''halo0'' ''ge1'' 7)"
  "registered early_wan ''halo0'' = Some (wan_interface ''halo0'' ''ge1'' 7)" "monitor early_wan = None"
  by (simp_all add: early_wan_eq(2) copyLanInterfaces_def copyWanInterfaces_def deref_def registered_def fresh_registry_def)

lemma own_steps: "start_own tm im s = Some s' \<Longrightarrow> start_steps tm im s' s'' \<Longrightarrow> start_steps tm im s s''"
  using start_step.start_own by (rule converse_rtranclp_into_rtranclp)

lemma early_wan_copied: "start_steps target_names small_monitor \<lparr>st_registry = fresh_registry, st_phase = NotStarted\<rparr>
    \<lparr>st_registry = early_wan\<lparr>monitor := Some small_monitor\<rparr>, st_phase = WanAdds [Some 0]\<rparr>"
proof -
  have copies: "copyLanInterfaces (reg\<lparr>monitor := m\<rparr>) = copyLanInterfaces reg"
    "copyWanInterfaces (reg\<lparr>monitor := m\<rparr>) = copyWanInterfaces reg" for reg :: "string set registry" and m
    by (simp_all add: copyLanInterfaces_def copyWanInterfaces_def)
  have "start_step target_names small_monitor \<lparr>st_registry = fresh_registry, st_phase = NotStarted\<rparr>
      \<lparr>st_registry = early_wan, st_phase = NotStarted\<rparr>"
    using start_new [of "wan_options ''halo0'' ''ge1'' 7" "\<lparr>st_registry = fresh_registry, st_phase = NotStarted\<rparr>" target_names]
    by (simp add: fresh_lower_def wan_options_interface early_wan_eq(1)) (simp add: fresh_registry_def)
  moreover have "start_steps target_names small_monitor \<lparr>st_registry = early_wan, st_phase = NotStarted\<rparr>
      \<lparr>st_registry = early_wan\<lparr>monitor := Some small_monitor\<rparr>, st_phase = WanAdds [Some 0]\<rparr>"
    by (rule own_steps, simp, rule own_steps, simp, rule own_steps, simp add: copies early_wan_fields,
        simp add: copies early_wan_fields)
  ultimately show ?thesis by (rule converse_rtranclp_into_rtranclp)
qed

theorem monitor_misses_no_interface_witness:
  "\<exists>reg. start_steps target_names small_monitor \<lparr>st_registry = fresh_registry, st_phase = NotStarted\<rparr>
       \<lparr>st_registry = reg, st_phase = Started\<rparr> \<and>
     registered reg ''halo0'' = Some (wan_interface ''halo0'' ''ge1'' 7) \<and> subscribed id reg ''ge1''"
proof -
  let ?reg = "subscribe_object target_names (wan_interface ''halo0'' ''ge1'' 7) (early_wan\<lparr>monitor := Some small_monitor\<rparr>)"
  have "start_steps target_names small_monitor
      \<lparr>st_registry = early_wan\<lparr>monitor := Some small_monitor\<rparr>, st_phase = WanAdds [Some 0]\<rparr>
      \<lparr>st_registry = ?reg, st_phase = Started\<rparr>"
    by (rule own_steps, simp add: early_wan_fields, rule own_steps, simp, simp)
  with early_wan_copied have run: "start_steps target_names small_monitor
      \<lparr>st_registry = fresh_registry, st_phase = NotStarted\<rparr> \<lparr>st_registry = ?reg, st_phase = Started\<rparr>"
    by (rule rtranclp_trans)
  have "registered ?reg ''halo0'' = Some (wan_interface ''halo0'' ''ge1'' 7)"
    by (simp add: subscribe_object_def early_wan_fields)
  with monitor_misses_no_interface [OF keeps_target_names run fresh_registry_inv] run show ?thesis by fastforce
qed

text \<open>
  The other direction fails: an interface removed after it has been copied is subscribed after its
  removal, which has reported an error although the interface is gone.
\<close>

lemma removed_interface_subscribed:
  "\<exists>reg. start_steps target_names small_monitor \<lparr>st_registry = fresh_registry, st_phase = NotStarted\<rparr>
       \<lparr>st_registry = reg, st_phase = Started\<rparr> \<and>
     fst (RemoveInterface target_names ''halo0'' (early_wan\<lparr>monitor := Some small_monitor\<rparr>)) =
       Err ''failed to remove interface monitor ge1'' \<and>
     registered reg ''halo0'' = None \<and> subscribed id reg ''ge1''"
proof -
  let ?w = "early_wan\<lparr>monitor := Some small_monitor\<rparr>"
  let ?gone = "snd (RemoveInterface target_names ''halo0'' ?w)"
  let ?reg = "subscribe_object target_names (wan_interface ''halo0'' ''ge1'' 7) ?gone"
  have "registered ?w ''halo0'' = Some (wan_interface ''halo0'' ''ge1'' 7)" by (simp add: early_wan_fields)
  note gone = RemoveInterface_registry [OF this, of target_names]
  have obj: "deref ?gone (Some 0) = Some (wan_interface ''halo0'' ''ge1'' 7)"
    unfolding gone by (simp add: deref_def early_wan_eq(2) fresh_registry_def)
  have "start_step target_names small_monitor \<lparr>st_registry = ?w, st_phase = WanAdds [Some 0]\<rparr>
      \<lparr>st_registry = ?gone, st_phase = WanAdds [Some 0]\<rparr>"
    using start_remove [of target_names "''halo0''" "\<lparr>st_registry = ?w, st_phase = WanAdds [Some 0]\<rparr>"]
    by (simp add: prod_eq_iff)
  moreover have "start_steps target_names small_monitor \<lparr>st_registry = ?gone, st_phase = WanAdds [Some 0]\<rparr>
      \<lparr>st_registry = ?reg, st_phase = Started\<rparr>"
    by (rule own_steps, simp add: obj, rule own_steps, simp, simp)
  ultimately have "start_steps target_names small_monitor \<lparr>st_registry = fresh_registry, st_phase = NotStarted\<rparr>
      \<lparr>st_registry = ?reg, st_phase = Started\<rparr>"
    using early_wan_copied by (meson converse_rtranclp_into_rtranclp rtranclp_trans)
  moreover have "registered ?reg ''halo0'' = None"
    unfolding subscribe_object_def gone by (simp add: registered_unregister)
  moreover have "subscribed id ?reg ''ge1''"
    unfolding subscribe_object_def gone by (simp add: subscribed_def Monitor_Add_def target_names_def split: prod.splits)
  moreover have "fst (RemoveInterface target_names ''halo0'' ?w) = Err ''failed to remove interface monitor ge1''"
    by (simp add: RemoveInterface_def early_wan_eq(2) fresh_registry_def Let_def Monitor_Remove_def target_names_def small_monitor_def)
  ultimately show ?thesis by blast
qed

end
