(* ===== verification/MonitorLock.thy ===== *)
theory MonitorLock
  imports MonitorStart
begin

text \<open>
  The goroutines around the map lock and the two channels of the interface monitor: the gNMI
  streams, one for each subscribed port, whose callback \<open>Update\<close> sends on channels of capacity
  one; the monitor loop, which receives from them and looks the interface up under the lock; and
  \<open>RemoveInterface\<close>, which calls \<open>Remove\<close> of the subscription manager with the lock held. Whether
  that call waits for the stream's callback to return is a parameter.
\<close>

section \<open>The goroutines\<close>

text \<open>
  \<open>w_callback\<close> holds the sends a running callback has still to make, \<open>w_received\<close> the update
  the loop has taken and not yet applied, \<open>w_removing\<close> the port whose removal is inside the
  manager, with the lock held.
\<close>

record 'm monitor_world =
  w_registry :: "'m registry"
  w_speed :: "InterfaceUpdate list"
  w_stats :: "InterfaceUpdate list"
  w_callback :: "string \<Rightarrow> channel_send list"
  w_received :: "channel_send option"
  w_removing :: "string option"

definition quiet_world :: "'m registry \<Rightarrow> 'm monitor_world" where
  "quiet_world reg = \<lparr>w_registry = reg, w_speed = [], w_stats = [], w_callback = (\<lambda>_. []),
     w_received = None, w_removing = None\<rparr>"

primrec apply_received :: "channel_send \<Rightarrow> 'm registry \<Rightarrow> 'm registry" where
  "apply_received (SpeedChan u) = handleSpeed u"
| "apply_received (StatsChan u) = handleStats u"

definition chan_capacity :: nat where
  "chan_capacity = 1"

inductive world_step ::
    "(string \<Rightarrow> InterfaceTelemetry outcome) \<Rightarrow> 'm target_manager \<Rightarrow> bool \<Rightarrow> 'm monitor_world \<Rightarrow> 'm monitor_world \<Rightarrow> bool"
  for unmarshal tm waits where
  world_notify: "w_callback w l = [] \<Longrightarrow> Monitor_Update unmarshal n = (sends, Ok ()) \<Longrightarrow>
    world_step unmarshal tm waits w (w\<lparr>w_callback := (w_callback w)(l := sends)\<rparr>)"
| world_send_speed: "w_callback w l = SpeedChan u # cs \<Longrightarrow> length (w_speed w) < chan_capacity \<Longrightarrow>
    world_step unmarshal tm waits w (w\<lparr>w_speed := w_speed w @ [u], w_callback := (w_callback w)(l := cs)\<rparr>)"
| world_send_stats: "w_callback w l = StatsChan u # cs \<Longrightarrow> length (w_stats w) < chan_capacity \<Longrightarrow>
    world_step unmarshal tm waits w (w\<lparr>w_stats := w_stats w @ [u], w_callback := (w_callback w)(l := cs)\<rparr>)"
| world_recv_speed: "w_received w = None \<Longrightarrow> w_speed w = u # us \<Longrightarrow>
    world_step unmarshal tm waits w (w\<lparr>w_speed := us, w_received := Some (SpeedChan u)\<rparr>)"
| world_recv_stats: "w_received w = None \<Longrightarrow> w_stats w = u # us \<Longrightarrow>
    world_step unmarshal tm waits w (w\<lparr>w_stats := us, w_received := Some (StatsChan u)\<rparr>)"
| world_apply: "w_received w = Some c \<Longrightarrow> w_removing w = None \<Longrightarrow>
    world_step unmarshal tm waits w (w\<lparr>w_registry := apply_received c (w_registry w), w_received := None\<rparr>)"
| world_delay: "w_received w = None \<Longrightarrow> w_removing w = None \<Longrightarrow>
    world_step unmarshal tm waits w (w\<lparr>w_registry := updateInterfaceDelayJitter u d j (w_registry w)\<rparr>)"
| world_new: "w_removing w = None \<Longrightarrow> NewInterface tm ops (w_registry w) = (r, reg') \<Longrightarrow>
    world_step unmarshal tm waits w (w\<lparr>w_registry := reg'\<rparr>)"
| world_remove: "w_removing w = None \<Longrightarrow> registered (w_registry w) u = Some ifc \<Longrightarrow> monitor (w_registry w) \<noteq> None \<Longrightarrow>
    world_step unmarshal tm waits w
      (w\<lparr>w_registry := unregister_interface ifc (w_registry w), w_removing := Some (Lower ifc)\<rparr>)"
| world_removed: "w_removing w = Some l \<Longrightarrow> waits \<longrightarrow> w_callback w l = [] \<Longrightarrow>
    world_step unmarshal tm waits w
      (w\<lparr>w_registry := (w_registry w)\<lparr>monitor :=
           map_option (\<lambda>im. fst (Monitor_Remove tm im l)) (monitor (w_registry w))\<rparr>, w_removing := None\<rparr>)"

abbreviation world_steps ::
    "(string \<Rightarrow> InterfaceTelemetry outcome) \<Rightarrow> 'm target_manager \<Rightarrow> bool \<Rightarrow> 'm monitor_world \<Rightarrow> 'm monitor_world \<Rightarrow> bool" where
  "world_steps unmarshal tm waits \<equiv> (world_step unmarshal tm waits)\<^sup>*\<^sup>*"

section \<open>Without a removal updates flow\<close>

lemma world_then: "world_step um tm waits w w' \<Longrightarrow> world_steps um tm waits w' w'' \<Longrightarrow> world_steps um tm waits w w''"
  by (rule converse_rtranclp_into_rtranclp)

lemma loop_takes_on:
  assumes "w_removing w = None"
  shows "\<exists>reg. world_steps um tm waits w (w\<lparr>w_registry := reg, w_received := None\<rparr>)"
proof (cases "w_received w")
  case None
  then have "w\<lparr>w_registry := w_registry w, w_received := None\<rparr> = w" by simp
  then show ?thesis by (metis rtranclp.rtrancl_refl)
next
  case (Some c)
  from world_apply [OF Some assms] show ?thesis by (blast intro: r_into_rtranclp)
qed

text \<open>The loop can empty both channels.\<close>

lemma channels_empty:
  assumes "w_removing w = None"
  shows "\<exists>reg. world_steps um tm waits w (w\<lparr>w_registry := reg, w_received := None, w_speed := [], w_stats := []\<rparr>)"
  using assms
proof (induction "length (w_speed w) + length (w_stats w)" arbitrary: w)
  case 0
  obtain reg where "world_steps um tm waits w (w\<lparr>w_registry := reg, w_received := None\<rparr>)"
    using loop_takes_on [OF 0(2)] by blast
  moreover have "w\<lparr>w_registry := reg, w_received := None, w_speed := [], w_stats := []\<rparr> = w\<lparr>w_registry := reg, w_received := None\<rparr>"
    using 0(1) by (intro monitor_world.equality) simp_all
  ultimately show ?case by metis
next
  case (Suc k)
  obtain reg where idle: "world_steps um tm waits w (w\<lparr>w_registry := reg, w_received := None\<rparr>)"
    using loop_takes_on [OF Suc.prems] by blast
  let ?w = "w\<lparr>w_registry := reg, w_received := None\<rparr>"
  have "\<exists>w'. world_step um tm waits ?w w' \<and> w_removing w' = None \<and> w_callback w' = w_callback w \<and>
      k = length (w_speed w') + length (w_stats w')"
  proof (cases "w_speed w")
    case (Cons u us)
    then have "world_step um tm waits ?w (?w\<lparr>w_speed := us, w_received := Some (SpeedChan u)\<rparr>)"
      by (intro world_recv_speed) simp_all
    with Cons Suc.hyps(2) Suc.prems show ?thesis by fastforce
  next
    case Nil
    with Suc.hyps(2) obtain u us where "w_stats w = u # us" by (cases "w_stats w") auto
    then have "world_step um tm waits ?w (?w\<lparr>w_stats := us, w_received := Some (StatsChan u)\<rparr>)"
      by (intro world_recv_stats) simp_all
    with Nil \<open>w_stats w = u # us\<close> Suc.hyps(2) Suc.prems show ?thesis by fastforce
  qed
  then obtain w' where w': "world_step um tm waits ?w w'" "w_removing w' = None" "w_callback w' = w_callback w"
      "k = length (w_speed w') + length (w_stats w')" by blast
  from Suc.hyps(1) [OF w'(4,2)] obtain reg'
    where "world_steps um tm waits w' (w'\<lparr>w_registry := reg', w_received := None, w_speed := [], w_stats := []\<rparr>)" by blast
  moreover have "w'\<lparr>w_registry := reg', w_received := None, w_speed := [], w_stats := []\<rparr> =
      w\<lparr>w_registry := reg', w_received := None, w_speed := [], w_stats := []\<rparr>"
    using w' Suc.prems by (intro monitor_world.equality) simp_all
  ultimately show ?case using idle w'(1) by (metis rtranclp_trans world_then)
qed

lemma callback_returns:
  assumes "w_removing w = None"
  shows "\<exists>w'. world_steps um tm waits w w' \<and> w_removing w' = None \<and> w_callback w' l = []"
  using assms
proof (induction "w_callback w l" arbitrary: w)
  case Nil
  then show ?case by auto
next
  case (Cons c cs)
  obtain reg where empty: "world_steps um tm waits w (w\<lparr>w_registry := reg, w_received := None, w_speed := [], w_stats := []\<rparr>)"
    using channels_empty [OF Cons.prems] by blast
  let ?w = "w\<lparr>w_registry := reg, w_received := None, w_speed := [], w_stats := []\<rparr>"
  have "\<exists>w'. world_step um tm waits ?w w' \<and> w_removing w' = None \<and> cs = w_callback w' l"
  proof (cases c)
    case (SpeedChan u)
    with Cons.hyps(2) have "world_step um tm waits ?w (?w\<lparr>w_speed := w_speed ?w @ [u], w_callback := (w_callback ?w)(l := cs)\<rparr>)"
      by (intro world_send_speed) (simp_all add: chan_capacity_def)
    then show ?thesis using Cons.prems by fastforce
  next
    case (StatsChan u)
    with Cons.hyps(2) have "world_step um tm waits ?w (?w\<lparr>w_stats := w_stats ?w @ [u], w_callback := (w_callback ?w)(l := cs)\<rparr>)"
      by (intro world_send_stats) (simp_all add: chan_capacity_def)
    then show ?thesis using Cons.prems by fastforce
  qed
  then obtain w' where w': "world_step um tm waits (w\<lparr>w_registry := reg, w_received := None, w_speed := [], w_stats := []\<rparr>) w'"
      "w_removing w' = None" "cs = w_callback w' l" by blast
  from Cons.hyps(1) [OF w'(3,2)] obtain w'' where "world_steps um tm waits w' w''" "w_removing w'' = None" "w_callback w'' l = []"
    by blast
  with empty w'(1) show ?case by (meson rtranclp_trans world_then)
qed

section \<open>A removal in progress\<close>

definition stuck :: "'m registry \<Rightarrow> string \<Rightarrow> 'm monitor_world \<Rightarrow> bool" where
  "stuck reg l w \<longleftrightarrow> w_registry w = reg \<and> w_removing w = Some l \<and> w_received w \<noteq> None \<and> w_speed w \<noteq> [] \<and>
     (\<exists>u cs. w_callback w l = SpeedChan u # cs)"

lemma stuck_step: "world_step um tm True w w' \<Longrightarrow> stuck reg l w \<Longrightarrow> stuck reg l w'"
  by (induction rule: world_step.induct) (auto simp: stuck_def chan_capacity_def)

lemma stuck_steps: "world_steps um tm True w w' \<Longrightarrow> stuck reg l w \<Longrightarrow> stuck reg l w'"
  by (induction rule: rtranclp_induct) (auto intro: stuck_step)

text \<open>A notification with one speed.\<close>

definition speed_notification :: Notification where
  "speed_notification = [\<lparr>UpdPath = [\<lparr>ElemName = ''interface'', ElemKey = [''name'' \<mapsto> ''ge1'']\<rparr>,
     \<lparr>ElemName = ''interface-speed'', ElemKey = Map.empty\<rparr>], JsonVal = ''1000''\<rparr>]"

lemma speed_sends: "\<exists>u. Monitor_Update um speed_notification = ([SpeedChan u], Ok ())"
proof -
  have "ParseUint ''1000'' 64 = Ok 1000" by (simp add: ParseUint_def is_digit_def digit_val_def)
  then show ?thesis by (simp add: speed_notification_def key_or_empty_def)
qed

lemma stuck_reachable:
  assumes "registered reg u = Some ifc" and "monitor reg \<noteq> None"
  shows "\<exists>w. world_steps um tm waits (quiet_world reg) w \<and> stuck (unregister_interface ifc reg) (Lower ifc) w"
proof -
  let ?l = "Lower ifc"
  obtain v where sends: "Monitor_Update um speed_notification = ([SpeedChan v], Ok ())" using speed_sends by blast
  define W where "W rcv spd cb = \<lparr>w_registry = reg, w_speed = spd, w_stats = [], w_callback = (\<lambda>_. [])(?l := cb),
     w_received = rcv, w_removing = None\<rparr>" for rcv spd cb
  let ?step = "world_step um tm waits"
  have quiet: "quiet_world reg = W None [] []" by (simp add: quiet_world_def W_def fun_eq_iff)
  have notify: "?step (W rcv spd []) (W rcv spd [SpeedChan v])" for rcv spd
    using world_notify [of "W rcv spd []" ?l um speed_notification] sends by (simp add: W_def)
  have send: "?step (W rcv [] [SpeedChan v]) (W rcv [v] [])" for rcv
    using world_send_speed [of "W rcv [] [SpeedChan v]" ?l v "[]" um tm waits] by (simp add: W_def chan_capacity_def)
  have recv: "?step (W None [v] []) (W (Some (SpeedChan v)) [] [])"
    using world_recv_speed [of "W None [v] []" v "[]" um tm waits] by (simp add: W_def)
  let ?w = "(W (Some (SpeedChan v)) [v] [SpeedChan v])\<lparr>w_registry := unregister_interface ifc reg, w_removing := Some ?l\<rparr>"
  have remove: "?step (W (Some (SpeedChan v)) [v] [SpeedChan v]) ?w"
    using world_remove [of "W (Some (SpeedChan v)) [v] [SpeedChan v]" u ifc um tm waits] assms by (simp add: W_def)
  have "world_steps um tm waits (quiet_world reg) ?w"
    unfolding quiet
    by (rule world_then [OF notify], rule world_then [OF send], rule world_then [OF recv], rule world_then [OF notify],
        rule world_then [OF send], rule world_then [OF notify], rule r_into_rtranclp [of ?step, OF remove])
  moreover have "stuck (unregister_interface ifc reg) ?l ?w" by (simp add: stuck_def W_def)
  ultimately show ?thesis by blast
qed

text \<open>
  \<^bold>\<open>C16\<close>. The lock held across \<open>monitor.Remove\<close>. While no removal is in progress every callback can
  finish its sends. But if the manager's \<open>Remove\<close> waits for the callback of the stream it removes,
  then there is an order of events, starting from any registry with an interface and a monitor,
  after which the removal never returns, the lock is never free again and no further update
  reaches the registry; and only then.
\<close>

theorem removal_hangs_iff_waits:
  assumes "registered reg u = Some ifc" and "monitor reg \<noteq> None"
  shows "((\<exists>w. world_steps um tm waits (quiet_world reg) w \<and>
       (\<forall>w'. world_steps um tm waits w w' \<longrightarrow> w_removing w' \<noteq> None \<and> w_registry w' = w_registry w)) \<longleftrightarrow> waits) \<and>
    (\<forall>w l. world_steps um tm waits (quiet_world reg) w \<and> w_removing w = None \<longrightarrow>
       (\<exists>w'. world_steps um tm waits w w' \<and> w_removing w' = None \<and> w_callback w' l = []))"
proof (intro conjI iffI)
  assume waits
  then show "\<exists>w. world_steps um tm waits (quiet_world reg) w \<and>
      (\<forall>w'. world_steps um tm waits w w' \<longrightarrow> w_removing w' \<noteq> None \<and> w_registry w' = w_registry w)"
    using stuck_reachable [OF assms, of um tm waits] stuck_steps [of um tm] unfolding stuck_def
    by (metis (full_types) option.distinct(1))
next
  assume "\<exists>w. world_steps um tm waits (quiet_world reg) w \<and>
      (\<forall>w'. world_steps um tm waits w w' \<longrightarrow> w_removing w' \<noteq> None \<and> w_registry w' = w_registry w)"
  then obtain w where w: "\<And>w'. world_steps um tm waits w w' \<Longrightarrow> w_removing w' \<noteq> None" by blast
  from w [OF rtranclp.rtrancl_refl] obtain l where "w_removing w = Some l" by blast
  from world_removed [OF this] show waits using w [OF r_into_rtranclp] by fastforce
next
  show "\<forall>w l. world_steps um tm waits (quiet_world reg) w \<and> w_removing w = None \<longrightarrow>
      (\<exists>w'. world_steps um tm waits w w' \<and> w_removing w' = None \<and> w_callback w' l = [])"
    using callback_returns by blast
qed

theorem removal_hangs_iff_waits_witness:
  "\<exists>w. world_steps (\<lambda>s. Ok zero_telemetry) target_names True (quiet_world (early_wan\<lparr>monitor := Some small_monitor\<rparr>)) w \<and>
     (\<forall>w'. world_steps (\<lambda>s. Ok zero_telemetry) target_names True w w' \<longrightarrow> w_removing w' \<noteq> None \<and> w_registry w' = w_registry w)"
proof -
  have "registered (early_wan\<lparr>monitor := Some small_monitor\<rparr>) ''halo0'' = Some (wan_interface ''halo0'' ''ge1'' 7)"
    by (simp add: early_wan_fields)
  from removal_hangs_iff_waits [OF this, of "\<lambda>s. Ok zero_telemetry" target_names True] show ?thesis by simp
qed

end
