(* ===== verification/Runtime.thy ===== *)
theory Runtime
  imports ServerProps FlowProps SteerProps
begin

text \<open>
  The running instance as one state machine: what the management service, the gNMI monitor, the
  NetFlow receiver and the client's calls may do to it, one event after another, in any order.
  An event that returns an error leaves the process running; a panic or a fatal log ends it.
\<close>

section \<open>Events\<close>

datatype 'm hal_event =
    RtAddLan string string
  | RtAddWan AddWanInterfaceArgs
  | RtDelete string
  | RtMonitor "'m InterfaceMonitor"
  | RtSpeed InterfaceUpdate
  | RtStats InterfaceUpdate
  | RtDelay string f64 f64
  | RtPublish "FlowMessage list"
  | RtGetFlows int "string list"
  | RtSteer "nat \<Rightarrow> int list" "SteerItem list"
  | RtRemoveSteer "nat \<Rightarrow> int list" "FlowKey list"
  | RtVerify "nat \<Rightarrow> string list" "SteerItem list"

definition on_interfaces :: "('m registry \<Rightarrow> 'a outcome \<times> 'm registry) \<Rightarrow> ('m, 'd) hal \<Rightarrow> 'a outcome \<times> ('m, 'd) hal" where
  "on_interfaces f h = (case f (interfaces h) of (r, reg) \<Rightarrow> (r, h\<lparr>interfaces := reg\<rparr>))"

definition on_flows :: "(flows \<Rightarrow> flows) \<Rightarrow> ('m, 'd) hal \<Rightarrow> unit outcome \<times> ('m, 'd) hal" where
  "on_flows f h = (Ok (), h\<lparr>hal_flows := f (hal_flows h)\<rparr>)"

definition no_visit :: "unit FlowVisitor" where
  "no_visit s k t = (None, s)"

fun hal_step :: "('p, 'm, 'd) hal_env \<Rightarrow> 'm hal_event \<Rightarrow> ('m, 'd) hal \<Rightarrow> unit outcome \<times> ('m, 'd) hal" where
  "hal_step env (RtAddLan upper lower) h = AddLanInterface env upper lower h"
| "hal_step env (RtAddWan args) h = AddWanInterface env args h"
| "hal_step env (RtDelete upper) h = DeleteInterface env upper h"
| "hal_step env (RtMonitor im) h = on_interfaces (startMonitor (gnmi_mgr env) im) h"
| "hal_step env (RtSpeed u) h = on_interfaces (\<lambda>reg. (Ok (), handleSpeed u reg)) h"
| "hal_step env (RtStats u) h = on_interfaces (\<lambda>reg. (Ok (), handleStats u reg)) h"
| "hal_step env (RtDelay u d j) h = on_interfaces (\<lambda>reg. (Ok (), updateInterfaceDelayJitter u d j reg)) h"
| "hal_step env (RtPublish msgs) h = on_flows (hal_Publish (interfaces h) msgs) h"
| "hal_step env (RtGetFlows now order) h =
     on_flows (\<lambda>fl. fst (GetFlows (Debug (config h)) (FlowThreshold (config h)) now order no_visit fl ())) h"
| "hal_step env (RtSteer orders items) h = on_steering (Steer (device_api env) (interfaces h) orders items) h"
| "hal_step env (RtRemoveSteer orders fks) h = on_steering (RemoveSteer (device_api env) orders fks) h"
| "hal_step env (RtVerify nh_orders items) h =
     (case on_steering (GetSteerInterface (device_api env) (interfaces h) nh_orders items) h of
        (r, h') \<Rightarrow> (bind_outcome r (\<lambda>_. Ok ()), h'))"

fun hal_run :: "('p, 'm, 'd) hal_env \<Rightarrow> 'm hal_event list \<Rightarrow> ('m, 'd) hal \<Rightarrow> unit outcome \<times> ('m, 'd) hal" where
  "hal_run env [] h = (Ok (), h)"
| "hal_run env (e # es) h =
     (case hal_step env e h of
        (Ok _, h') \<Rightarrow> hal_run env es h'
      | (Err _, h') \<Rightarrow> hal_run env es h'
      | (r, h') \<Rightarrow> (r, h'))"

text \<open>The ranges over the rule cache run over all of it, and one call does not name a flow twice.\<close>

fun event_ok :: "'m hal_event \<Rightarrow> ('m, 'd) hal \<Rightarrow> bool" where
  "event_ok (RtSteer orders items) h = batch_ok orders items (hal_steering h)"
| "event_ok (RtRemoveSteer orders fks) h = (\<forall>j. range_order (aclRules (hal_steering h)) (orders j))"
| "event_ok _ h = True"

fun events_ok :: "('p, 'm, 'd) hal_env \<Rightarrow> 'm hal_event list \<Rightarrow> ('m, 'd) hal \<Rightarrow> bool" where
  "events_ok env [] h = True"
| "events_ok env (e # es) h = (event_ok e h \<and> events_ok env es (snd (hal_step env e h)))"

section \<open>The invariant of the instance\<close>

definition hal_inv :: "('m, 'd) hal \<Rightarrow> bool" where
  "hal_inv h \<longleftrightarrow> registry_inv (interfaces h) \<and>
     cache_inv (aclRules (hal_steering h)) (accessListID (hal_steering h)) \<and> finite (dom (flows_aggregate (hal_flows h)))"

subsection \<open>What an event touches\<close>

lemma add_interface_fields:
  "add_interface env options h = (r, h') \<Longrightarrow>
   interfaces h' = interfaces h \<or> (\<exists>client. grpc_Dial env (grpcAddr h) = Ok client \<and>
     interfaces h' = snd (NewInterface (gnmi_mgr env) (options client) (interfaces h)))"
  by (auto simp: add_interface_def split: outcome.splits prod.splits)

lemma add_interface_others:
  "add_interface env options h = (r, h') \<Longrightarrow>
   hal_steering h' = hal_steering h \<and> hal_flows h' = hal_flows h \<and> grpcAddr h' = grpcAddr h"
  by (auto simp: add_interface_def split: outcome.splits prod.splits)

lemma fetch_rules_keeps: "fetch_rules nc st = (r, st') \<Longrightarrow> acl_state st' = acl_state st"
  unfolding fetch_rules_def
  by (rule bind_state_keeps [where g = acl_state])
    (auto elim!: bind_state_keeps [where g = acl_state] dest: NetConfConnector_keeps session_Exec_keeps
      simp: panic_on_err_def split: prod.splits outcome.splits)

lemma verify_keeps_cache: "GetSteerInterface nc reg nho items st = (r, st') \<Longrightarrow> acl_state st' = acl_state st"
  unfolding GetSteerInterface_def
  by (rule bind_state_keeps [where g = acl_state])
    (auto elim!: bind_state_keeps [where g = acl_state] dest: fetch_rules_keeps)

lemma AddWanInterface_cases:
  "AddWanInterface env args h = (r, h') \<Longrightarrow> h' = h \<or> (\<exists>peer port. add_interface env (\<lambda>client.
       [OptionInterfaceUpper (arg_Upper args), OptionInterfaceLower (arg_Lower args),
        OptionInterfaceTwamp peer port, OptionInterfaceNextHop (arg_NextHop args),
        OptionInterfaceUpdateNetFlowId client]) h = (r, h'))"
  by (auto simp: AddWanInterface_def bind_state_def split: outcome.splits prod.splits)

lemma add_interface_step:
  assumes "add_interface env options h = (r, h')"
  shows "interfaces h' = interfaces h \<or> reg_step (gnmi_mgr env) (interfaces h) (interfaces h')"
  using add_interface_fields [OF assms] step_new [OF prod.collapse [symmetric]] by metis

text \<open>The registry changes by at most one operation of its own; the address of the device stays.\<close>

lemma hal_step_registry:
  assumes "hal_step env e h = (r, h')"
  shows "grpcAddr h' = grpcAddr h \<and> (interfaces h' = interfaces h \<or> reg_step (gnmi_mgr env) (interfaces h) (interfaces h'))"
proof (cases e)
  case (RtAddLan u l)
  then show ?thesis
    using assms by (auto simp: AddLanInterface_def dest: add_interface_step add_interface_others)
next
  case (RtAddWan args)
  with assms AddWanInterface_cases [of env args h r h'] show ?thesis
    by (auto dest: add_interface_step add_interface_others)
next
  case (RtDelete u)
  with assms show ?thesis by (auto simp: DeleteInterface_def intro: step_remove split: prod.splits)
next
  case (RtMonitor im)
  with assms show ?thesis by (auto simp: on_interfaces_def intro: step_monitor split: prod.splits)
next
  case (RtSpeed u)
  with assms show ?thesis by (auto simp: on_interfaces_def intro: step_speed)
next
  case (RtStats u)
  with assms show ?thesis by (auto simp: on_interfaces_def intro: step_stats)
next
  case (RtDelay u d j)
  with assms show ?thesis by (auto simp: on_interfaces_def intro: step_delay)
qed (use assms in \<open>auto simp: on_flows_def on_steering_def split: prod.splits\<close>)

lemma hal_step_cache:
  assumes "hal_step env e h = (r, h')" and "event_ok e h"
    and "cache_inv (aclRules (hal_steering h)) (accessListID (hal_steering h))"
  shows "cache_inv (aclRules (hal_steering h')) (accessListID (hal_steering h'))"
proof (cases e)
  case (RtAddLan u l)
  with assms(1,3) add_interface_others show ?thesis by (fastforce simp: AddLanInterface_def)
next
  case (RtAddWan args)
  with assms(1,3) AddWanInterface_cases [of env args h r h'] show ?thesis by (auto dest!: add_interface_others)
next
  case (RtDelete u)
  with assms(1,3) show ?thesis by (auto simp: DeleteInterface_def split: prod.splits)
next
  case (RtSteer orders items)
  then have "acl_step (device_api env) (interfaces h) (hal_steering h) (hal_steering h')"
    using assms(1,2) by (auto simp: on_steering_def intro: step_steer split: prod.splits)
  then show ?thesis by (rule acl_step_inv [OF _ assms(3)])
next
  case (RtRemoveSteer orders fks)
  then have "acl_step (device_api env) (interfaces h) (hal_steering h) (hal_steering h')"
    using assms(1,2) by (auto simp: on_steering_def intro: step_remove_steer split: prod.splits)
  then show ?thesis by (rule acl_step_inv [OF _ assms(3)])
next
  case (RtVerify nho items)
  then show ?thesis using assms(1,3)
    by (auto simp: on_steering_def acl_state_def dest!: verify_keeps_cache split: prod.splits)
qed (use assms in \<open>auto simp: on_interfaces_def on_flows_def split: prod.splits\<close>)

lemma finite_dom_GetFlows: "finite (dom (flows_aggregate (fst (GetFlows dbg thr now order v fl s))))"
  by (simp add: GetFlows_def Let_def split: prod.splits)

lemma hal_step_flows:
  assumes "hal_step env e h = (r, h')" and "finite (dom (flows_aggregate (hal_flows h)))"
  shows "finite (dom (flows_aggregate (hal_flows h')))"
proof (cases e)
  case (RtAddLan u l)
  with assms add_interface_others show ?thesis by (fastforce simp: AddLanInterface_def)
next
  case (RtAddWan args)
  with assms AddWanInterface_cases [of env args h r h'] show ?thesis by (auto dest!: add_interface_others)
next
  case (RtDelete u)
  with assms show ?thesis by (auto simp: DeleteInterface_def split: prod.splits)
qed (use assms in \<open>auto simp: on_interfaces_def on_flows_def on_steering_def finite_dom_Publish finite_dom_GetFlows
    split: prod.splits\<close>)

lemma hal_run_safe:
  "hal_run env es h = (r, h') \<Longrightarrow> registry_inv (interfaces h) \<Longrightarrow> finite (dom (flows_aggregate (hal_flows h))) \<Longrightarrow>
   registry_inv (interfaces h') \<and> finite (dom (flows_aggregate (hal_flows h')))"
proof (induction es arbitrary: h)
  case (Cons e es)
  obtain q g where g: "hal_step env e h = (q, g)" by fastforce
  have "registry_inv (interfaces g)" using hal_step_registry [OF g] reg_step_inv Cons.prems(2) by auto
  moreover have "finite (dom (flows_aggregate (hal_flows g)))" by (rule hal_step_flows [OF g Cons.prems(3)])
  ultimately show ?case using Cons g by (auto split: outcome.splits)
qed simp

lemma hal_run_cache:
  "hal_run env es h = (r, h') \<Longrightarrow> events_ok env es h \<Longrightarrow>
   cache_inv (aclRules (hal_steering h)) (accessListID (hal_steering h)) \<Longrightarrow>
   cache_inv (aclRules (hal_steering h')) (accessListID (hal_steering h'))"
proof (induction es arbitrary: h)
  case (Cons e es)
  obtain q g where g: "hal_step env e h = (q, g)" by fastforce
  have "cache_inv (aclRules (hal_steering g)) (accessListID (hal_steering g))"
    using hal_step_cache [OF g _ Cons.prems(3)] Cons.prems(2) by simp
  with Cons g show ?case by (auto split: outcome.splits)
qed simp

text \<open>
  \<^bold>\<open>C14\<close>. The invariant of the running instance. From a state with a consistent registry, a rule
  cache in which no flow has two ids and no id is to be given out again, and a finite aggregate,
  take any sequence of events of the services, the monitor, the NetFlow receiver and the client,
  in any order and with any failures among them, also one that ends the process. Then the
  registry is consistent and the aggregate finite. If moreover no single call of \<open>Steer\<close> names
  a flow twice and the rule ids stay below 2^63 (\<open>events_ok\<close>), then every cached rule id is
  non-negative and below the next one, and no flow has two ids; without this a flow can get two
  (see \<open>repeated_flow_gets_two_ids\<close>).
\<close>

theorem runtime_invariant:
  assumes "hal_run env es h = (r, h')" and "hal_inv h"
  shows "maps_sound (interfaces h') \<and> names_sound (interfaces h') \<and> finite (dom (flows_aggregate (hal_flows h'))) \<and>
    (events_ok env es h \<longrightarrow>
      (\<forall>k v. aclRules (hal_steering h') k = Some v \<longrightarrow> 0 \<le> k \<and> k < accessListID (hal_steering h')) \<and>
      (\<forall>k j v. aclRules (hal_steering h') k = Some v \<longrightarrow> aclRules (hal_steering h') j = Some v \<longrightarrow> k = j))"
proof -
  have start: "registry_inv (interfaces h)" "finite (dom (flows_aggregate (hal_flows h)))"
    "cache_inv (aclRules (hal_steering h)) (accessListID (hal_steering h))"
    using assms(2) by (simp_all add: hal_inv_def)
  have cache: "cache_inv (aclRules (hal_steering h')) (accessListID (hal_steering h'))" if "events_ok env es h"
    using hal_run_cache [OF assms(1) that start(3)] .
  have "0 \<le> k \<and> k < accessListID (hal_steering h')" if "aclRules (hal_steering h') k = Some v" "events_ok env es h" for k v
    using cache_inv_below [OF cache [OF that(2)]] that(1) by (auto simp: ids_below_def)
  with hal_run_safe [OF assms(1) start(1,2)] cache_invD [OF cache] show ?thesis unfolding registry_inv_def by blast
qed

section \<open>An interface and its keys\<close>

text \<open>
  The interface \<open>u\<close> with its lower port, NetFlow index and next hop: the maps lead to it, and no
  other registered interface has its port or its index.
\<close>

definition holds_keys :: "'m registry \<Rightarrow> string \<Rightarrow> string \<Rightarrow> u32 \<Rightarrow> ip \<Rightarrow> bool" where
  "holds_keys reg u l n a \<longleftrightarrow>
     (\<exists>r i. Upper2Interface reg u = Some r \<and> store reg r = Some i \<and> Upper i = u \<and> Lower i = l \<and> NetFlowId i = n \<and>
        IfNextHop i = a \<and> Lower2Interface reg l = Some r \<and> NetFlow2Interface reg n = Some r) \<and>
     (\<forall>v j. registered reg v = Some j \<longrightarrow> v \<noteq> u \<longrightarrow> Lower j \<noteq> l \<and> NetFlowId j \<noteq> n)"

lemma holds_keys_register:
  assumes "registry_inv reg" and "holds_keys reg u l n a"
    and "Upper2Interface reg (Upper ifc) = None" and "Lower ifc \<noteq> l" and "NetFlowId ifc \<noteq> n"
  shows "holds_keys (register_interface tm ifc reg) u l n a"
proof -
  have inv: "maps_sound reg" "store_bounded reg" using assms(1) by (simp_all add: registry_inv_def)
  from assms(2) obtain r i where r: "Upper2Interface reg u = Some r" "store reg r = Some i" "Upper i = u" "Lower i = l"
      "NetFlowId i = n" "IfNextHop i = a" "Lower2Interface reg l = Some r" "NetFlow2Interface reg n = Some r"
    by (auto simp: holds_keys_def)
  have "r \<noteq> next_ref reg" "u \<noteq> Upper ifc" using store_bounded_lt [OF inv(2) r(2)] r(1) assms(3) by auto
  then have "\<exists>r i. Upper2Interface (register_interface tm ifc reg) u = Some r \<and>
      store (register_interface tm ifc reg) r = Some i \<and> Upper i = u \<and> Lower i = l \<and> NetFlowId i = n \<and>
      IfNextHop i = a \<and> Lower2Interface (register_interface tm ifc reg) l = Some r \<and>
      NetFlow2Interface (register_interface tm ifc reg) n = Some r"
    using r assms(4,5) by (intro exI [of _ r] exI [of _ i]) auto
  with assms(2,4,5) show ?thesis by (auto simp: holds_keys_def registered_register [OF inv])
qed

lemma holds_keys_fresh:
  assumes "registry_inv reg" and "Upper2Interface reg (Upper ifc) = None" and "NetFlowId ifc \<noteq> NETFLOW_ID_INVALID"
    and "\<forall>v j. registered reg v = Some j \<longrightarrow> Lower j \<noteq> Lower ifc \<and> NetFlowId j \<noteq> NetFlowId ifc"
  shows "holds_keys (register_interface tm ifc reg) (Upper ifc) (Lower ifc) (NetFlowId ifc) (IfNextHop ifc)"
proof -
  have inv: "maps_sound reg" "store_bounded reg" using assms(1) by (simp_all add: registry_inv_def)
  show ?thesis using assms(3,4) by (auto simp: holds_keys_def registered_register [OF inv])
qed

lemma holds_keys_unregister:
  assumes "registry_inv reg" and "holds_keys reg u l n a" and "registered reg v = Some ifc" and "v \<noteq> u"
  shows "holds_keys (unregister_interface ifc reg) u l n a"
proof -
  have "Upper ifc = v" using assms(1,3) registered_Upper by (auto simp: registry_inv_def)
  moreover have "Lower ifc \<noteq> l" "NetFlowId ifc \<noteq> n" using assms(2-4) by (auto simp: holds_keys_def)
  ultimately show ?thesis using assms(2,4) by (auto simp: holds_keys_def registered_unregister)
qed

lemma holds_keys_modify:
  assumes "holds_keys reg u l n a" and "keeps_identity f"
  shows "holds_keys (modify_object r f reg) u l n a"
  using assms(1) keeps_identityD [OF assms(2)] by (auto simp: holds_keys_def registered_modify split: if_splits)

lemma holds_keys_monitor: "holds_keys (reg\<lparr>monitor := m\<rparr>) u l n a \<longleftrightarrow> holds_keys reg u l n a"
  by (simp add: holds_keys_def registered_def deref_def)

lemma holds_keys_New:
  assumes "registry_inv reg" and "holds_keys reg u l n a"
    and "\<And>ifc. apply_options ops fresh_interface = Ok ifc \<Longrightarrow> Lower ifc \<noteq> l \<and> NetFlowId ifc \<noteq> n"
  shows "holds_keys (snd (NewInterface tm ops reg)) u l n a"
  using NewInterface_cases [of ops reg tm] assms holds_keys_register [OF assms(1,2)] by (metis snd_conv)

lemma holds_keys_Remove:
  assumes "registry_inv reg" and "holds_keys reg u l n a" and "v \<noteq> u"
  shows "holds_keys (snd (RemoveInterface tm v reg)) u l n a"
  using assms(1)
proof (cases rule: RemoveInterface_cases [where u = v and tm = tm])
  case absent
  with assms(2) show ?thesis by simp
next
  case (gone ifc r m)
  with holds_keys_unregister [OF assms(1,2) gone(1) assms(3)] show ?thesis by (simp add: holds_keys_monitor)
qed

text \<open>Events that leave the keys to their interface, with the device's indices.\<close>

fun leaves_keys :: "'p gnmi_client \<Rightarrow> string \<Rightarrow> string \<Rightarrow> u32 \<Rightarrow> 'm hal_event \<Rightarrow> bool" where
  "leaves_keys client u l n (RtAddLan upper lower) = (lower \<noteq> l \<and> getDnIfIndex client lower \<noteq> Ok n)"
| "leaves_keys client u l n (RtAddWan args) = (arg_Lower args \<noteq> l \<and> getDnIfIndex client (arg_Lower args) \<noteq> Ok n)"
| "leaves_keys client u l n (RtDelete upper) = (upper \<noteq> u)"
| "leaves_keys client u l n _ = True"

lemma indexed_options:
  assumes "apply_options (OptionInterfaceUpper upper # OptionInterfaceLower lower # ops @ [OptionInterfaceUpdateNetFlowId client])
      fresh_interface = Ok ifc"
    and "ops = [] \<or> ops = [OptionInterfaceTwamp peer port, OptionInterfaceNextHop nh]"
  shows "Upper ifc = upper \<and> Lower ifc = lower \<and> getDnIfIndex client lower = Ok (NetFlowId ifc) \<and>
    (ops \<noteq> [] \<longrightarrow> IfNextHop ifc = ParseIP nh)"
  using assms by (auto simp: OptionInterfaceUpper_def OptionInterfaceLower_def OptionInterfaceTwamp_def
      OptionInterfaceNextHop_def OptionInterfaceUpdateNetFlowId_def bind_outcome_Ok_iff)

lemma hal_step_keys:
  assumes "hal_step env e h = (r, h')" and "registry_inv (interfaces h)" and "holds_keys (interfaces h) u l n a"
    and "grpc_Dial env (grpcAddr h) = Ok client" and "leaves_keys client u l n e"
  shows "holds_keys (interfaces h') u l n a"
proof -
  have add: "holds_keys (interfaces h') u l n a"
    if "add_interface env options h = (r, h')"
      and "\<And>ifc. apply_options (options client) fresh_interface = Ok ifc \<Longrightarrow> Lower ifc \<noteq> l \<and> NetFlowId ifc \<noteq> n" for options
    using add_interface_fields [OF that(1)] holds_keys_New [OF assms(2,3) that(2)] assms(3,4) by auto
  show ?thesis
  proof (cases e)
    case (RtAddLan upper lower)
    then have a: "add_interface env (\<lambda>client. [OptionInterfaceUpper upper, OptionInterfaceLower lower,
        OptionInterfaceUpdateNetFlowId client]) h = (r, h')" using assms(1) by (simp add: AddLanInterface_def)
    show ?thesis by (rule add [OF a]) (use indexed_options [of upper lower "[]" client] assms(5) RtAddLan in auto)
  next
    case (RtAddWan args)
    from RtAddWan assms(1) AddWanInterface_cases [of env args h r h'] consider "h' = h" | peer port where
      "add_interface env (\<lambda>client. [OptionInterfaceUpper (arg_Upper args), OptionInterfaceLower (arg_Lower args),
         OptionInterfaceTwamp peer port, OptionInterfaceNextHop (arg_NextHop args),
         OptionInterfaceUpdateNetFlowId client]) h = (r, h')" by auto
    then show ?thesis
    proof cases
      case 1
      with assms(3) show ?thesis by simp
    next
      case 2
      show ?thesis
        by (rule add [OF 2]) (use indexed_options [of "arg_Upper args" "arg_Lower args"
          "[OptionInterfaceTwamp peer port, OptionInterfaceNextHop (arg_NextHop args)]" client] assms(5) RtAddWan in auto)
    qed
  next
    case (RtDelete v)
    with assms(1,5) holds_keys_Remove [OF assms(2,3), of v "gnmi_mgr env"] show ?thesis
      by (auto simp: DeleteInterface_def split: prod.splits)
  next
    case (RtMonitor im)
    with assms(1,3) show ?thesis by (auto simp: on_interfaces_def startMonitor_def holds_keys_monitor split: prod.splits outcome.splits)
  qed (use assms(1,3) in \<open>auto simp: on_interfaces_def on_flows_def on_steering_def handleSpeed_def handleStats_def
    updateInterfaceDelayJitter_def keeps_identity_def intro!: holds_keys_modify split: prod.splits option.splits\<close>)
qed

lemma hal_run_keys:
  assumes "hal_run env es h = (r, h')" and "registry_inv (interfaces h)" and "holds_keys (interfaces h) u l n a"
    and "grpc_Dial env (grpcAddr h) = Ok client" and "list_all (leaves_keys client u l n) es"
  shows "registry_inv (interfaces h') \<and> holds_keys (interfaces h') u l n a"
  using assms
proof (induction es arbitrary: h)
  case (Cons e es)
  obtain q g where g: "hal_step env e h = (q, g)" by fastforce
  have "registry_inv (interfaces g) \<and> grpc_Dial env (grpcAddr g) = Ok client"
    using hal_step_registry [OF g] reg_step_inv Cons.prems(2,4) by auto
  moreover have "holds_keys (interfaces g) u l n a"
    using hal_step_keys [OF g Cons.prems(2-4)] Cons.prems(5) by simp
  ultimately show ?case using Cons g by (auto split: outcome.splits)
qed simp

section \<open>Using what was added\<close>

lemma send_all_complete:
  "(\<And>p. p \<in> set ps \<Longrightarrow> deref reg p \<noteq> None) \<Longrightarrow>
   \<exists>ms. send_all reg ps stream = (stream @ ms, Ok ()) \<and>
     (\<forall>p i. p \<in> set ps \<longrightarrow> deref reg p = Some i \<longrightarrow> \<lparr>pb_Name = Upper i, pb_Stats = Stats i\<rparr> \<in> set ms)"
proof (induction ps arbitrary: stream)
  case (Cons p ps)
  then obtain i where i: "deref reg p = Some i" by fastforce
  from Cons.IH [of "stream @ [\<lparr>pb_Name = Upper i, pb_Stats = Stats i\<rparr>]"] Cons.prems obtain ms where
    ms: "send_all reg ps (stream @ [\<lparr>pb_Name = Upper i, pb_Stats = Stats i\<rparr>]) =
      (stream @ \<lparr>pb_Name = Upper i, pb_Stats = Stats i\<rparr> # ms, Ok ())"
    "\<forall>p i. p \<in> set ps \<longrightarrow> deref reg p = Some i \<longrightarrow> \<lparr>pb_Name = Upper i, pb_Stats = Stats i\<rparr> \<in> set ms" by auto
  then show ?case using i
    by (intro exI [of _ "\<lparr>pb_Name = Upper i, pb_Stats = Stats i\<rparr> # ms"]) (auto simp: send_interface_def)
qed simp

lemma stream_has_wan:
  assumes "registry_inv (interfaces h)" and "registered (interfaces h) u = Some i" and "IsWan i"
  shows "\<lparr>pb_Name = u, pb_Stats = Stats i\<rparr> \<in> set (fst (StatsServer_GetInterfaces h))"
proof -
  let ?reg = "interfaces h"
  obtain ms where lan: "send_all ?reg (copyLanInterfaces ?reg) [] = (ms, Ok ())"
    using send_all_complete [of "copyLanInterfaces ?reg" ?reg "[]"] copies_deref [OF assms(1)] by auto
  obtain ms' where wan: "send_all ?reg (copyWanInterfaces ?reg) ms = (ms @ ms', Ok ())"
      "\<forall>p i. p \<in> set (copyWanInterfaces ?reg) \<longrightarrow> deref ?reg p = Some i \<longrightarrow> \<lparr>pb_Name = Upper i, pb_Stats = Stats i\<rparr> \<in> set ms'"
    using send_all_complete [of "copyWanInterfaces ?reg" ?reg ms] copies_deref [OF assms(1)] by auto
  have "u \<in> set (WanSorted ?reg)"
    using registry_inv_names [OF assms(1)] assms(2,3) by (auto simp: names_sound_def)
  then have "Upper2Interface ?reg u \<in> set (copyWanInterfaces ?reg)" by (simp add: copyWanInterfaces_def)
  moreover have "Upper i = u" using assms(1,2) registered_Upper by (auto simp: registry_inv_def)
  ultimately show ?thesis using lan wan assms(2) by (auto simp: StatsServer_GetInterfaces_def Let_def registered_def)
qed

text \<open>
  \<^bold>\<open>C13\<close>. What is added is used, end to end. After a successful \<open>AddWanInterface\<close> with a next hop
  and a port and index no other interface has, and whatever happens to the instance afterwards
  short of deleting that interface or adding another on its port or with its index (on a shared
  port the removal of one interface cuts off the other, see \<open>shared_lower_lost\<close>): steering to its name
  uses the next hop that was given, NetFlow messages with the device's index of its port are
  labelled with its name, a telemetry update for its port finds its object, and the statistics
  stream reports it with its telemetry.
\<close>

theorem added_interface_serves:
  assumes "AddWanInterface env args h = (Ok (), h1)" and "registry_inv (interfaces h)"
    and "grpc_Dial env (grpcAddr h) = Ok client" and "getDnIfIndex client (arg_Lower args) = Ok n"
    and "n \<noteq> NETFLOW_ID_INVALID" and "arg_Upper args \<noteq> []"
    and "\<forall>v j. registered (interfaces h) v = Some j \<longrightarrow> Lower j \<noteq> arg_Lower args \<and> NetFlowId j \<noteq> n"
    and "IsWan (fresh_interface\<lparr>IfNextHop := ParseIP (arg_NextHop args)\<rparr>)"
    and "hal_run env es h1 = (r, h2)" and "list_all (leaves_keys client (arg_Upper args) (arg_Lower args) n) es"
  shows "item_nexthop (interfaces h2) (arg_Upper args) = Ok (ParseIP (arg_NextHop args)) \<and>
    if_label (netflow_lookup (interfaces h2)) n = arg_Upper args \<and>
    (\<exists>i. registered (interfaces h2) (arg_Upper args) = Some i \<and>
       deref (interfaces h2) (findInterfaceByLower (interfaces h2) (arg_Lower args)) = Some i \<and>
       \<lparr>pb_Name = arg_Upper args, pb_Stats = Stats i\<rparr> \<in> set (fst (StatsServer_GetInterfaces h2)))"
proof -
  let ?u = "arg_Upper args" and ?l = "arg_Lower args" and ?a = "ParseIP (arg_NextHop args)" and ?reg = "interfaces h2"
  obtain peer port where add: "add_interface env (\<lambda>client. [OptionInterfaceUpper ?u, OptionInterfaceLower ?l,
      OptionInterfaceTwamp peer port, OptionInterfaceNextHop (arg_NextHop args), OptionInterfaceUpdateNetFlowId client]) h =
      (Ok (), h1)" by (rule AddWanInterface_Ok [OF assms(1)])
  let ?ops = "[OptionInterfaceUpper ?u, OptionInterfaceLower ?l, OptionInterfaceTwamp peer port,
      OptionInterfaceNextHop (arg_NextHop args), OptionInterfaceUpdateNetFlowId client]"
  obtain q where new: "NewInterface (gnmi_mgr env) ?ops (interfaces h) = (Ok q, interfaces h1)"
    using add assms(3) by (auto simp: add_interface_def bind_outcome_Ok_iff split: prod.splits)
  obtain ifc where ifc: "apply_options ?ops fresh_interface = Ok ifc" "Upper2Interface (interfaces h) (Upper ifc) = None"
      "interfaces h1 = register_interface (gnmi_mgr env) ifc (interfaces h)"
    using NewInterface_cases [of ?ops "interfaces h" "gnmi_mgr env"] new by (metis is_ok.simps(1) prod.inject)
  have fields: "Upper ifc = ?u \<and> Lower ifc = ?l \<and> NetFlowId ifc = n \<and> IfNextHop ifc = ?a"
    using indexed_options [of ?u ?l "[OptionInterfaceTwamp peer port, OptionInterfaceNextHop (arg_NextHop args)]"
      client ifc peer port] ifc(1) assms(4) by simp
  have "holds_keys (interfaces h1) ?u ?l n ?a"
    using holds_keys_fresh [OF assms(2) ifc(2)] assms(5,7) fields ifc(3) by metis
  moreover have "registry_inv (interfaces h1)" using registry_inv_register [OF assms(2) ifc(2)] ifc(3) by simp
  moreover have "grpc_Dial env (grpcAddr h1) = Ok client" using add_interface_others [OF add] assms(3) by simp
  ultimately have inv: "registry_inv ?reg" and keys: "holds_keys ?reg ?u ?l n ?a"
    using hal_run_keys [OF assms(9)] assms(10) by blast+
  then obtain i where i: "registered ?reg ?u = Some i" "IfNextHop i = ?a" "Upper i = ?u"
      "deref ?reg (findInterfaceByLower ?reg ?l) = Some i" "netflow_lookup ?reg n = Some i"
    by (auto simp: holds_keys_def registered_def deref_def findInterfaceByLower_def findInterfaceByNetFlowId_def netflow_lookup_def)
  have "IsWan i" using assms(8) i(2) by (auto simp: IsWan_def split: if_splits)
  with i(1) have "deref ?reg (findInterfaceByNextHop ?reg ?u) = Some i" using find_by_nexthop [OF inv] by blast
  with i stream_has_wan [OF inv i(1) \<open>IsWan i\<close>] assms(6) show ?thesis by (simp add: item_nexthop_def if_label_def)
qed

definition halo_day :: "string list hal_event list" where
  "halo_day = [RtAddLan ''lan0'' ''ge0'', RtPublish [demo_msg 1 500 2], RtSpeed \<lparr>IfuName = ''ge1'', IfuStats = zero_telemetry\<rparr>,
     RtDelete ''other'', RtGetFlows 5 []]"

lemma halo_add: "\<exists>h1. AddWanInterface (halo_env []) halo1_args halo_running = (Ok (), h1)"
  by (simp add: AddWanInterface_def bind_state_def halo1_args_def parse_twamp_examples add_interface_def
      halo_env_def halo_running_def NewInterface_def OptionInterfaceUpper_def OptionInterfaceLower_def
      OptionInterfaceTwamp_def OptionInterfaceNextHop_def OptionInterfaceUpdateNetFlowId_def halo_index)

lemma halo_running_inv: "registry_inv (interfaces halo_running)" "hal_inv halo_running"
  by (simp_all add: hal_inv_def halo_running_def halo_start_def registry_inv_reset fresh_process_def cache_inv_def
      ids_below_def InitFlows_def)

text \<open>A day that begins with a flow being steered and removed again.\<close>

definition plain_item :: SteerItem where
  "plain_item = \<lparr>Rule = web_flow 1, NextHop = []\<rparr>"

definition steer_day :: "string list hal_event list" where
  "steer_day = [RtSteer (\<lambda>_. []) [plain_item], RtRemoveSteer (\<lambda>_. [10]) [web_flow 1], RtAddWan halo1_args] @ halo_day"

lemma steer_day_ok: "events_ok (halo_env []) steer_day halo_running"
proof -
  have device: "\<exists>q. fst (Exec (reply_device []) d x) = Inr q" for d x by (simp add: reply_device_def)
  have "list_all2 (\<lambda>it nh. item_nexthop (interfaces halo_running) (NextHop it) = Ok nh \<and> length nh \<in> {0, 4, 16}) [plain_item] [[]]"
    by (simp add: plain_item_def item_nexthop_def)
  from Steer_accepts [where orders = "\<lambda>_. []", OF device fresh_process_fields(3) list.distinct(2) this] obtain st where
    st: "Steer (reply_device []) (interfaces halo_running) (\<lambda>_. []) [plain_item] fresh_process = (Ok (), st)" by blast
  have "aclRules st = [10 \<mapsto> AsKey (web_flow 1)]"
    using Steer_one [OF st] by (simp add: find_key_def item_key_def plain_item_def)
  moreover have "device_api (halo_env []) = reply_device []" by (simp add: halo_env_def)
  moreover have "hal_steering halo_running = fresh_process" by (simp add: halo_running_def halo_start_def)
  ultimately show ?thesis using st
    by (simp add: steer_day_def halo_day_def on_steering_def batch_ok_def range_order_def)
qed

theorem runtime_invariant_witness:
  "\<exists>r h'. hal_run (halo_env []) steer_day halo_running = (r, h') \<and> maps_sound (interfaces h') \<and>
     finite (dom (flows_aggregate (hal_flows h'))) \<and> inj_on (aclRules (hal_steering h')) (dom (aclRules (hal_steering h')))"
proof -
  obtain r h' where run: "hal_run (halo_env []) steer_day halo_running = (r, h')" by fastforce
  from runtime_invariant [OF run halo_running_inv(2)] steer_day_ok run show ?thesis
    by (auto simp: inj_on_def dom_def)
qed

theorem added_interface_serves_witness:
  "\<exists>r h2. hal_run (halo_env []) (RtAddWan halo1_args # halo_day) halo_running = (r, h2) \<and>
     item_nexthop (interfaces h2) ''halo1'' = Ok (IPv4 10 0 0 1) \<and> if_label (netflow_lookup (interfaces h2)) 2 = ''halo1''"
proof -
  obtain h1 where h1: "AddWanInterface (halo_env []) halo1_args halo_running = (Ok (), h1)" using halo_add by blast
  obtain r h2 where run: "hal_run (halo_env []) halo_day h1 = (r, h2)" by fastforce
  have dial: "grpc_Dial (halo_env []) (grpcAddr halo_running) = Ok halo_client" by (simp add: halo_env_def)
  have idx: "getDnIfIndex halo_client (arg_Lower halo1_args) = Ok 2" "arg_Upper halo1_args \<noteq> []"
    by (simp_all add: halo_index halo1_args_def)
  have free: "\<forall>v j. registered (interfaces halo_running) v = Some j \<longrightarrow> Lower j \<noteq> arg_Lower halo1_args \<and> NetFlowId j \<noteq> 2"
    by (simp add: halo_running_def registered_def deref_def)
  have wan: "IsWan (fresh_interface\<lparr>IfNextHop := ParseIP (arg_NextHop halo1_args)\<rparr>)"
    by (simp add: halo1_args_def IsWan_def IP_Equal_To4 IPv4zero_def)
  have leaves: "list_all (leaves_keys halo_client (arg_Upper halo1_args) (arg_Lower halo1_args) 2) halo_day"
    by (simp add: halo_day_def halo1_args_def halo_index)
  have "(2 :: u32) \<noteq> NETFLOW_ID_INVALID" by (simp add: NETFLOW_ID_INVALID_def)
  from added_interface_serves [OF h1 halo_running_inv(1) dial idx(1) this idx(2) free wan run leaves] run h1
  show ?thesis by (simp add: halo1_args_def)
qed

end
