(* ===== verification/ConfigLog.thy ===== *)
theory ConfigLog
  imports HalFacts
begin

text \<open>
  The rest of \<open>pkg/hal/config.go\<close>: the defaults \<open>LoadConfig\<close> gives to the configuration library,
  and the log of the configuration that every start writes.
\<close>

section \<open>Defaults\<close>

definition DEFAULT_FLOW_THRESHOLD :: u64 where
  "DEFAULT_FLOW_THRESHOLD = 100000"

text \<open>The number 1, as a \<open>float64\<close>.\<close>

definition one_second :: f64 where
  "one_second = F64 0x3FF0000000000000"

definition config_defaults :: "HalCfg \<Rightarrow> HalCfg" where
  "config_defaults c = c\<lparr>IfcSamplingInterval := one_second, FlowThreshold := DEFAULT_FLOW_THRESHOLD,
     SkipTwamp := True, Debug := False, FlushSteer := True, StatsServer := True,
     Netconf := \<lparr>User = ''dnroot'', Password = ''dnroot''\<rparr>\<rparr>"

text \<open>Without a file the library unmarshals the defaults and nothing else.\<close>

definition no_config_file :: "config_source \<Rightarrow> bool" where
  "no_config_file src \<longleftrightarrow> ReadInConfig src \<noteq> None \<and> (\<forall>c. viper_Unmarshal src c = config_defaults c)"

text \<open>
  So an instance that may start without a file runs with the defaults and the address of the
  environment: its rules are flushed and its server starts, unless the options of the command say
  otherwise.
\<close>

lemma LoadConfig_without_file:
  assumes "no_config_file src"
  shows "LoadConfig src True c = Panic e \<longleftrightarrow> ReadInConfig src = Some e"
    and "\<exists>c'. LoadConfig src False c = Ok c' \<and> FlushSteer c' \<and> StatsServer c' \<and> SkipTwamp c' \<and>
      FlowThreshold c' = DEFAULT_FLOW_THRESHOLD \<and> Netconf c' = \<lparr>User = ''dnroot'', Password = ''dnroot''\<rparr> \<and>
      DnosAddr c' = (case env_DNOS_ADDR src of Some a \<Rightarrow> a | None \<Rightarrow> [])"
  using assms by (auto simp: no_config_file_def LoadConfig_def Let_def config_defaults_def WorkaroundViperDictDotKeyIssue_def)

section \<open>The log\<close>

text \<open>
  The lines \<open>LogConfig\<close> writes, at the level that is on by default. \<open>show_f64\<close> prints a \<open>float64\<close>;
  the orders are those of the ranges over the topology maps.
\<close>

definition show_bool :: "bool \<Rightarrow> string" where
  "show_bool b = (if b then ''true'' else ''false'')"

definition log_interface :: "InterfaceCfg \<Rightarrow> string list" where
  "log_interface ifc =
     [''  interface:'', ''    upper:'' @ CfgUpper ifc, ''    lower:'' @ CfgLower ifc,
      ''    hwAddr:'' @ HwAddr ifc, ''    ipv4Addr:'' @ Ipv4Addr ifc]"

definition log_pair :: "(string \<rightharpoonup> string) \<Rightarrow> string \<Rightarrow> string" where
  "log_pair m key = ''    '' @ key @ '': '' @ key_or_empty m key"

definition log_twamp :: "(string \<rightharpoonup> TwampCfg) \<Rightarrow> string \<Rightarrow> string list" where
  "log_twamp m key =
     (case m key of
        None \<Rightarrow> []
      | Some t \<Rightarrow> [''    '' @ key @ '':'', ''      host: '' @ TwampHost t, ''      port: '' @ utoa (unat (TwampCfgPort t))])"

definition LogConfig :: "(f64 \<Rightarrow> string) \<Rightarrow> map_orders \<Rightarrow> HalCfg \<Rightarrow> string list" where
  "LogConfig show_f64 ord c =
     [''HAL-API configuration'', ''======================'',
      ''netconf user: '' @ User (Netconf c), ''netconf password: '' @ Password (Netconf c),
      ''dnos addr: '' @ DnosAddr c, ''local interface: '' @ LocalIfname c,
      ''sampling interval: '' @ show_f64 (IfcSamplingInterval c),
      ''flow threshold: '' @ utoa (unat (FlowThreshold c)),
      ''skip twamp: '' @ show_bool (SkipTwamp c), ''debug: '' @ show_bool (Debug c),
      ''lan: '', ''  upper:'' @ CfgUpper (Lan c), ''  lower:'' @ CfgLower (Lan c),
      ''  hwAddr:'' @ HwAddr (Lan c), ''  ipv4Addr:'' @ Ipv4Addr (Lan c), ''wan: ''] @
     concat (map log_interface (Wan c)) @ [''topo: '', ''  nextHop:''] @
     map (log_pair (TopoNextHop (Topo c))) (nh_order ord) @ [''  twamp:''] @
     concat (map (log_twamp (TopoTwamp (Topo c))) (twamp_order ord)) @ [''  peer:''] @
     map (log_pair (TopoPeer (Topo c))) (peer_order ord) @ [[]]"

text \<open>The log tells two configurations with different credentials apart: it holds the password as it is.\<close>

lemma password_is_logged:
  "LogConfig show_f64 ord c = LogConfig show_f64 ord' c' \<Longrightarrow> Netconf c = Netconf c'"
  by (cases "Netconf c"; cases "Netconf c'") (simp add: LogConfig_def)

end
