(* ===== verification/ClientFlags.thy ===== *)
theory ClientFlags
  imports ClientProps Runtime ConfigLog
begin

text \<open>
  The command line of the client tool (\<open>cmd/client/main.go\<close>, \<open>main\<close>): the tree of commands, the
  flags of each with their short forms, defaults and requirements, and how the values the flag
  library reads become what a command works with. The library is a parameter.
\<close>

section \<open>Flags\<close>

datatype flag_value = FString string | FBool bool | FFloat f64 | FUint u64 | FInt int

record flag =
  flag_name :: string
  flag_short :: char
  flag_default :: flag_value
  flag_required :: bool

definition opt_flag :: "string \<Rightarrow> char \<Rightarrow> flag_value \<Rightarrow> flag" where
  "opt_flag name short v = \<lparr>flag_name = name, flag_short = short, flag_default = v, flag_required = False\<rparr>"

definition req_flag :: "string \<Rightarrow> char \<Rightarrow> flag_value \<Rightarrow> flag" where
  "req_flag name short v = \<lparr>flag_name = name, flag_short = short, flag_default = v, flag_required = True\<rparr>"

definition monitor_flags :: "flag list" where
  "monitor_flags =
     [opt_flag ''flows'' CHR ''f'' (FBool False), opt_flag ''interfaces'' CHR ''i'' (FBool False),
      opt_flag ''interval'' CHR ''t'' (FFloat one_second), opt_flag ''notw'' CHR ''w'' (FBool False),
      opt_flag ''nocls'' CHR ''c'' (FBool False), opt_flag ''server'' CHR ''s'' (FBool False),
      opt_flag ''threshold'' CHR ''l'' (FUint DEFAULT_FLOW_THRESHOLD)]"

definition steer_flag_table :: "flag list" where
  "steer_flag_table =
     [opt_flag ''from'' CHR ''f'' (FString []), opt_flag ''to'' CHR ''t'' (FString []),
      opt_flag ''proto'' CHR ''p'' (FString ''tcp''), opt_flag ''next-hop'' CHR ''n'' (FString [])]"

definition batch_flag_table :: "flag list" where
  "batch_flag_table =
     [opt_flag ''flows'' CHR ''f'' (FBool False), opt_flag ''interfaces'' CHR ''i'' (FBool False),
      opt_flag ''interval'' CHR ''t'' (FFloat one_second), opt_flag ''notw'' CHR ''w'' (FBool False),
      opt_flag ''count'' CHR ''c'' (FInt 1), opt_flag ''accumulate'' CHR ''a'' (FBool False),
      opt_flag ''threshold'' CHR ''l'' (FUint DEFAULT_FLOW_THRESHOLD)]"

definition tunnel_add_flags :: "flag list" where
  "tunnel_add_flags =
     [req_flag ''name'' CHR ''n'' (FString []), opt_flag ''type'' CHR ''t'' (FString ''vxlan''),
      req_flag ''source'' CHR ''s'' (FString []), req_flag ''destination'' CHR ''d'' (FString []),
      req_flag ''halo'' CHR ''i'' (FString [])]"

definition tunnel_delete_flags :: "flag list" where
  "tunnel_delete_flags = [req_flag ''name'' CHR ''n'' (FString []), opt_flag ''type'' CHR ''t'' (FString ''vxlan'')]"

definition add_wan_flags :: "flag list" where
  "add_wan_flags =
     [req_flag ''upper'' CHR ''u'' (FString []), req_flag ''lower'' CHR ''l'' (FString []),
      req_flag ''next-hop'' CHR ''n'' (FString []), req_flag ''twamp'' CHR ''t'' (FString [])]"

definition add_lan_flags :: "flag list" where
  "add_lan_flags = [req_flag ''upper'' CHR ''u'' (FString []), req_flag ''lower'' CHR ''l'' (FString [])]"

definition delete_interface_flags :: "flag list" where
  "delete_interface_flags = [req_flag ''name'' CHR ''n'' (FString [])]"

section \<open>The tree of commands\<close>

datatype cli_action =
    CliGroup | CliCommand command | CliAddWan | CliAddLan | CliDelete

datatype cli = Cli (cli_use: string) (cli_action: cli_action) (cli_flags: "flag list") (cli_kids: "cli list")

definition tunnel_cli :: cli where
  "tunnel_cli = Cli ''tunnel'' CliGroup []
     [Cli ''add'' (CliCommand TunnelAdd) tunnel_add_flags [],
      Cli ''delete'' (CliCommand TunnelDelete) tunnel_delete_flags []]"

definition interface_cli :: cli where
  "interface_cli = Cli ''interface'' CliGroup []
     [Cli ''add'' CliGroup []
        [Cli ''wan'' CliAddWan add_wan_flags [], Cli ''lan'' CliAddLan add_lan_flags []],
      Cli ''delete'' CliDelete delete_interface_flags []]"

definition root_cli :: cli where
  "root_cli = Cli ''hal-client'' CliGroup []
     [Cli ''monitor'' (CliCommand Monitor) monitor_flags [],
      Cli ''flush'' (CliCommand Flush) [] [],
      Cli ''steer'' (CliCommand Steering) steer_flag_table [],
      Cli ''batch'' (CliCommand Batch_cmd) batch_flag_table [],
      tunnel_cli, interface_cli]"

text \<open>The command a path of names leads to.\<close>

fun find_cli :: "cli \<Rightarrow> string list \<Rightarrow> cli option" where
  "find_cli c [] = Some c"
| "find_cli c (n # ns) =
     (case List.find (\<lambda>k. cli_use k = n) (cli_kids c) of None \<Rightarrow> None | Some k \<Rightarrow> find_cli k ns)"

section \<open>Reading the flags\<close>

text \<open>
  The library panics when a command declares two flags with one name or one short form, or takes
  those of its own help flag.
\<close>

definition flags_sound :: "flag list \<Rightarrow> bool" where
  "flags_sound fs \<longleftrightarrow> distinct (''help'' # map flag_name fs) \<and> distinct (CHR ''h'' # map flag_short fs) \<and>
     list_all (\<lambda>f. flag_required f \<longrightarrow> flag_default f = FString []) fs"

text \<open>
  What the library's documentation promises of reading a list of flags, each given by its long
  or short name with its value: an unknown name or a missing required flag is an error; every
  flag of the command then has the last value given for it, or its default.
\<close>

datatype flag_ref = Long string | Short char

fun refers :: "flag_ref \<Rightarrow> flag \<Rightarrow> bool" where
  "refers (Long n) f = (flag_name f = n)"
| "refers (Short c) f = (flag_short f = c)"

fun same_kind :: "flag_value \<Rightarrow> flag_value \<Rightarrow> bool" where
  "same_kind (FString _) (FString _) = True"
| "same_kind (FBool _) (FBool _) = True"
| "same_kind (FFloat _) (FFloat _) = True"
| "same_kind (FUint _) (FUint _) = True"
| "same_kind (FInt _) (FInt _) = True"
| "same_kind _ _ = False"

type_synonym flag_args = "(flag_ref \<times> flag_value) list"
type_synonym flag_reader = "flag list \<Rightarrow> flag_args \<Rightarrow> (string \<Rightarrow> flag_value) outcome"

definition given :: "flag_args \<Rightarrow> flag \<Rightarrow> flag_value list" where
  "given args f = map snd (filter (\<lambda>(a, v). refers a f) args)"

definition well_given :: "flag list \<Rightarrow> flag_args \<Rightarrow> bool" where
  "well_given fs args \<longleftrightarrow>
     list_all (\<lambda>(a, v). list_ex (\<lambda>f. refers a f \<and> same_kind v (flag_default f)) fs) args \<and>
     list_all (\<lambda>f. flag_required f \<longrightarrow> given args f \<noteq> []) fs"

definition flag_result :: "flag_args \<Rightarrow> flag \<Rightarrow> flag_value" where
  "flag_result args f = last (flag_default f # given args f)"

definition reads_flags :: "flag_reader \<Rightarrow> bool" where
  "reads_flags parse \<longleftrightarrow> (\<forall>fs args. flags_sound fs \<longrightarrow>
     (well_given fs args \<longrightarrow> (\<exists>vals. parse fs args = Ok vals \<and> (\<forall>f\<in>set fs. vals (flag_name f) = flag_result args f))) \<and>
     (\<not> well_given fs args \<longrightarrow> (\<exists>e. parse fs args = Err e)))"

text \<open>The variables the flags are bound to.\<close>

fun string_of_flag :: "flag_value \<Rightarrow> string" where
  "string_of_flag (FString s) = s"
| "string_of_flag _ = []"

fun bool_of_flag :: "flag_value \<Rightarrow> bool" where
  "bool_of_flag (FBool b) = b"
| "bool_of_flag _ = False"

fun uint_of_flag :: "flag_value \<Rightarrow> u64" where
  "uint_of_flag (FUint n) = n"
| "uint_of_flag _ = 0"

fun int_of_flag :: "flag_value \<Rightarrow> int" where
  "int_of_flag (FInt n) = n"
| "int_of_flag _ = 0"

fun float_of_flag :: "flag_value \<Rightarrow> f64" where
  "float_of_flag (FFloat x) = x"
| "float_of_flag _ = zero_f64"

definition steer_opts_of :: "(string \<Rightarrow> flag_value) \<Rightarrow> steer_opts" where
  "steer_opts_of v = \<lparr>steerFromOpt = string_of_flag (v ''from''), steerToOpt = string_of_flag (v ''to''),
     steerProtoOpt = string_of_flag (v ''proto''), steerNextHopOpt = string_of_flag (v ''next-hop'')\<rparr>"

definition tunnel_opts_of :: "(string \<Rightarrow> flag_value) \<Rightarrow> tunnel_opts" where
  "tunnel_opts_of v = \<lparr>tunNameOpt = string_of_flag (v ''name''), tunTypeOpt = string_of_flag (v ''type''),
     tunSrcOpt = string_of_flag (v ''source''), tunDstOpt = string_of_flag (v ''destination''),
     tunHaloIfcOpt = string_of_flag (v ''halo'')\<rparr>"

definition interface_opts_of :: "(string \<Rightarrow> flag_value) \<Rightarrow> interface_opts" where
  "interface_opts_of v = \<lparr>ifcUpperOpt = string_of_flag (v ''upper''), ifcLowerOpt = string_of_flag (v ''lower''),
     ifcNextHopOpt = string_of_flag (v ''next-hop''), ifcTwampOpt = string_of_flag (v ''twamp''),
     ifcNameOpt = string_of_flag (v ''name'')\<rparr>"

text \<open>\<open>fmt_interval\<close> is \<open>FormatFloat\<close> with three decimals.\<close>

definition client_opts_of :: "(f64 \<Rightarrow> string) \<Rightarrow> (string \<Rightarrow> flag_value) \<Rightarrow> client_opts" where
  "client_opts_of fmt_interval v =
     \<lparr>batch_flags = \<lparr>monFlowsOpt = bool_of_flag (v ''flows''), monIfcOpt = bool_of_flag (v ''interfaces''),
        countOpt = int_of_flag (v ''count''), accOpt = bool_of_flag (v ''accumulate'')\<rparr>,
      steer_flags = steer_opts_of v, tunnel_flags = tunnel_opts_of v, serverOpt = bool_of_flag (v ''server''),
      noTwampOpt = bool_of_flag (v ''notw''), monIntervalText = fmt_interval (float_of_flag (v ''interval'')),
      flowThreshold = uint_of_flag (v ''threshold'')\<rparr>"

section \<open>Running a command line\<close>

text \<open>The commands that call the management service, and those that end by themselves on an instance.\<close>

definition mgmt_command ::
    "flag_reader \<Rightarrow> (mgmt_request \<Rightarrow> 's \<Rightarrow> unit outcome \<times> 's) \<Rightarrow> string list \<Rightarrow> flag_args \<Rightarrow> 's \<Rightarrow> unit outcome \<times> 's" where
  "mgmt_command parse call path args s =
     (case find_cli root_cli path of
        None \<Rightarrow> (Err ''unknown command'', s)
      | Some c \<Rightarrow> bind_state (\<lambda>s. (parse (cli_flags c) args, s)) (\<lambda>v.
          case cli_action c of
            CliAddWan \<Rightarrow> handleInterfaceAddWan call (interface_opts_of v)
          | CliAddLan \<Rightarrow> handleInterfaceAddLan call (interface_opts_of v)
          | CliDelete \<Rightarrow> handleInterfaceDelete call (interface_opts_of v)
          | _ \<Rightarrow> (\<lambda>s. (Ok (), s))) s)"

definition hal_command ::
    "flag_reader \<Rightarrow> (f64 \<Rightarrow> string) \<Rightarrow> ('p, 'm, 'd) hal_env \<Rightarrow> range_orders \<Rightarrow> string list \<Rightarrow> flag_args \<Rightarrow> ('m, 'd) hal \<Rightarrow>
     unit outcome \<times> ('m, 'd) hal" where
  "hal_command parse fmt env ro path args h =
     (case find_cli root_cli path of
        None \<Rightarrow> (Err ''unknown command'', h)
      | Some c \<Rightarrow> bind_state (\<lambda>h. (parse (cli_flags c) args, h)) (\<lambda>v.
          case cli_action c of
            CliCommand Steering \<Rightarrow> client_steer env ro (client_opts_of fmt v)
          | CliCommand Flush \<Rightarrow> client_flush env (client_opts_of fmt v)
          | CliCommand TunnelAdd \<Rightarrow> client_tunnel_add env (client_opts_of fmt v)
          | CliCommand TunnelDelete \<Rightarrow> client_tunnel_delete env (client_opts_of fmt v)
          | _ \<Rightarrow> (\<lambda>h. (Ok (), h))) h)"

section \<open>The tables\<close>

fun cli_sound :: "cli \<Rightarrow> bool" where
  "cli_sound (Cli u a fs ks) \<longleftrightarrow> flags_sound fs \<and> distinct (map cli_use ks) \<and> list_all cli_sound ks"

lemmas flag_tables = monitor_flags_def steer_flag_table_def batch_flag_table_def tunnel_add_flags_def
  tunnel_delete_flags_def add_wan_flags_def add_lan_flags_def delete_interface_flags_def opt_flag_def req_flag_def

lemma add_wan_flags_sound: "flags_sound add_wan_flags"
  by (simp add: flags_sound_def flag_tables)

lemma root_cli_sound: "cli_sound root_cli"
  by (simp add: root_cli_def tunnel_cli_def interface_cli_def flags_sound_def flag_tables)

lemma find_interface_commands:
  "map_option (\<lambda>c. (cli_action c, cli_flags c)) (find_cli root_cli [''interface'', ''add'', ''wan'']) = Some (CliAddWan, add_wan_flags)"
  "map_option (\<lambda>c. (cli_action c, cli_flags c)) (find_cli root_cli [''interface'', ''add'', ''lan'']) = Some (CliAddLan, add_lan_flags)"
  "map_option (\<lambda>c. (cli_action c, cli_flags c)) (find_cli root_cli [''interface'', ''delete'']) = Some (CliDelete, delete_interface_flags)"
  "map_option (\<lambda>c. (cli_action c, cli_flags c)) (find_cli root_cli [''steer'']) = Some (CliCommand Steering, steer_flag_table)"
  by (simp_all add: root_cli_def tunnel_cli_def interface_cli_def)

lemma interface_commands:
  "mgmt_command parse call [''interface'', ''add'', ''wan''] args =
     bind_state (\<lambda>s. (parse add_wan_flags args, s)) (\<lambda>v. handleInterfaceAddWan call (interface_opts_of v))"
  "mgmt_command parse call [''interface'', ''delete''] args =
     bind_state (\<lambda>s. (parse delete_interface_flags args, s)) (\<lambda>v. handleInterfaceDelete call (interface_opts_of v))"
  by (simp_all add: fun_eq_iff mgmt_command_def root_cli_def tunnel_cli_def interface_cli_def)

lemma parse_refused:
  assumes "reads_flags parse" and "flags_sound fs" and "\<not> well_given fs args"
  shows "\<exists>e. bind_state (\<lambda>s. (parse fs args, s)) f s = (Err e, s)"
proof -
  obtain e where "parse fs args = Err e" using assms unfolding reads_flags_def by blast
  then show ?thesis by (simp add: bind_state_def)
qed

lemma parse_accepted:
  assumes "reads_flags parse" and "flags_sound fs" and "well_given fs args"
  obtains vals where "parse fs args = Ok vals" and "\<And>f. f \<in> set fs \<Longrightarrow> vals (flag_name f) = flag_result args f"
  using assms unfolding reads_flags_def by blast

text \<open>The value of a required flag that is given.\<close>

definition flag_says :: "flag_args \<Rightarrow> flag list \<Rightarrow> string \<Rightarrow> string \<Rightarrow> bool" where
  "flag_says args fs name v \<longleftrightarrow> list_ex (\<lambda>f. flag_name f = name \<and> flag_result args f = FString v) fs"

lemma flag_saysD:
  assumes "flag_says args fs name v" and "\<And>f. f \<in> set fs \<Longrightarrow> vals (flag_name f) = flag_result args f"
  shows "string_of_flag (vals name) = v"
  using assms by (auto simp: flag_says_def list_ex_iff)

lemma AddWanInterface_registered:
  assumes "AddWanInterface env args h = (Ok (), h')" and "registry_inv (interfaces h)"
  shows "registered (interfaces h) (arg_Upper args) = None \<and> (\<exists>i. registered (interfaces h') (arg_Upper args) = Some i \<and>
    Lower i = arg_Lower args \<and> IfNextHop i = ParseIP (arg_NextHop args) \<and>
    parseTwampAddr (arg_Twamp args) = Ok (TwampPeer i, TwampPort i))"
proof -
  obtain peer port where p: "parseTwampAddr (arg_Twamp args) = Ok (peer, port)"
    and add: "add_interface env (\<lambda>client.
       [OptionInterfaceUpper (arg_Upper args), OptionInterfaceLower (arg_Lower args),
        OptionInterfaceTwamp peer port, OptionInterfaceNextHop (arg_NextHop args),
        OptionInterfaceUpdateNetFlowId client]) h = (Ok (), h')"
    by (rule AddWanInterface_Ok [OF assms(1)])
  obtain client ifc where dial: "grpc_Dial env (grpcAddr h) = Ok client" and ops: "apply_options [OptionInterfaceUpper (arg_Upper args), OptionInterfaceLower (arg_Lower args),
        OptionInterfaceTwamp peer port, OptionInterfaceNextHop (arg_NextHop args),
        OptionInterfaceUpdateNetFlowId client] fresh_interface = Ok ifc"
    and free: "registered (interfaces h) (Upper ifc) = None" and inv: "registry_inv (interfaces h')"
    and reg: "\<And>u. registered (interfaces h') u = (if u = Upper ifc then Some ifc else registered (interfaces h) u)"
    by (rule add_interface_Ok [OF add assms(2)]) blast
  have "Upper ifc = arg_Upper args \<and> Lower ifc = arg_Lower args \<and> IfNextHop ifc = ParseIP (arg_NextHop args) \<and>
      TwampPeer ifc = peer \<and> TwampPort ifc = port"
    using ops by (auto simp: OptionInterfaceUpper_def OptionInterfaceLower_def OptionInterfaceTwamp_def
        OptionInterfaceNextHop_def OptionInterfaceUpdateNetFlowId_def bind_outcome_Ok_iff)
  with p free reg show ?thesis by auto
qed

section \<open>From the command line to the registry\<close>

text \<open>
  \<^bold>\<open>C20\<close>. \<open>hal-client interface add wan\<close> from its flags to the registry of the instance that serves
  it. Without one of the four required flags, or with a flag the command does not have, it ends with
  an error and the instance does not change. Otherwise, when it reports no error, the values were
  not empty, the name was free, and the instance has an interface of that name with the port, the
  next hop and the parsed TWAMP endpoint of the flags, in whatever order and form they were given.
\<close>

theorem wan_command_registers:
  assumes "reads_flags parse" and "registry_inv (interfaces h)"
    and "mgmt_command parse (serve env) [''interface'', ''add'', ''wan''] args h = (r, h')"
  shows "(\<not> well_given add_wan_flags args \<longrightarrow> \<not> is_ok r \<and> h' = h) \<and>
    (r = Ok () \<longrightarrow> (\<forall>u l n t. flag_says args add_wan_flags ''upper'' u \<and> flag_says args add_wan_flags ''lower'' l \<and>
       flag_says args add_wan_flags ''next-hop'' n \<and> flag_says args add_wan_flags ''twamp'' t \<longrightarrow>
       u \<noteq> [] \<and> l \<noteq> [] \<and> n \<noteq> [] \<and> registered (interfaces h) u = None \<and>
       (\<exists>i. registered (interfaces h') u = Some i \<and> Lower i = l \<and> IfNextHop i = ParseIP n \<and>
          parseTwampAddr t = Ok (TwampPeer i, TwampPort i))))"
proof -
  have refused: "\<not> is_ok r \<and> h' = h" if no: "\<not> well_given add_wan_flags args"
  proof -
    obtain e where "mgmt_command parse (serve env) [''interface'', ''add'', ''wan''] args h = (Err e, h)"
      unfolding interface_commands
      using parse_refused [OF assms(1) add_wan_flags_sound no, of "\<lambda>v. handleInterfaceAddWan (serve env) (interface_opts_of v)" h]
      by blast
    with assms(3) show ?thesis by auto
  qed
  have "u \<noteq> [] \<and> l \<noteq> [] \<and> n \<noteq> [] \<and> registered (interfaces h) u = None \<and>
      (\<exists>i. registered (interfaces h') u = Some i \<and> Lower i = l \<and> IfNextHop i = ParseIP n \<and>
         parseTwampAddr t = Ok (TwampPeer i, TwampPort i))"
    if ok: "r = Ok ()" and says: "flag_says args add_wan_flags ''upper'' u" "flag_says args add_wan_flags ''lower'' l"
      "flag_says args add_wan_flags ''next-hop'' n" "flag_says args add_wan_flags ''twamp'' t" for u l n t
  proof -
    have "well_given add_wan_flags args" using refused ok by auto
    then obtain vals where vals: "parse add_wan_flags args = Ok vals"
        "\<And>f. f \<in> set add_wan_flags \<Longrightarrow> vals (flag_name f) = flag_result args f"
      using parse_accepted [OF assms(1) add_wan_flags_sound] by blast
    note v = says [THEN flag_saysD, OF vals(2)]
    have "handleInterfaceAddWan (serve env) (interface_opts_of vals) h = (Ok (), h')"
      using assms(3) ok vals(1) by (simp add: interface_commands bind_state_def)
    then have "u \<noteq> []" "l \<noteq> []" "n \<noteq> []"
      and add: "AddWanInterface env \<lparr>arg_Upper = u, arg_Lower = l, arg_NextHop = n, arg_Twamp = t\<rparr> h = (Ok (), h')"
      using v by (auto simp: handleInterfaceAddWan_def interface_opts_of_def mgmt_call_def
          split: if_splits outcome.splits prod.splits)
    with AddWanInterface_registered [OF add assms(2)] show ?thesis by simp
  qed
  with refused show ?thesis by blast
qed

text \<open>A reader that does just what is promised, and a command line in mixed forms and order.\<close>

definition plain_reader :: flag_reader where
  "plain_reader fs args =
     (if well_given fs args
      then Ok (\<lambda>n. case List.find (\<lambda>f. flag_name f = n) fs of None \<Rightarrow> FString [] | Some f \<Rightarrow> flag_result args f)
      else Err ''usage'')"

lemma plain_reader_reads: "reads_flags plain_reader"
proof -
  have "List.find (\<lambda>g. flag_name g = flag_name f) fs = Some f" if "flags_sound fs" "f \<in> set fs" for f :: flag and fs
  proof -
    have "distinct (map flag_name fs)" using that(1) by (simp add: flags_sound_def)
    with that(2) show ?thesis by (induction fs) (auto simp: image_iff)
  qed
  then show ?thesis by (simp add: reads_flags_def plain_reader_def)
qed

definition wan_line :: flag_args where
  "wan_line = [(Short CHR ''t'', FString ''10.0.0.1:900''), (Long ''lower'', FString ''ge1''),
     (Short CHR ''u'', FString ''halo1''), (Long ''next-hop'', FString ''10.0.0.1'')]"

lemma wan_line_facts: "well_given add_wan_flags wan_line"
  "flag_says wan_line add_wan_flags ''upper'' ''halo1''" "flag_says wan_line add_wan_flags ''lower'' ''ge1''"
  "flag_says wan_line add_wan_flags ''next-hop'' ''10.0.0.1''" "flag_says wan_line add_wan_flags ''twamp'' ''10.0.0.1:900''"
  by (simp_all add: wan_line_def well_given_def given_def flag_says_def flag_result_def flag_tables)

theorem wan_command_registers_witness:
  "\<exists>h' i. mgmt_command plain_reader (serve (halo_env [])) [''interface'', ''add'', ''wan''] wan_line halo_running = (Ok (), h') \<and>
     registered (interfaces h') ''halo1'' = Some i \<and> Lower i = ''ge1'' \<and> TwampPort i = 900"
proof -
  obtain h1 where h1: "AddWanInterface (halo_env []) halo1_args halo_running = (Ok (), h1)" using halo_add by blast
  obtain vals where vals: "plain_reader add_wan_flags wan_line = Ok vals"
      "\<And>f. f \<in> set add_wan_flags \<Longrightarrow> vals (flag_name f) = flag_result wan_line f"
    using parse_accepted [OF plain_reader_reads add_wan_flags_sound wan_line_facts(1)] by blast
  note v = wan_line_facts(2-5) [THEN flag_saysD, OF vals(2)]
  have "mgmt_command plain_reader (serve (halo_env [])) [''interface'', ''add'', ''wan''] wan_line halo_running = (Ok (), h1)"
    using vals(1) v h1 by (simp add: interface_commands bind_state_def handleInterfaceAddWan_def interface_opts_of_def
        mgmt_call_def halo1_args_def)
  note run = this
  from wan_command_registers [OF plain_reader_reads halo_running_inv(1) run] wan_line_facts(2-5) obtain i where
    "registered (interfaces h1) ''halo1'' = Some i" "Lower i = ''ge1''"
    "parseTwampAddr ''10.0.0.1:900'' = Ok (TwampPeer i, TwampPort i)" by blast
  with run show ?thesis by (auto simp: parse_twamp_examples)
qed

text \<open>The steer command does not require its flags: without a source it starts an instance and ends.\<close>

lemma steer_without_source:
  "vals ''from'' = FString [] \<Longrightarrow> handleSteer env ro (steer_opts_of vals) h = (Ok (), h)"
  by (simp add: handleSteer_def steer_opts_of_def)

end
