(* ===== verification/Connections.thy ===== *)
theory Connections
  imports HalMonitor HalInit
begin

text \<open>
  The connections an instance makes to the outside: the credentials and the subscription manager
  of the interface monitor (\<open>pkg/hal/gnmi.go\<close>), the first steps of \<open>monitorInterfaces\<close>, the server
  of the two services and the cached management client (\<open>pkg/hal/hal.go\<close>). What the libraries
  make of their arguments is a parameter.
\<close>

section \<open>The interface monitor\<close>

definition NewDnCredentials :: "HalCfg \<Rightarrow> DnCredentials" where
  "NewDnCredentials c = \<lparr>cred_user = User (Netconf c), cred_password = Password (Netconf c)\<rparr>"

record target =
  tgt_Addresses :: "string list"
  tgt_Username :: string
  tgt_Password :: string

record 'c manager_config =
  mc_Credentials :: DnCredentials
  mc_ConnectionManager :: "'c option"
  mc_Timeout :: i64

record ('c, 'm) manager_library =
  connection_NewManager :: "'c outcome"
  manager_NewManager :: "'c manager_config \<Rightarrow> 'm outcome"

definition second :: i64 where
  "second = 1000000000"

definition NETCONF_DIAL_TIMEOUT :: i64 where
  "NETCONF_DIAL_TIMEOUT = 10"

definition manager_cfg :: "HalCfg \<Rightarrow> 'c option \<Rightarrow> 'c manager_config" where
  "manager_cfg c con = \<lparr>mc_Credentials = NewDnCredentials c, mc_ConnectionManager = con,
     mc_Timeout = NETCONF_DIAL_TIMEOUT * second\<rparr>"

definition monitor_target :: "HalCfg \<Rightarrow> string \<Rightarrow> target" where
  "monitor_target c addr = \<lparr>tgt_Addresses = [addr], tgt_Username = cred_user (NewDnCredentials c),
     tgt_Password = cred_password (NewDnCredentials c)\<rparr>"

text \<open>An error of the connection manager is only logged: the manager is then made without one.\<close>

definition NewInterfaceMonitor ::
    "('c, 'm) manager_library \<Rightarrow> HalCfg \<Rightarrow> string \<Rightarrow> i64 \<Rightarrow> ('m InterfaceMonitor \<times> target) outcome" where
  "NewInterfaceMonitor lib c addr upd =
     (let con = (case connection_NewManager lib of Ok m \<Rightarrow> Some m | _ \<Rightarrow> None)
      in bind_outcome (manager_NewManager lib (manager_cfg c con)) (\<lambda>m.
           Ok (\<lparr>im_UpdateInterval = upd, im_Manager = m\<rparr>, monitor_target c addr)))"

text \<open>The goroutine up to its loop: every failure is a fatal log.\<close>

definition fatal_err :: "string \<Rightarrow> 'a outcome \<Rightarrow> 'a outcome" where
  "fatal_err msg r = (case r of Err e \<Rightarrow> Fatal (msg @ e) | _ \<Rightarrow> r)"

definition open_monitor ::
    "('p, 'm, 'd) hal_env \<Rightarrow> ('c, 'm) manager_library \<Rightarrow> ('m, 'd) hal \<Rightarrow> unit outcome \<times> ('m, 'd) hal" where
  "open_monitor env lib h =
     bind_state (\<lambda>h. (fatal_err ''Failed to connect: '' (grpc_Dial env (grpcAddr h)), h)) (\<lambda>client.
     bind_state (\<lambda>h. (fatal_err ''Failed to start. Reason: ''
         (NewInterfaceMonitor lib (config h) (grpcAddr h) (UpdateInterval h)), h)) (\<lambda>(im, target) h.
       (case startMonitor (gnmi_mgr env) im (interfaces h) of (r, reg) \<Rightarrow> (r, h\<lparr>interfaces := reg\<rparr>)))) h"

section \<open>What is made is used\<close>

text \<open>
  The manager asks the credentials for the password of the target's user and gets the configured
  one; it gets none for another user.
\<close>

lemma monitor_credentials:
  "Credentials_Lookup (mc_Credentials (manager_cfg c con)) (tgt_Username (monitor_target c addr)) =
     Ok (tgt_Password (monitor_target c addr))"
  "u \<noteq> tgt_Username (monitor_target c addr) \<Longrightarrow>
   \<not> is_ok (Credentials_Lookup (mc_Credentials (manager_cfg c con)) u)"
  by (simp_all add: Credentials_Lookup_def manager_cfg_def monitor_target_def)

lemma Monitor_Add_interval: "im_UpdateInterval (Monitor_Add tm m l) = im_UpdateInterval m"
  by (simp add: Monitor_Add_def Let_def split: prod.splits)

lemma subscribe_all_interval: "subscribe_all tm r ps m = Ok m' \<Longrightarrow> im_UpdateInterval m' = im_UpdateInterval m"
  by (induction ps arbitrary: m) (auto simp: Monitor_Add_interval split: option.splits)

lemma open_monitor_Ok:
  assumes "open_monitor env lib h = (Ok (), h')" and "registry_inv (interfaces h)"
  shows "\<exists>im. monitor (interfaces h') = Some im \<and> im_UpdateInterval im = UpdateInterval h \<and>
    registry_inv (interfaces h') \<and> Upper2Interface (interfaces h') = Upper2Interface (interfaces h)"
proof -
  from assms(1) obtain im t where im: "NewInterfaceMonitor lib (config h) (grpcAddr h) (UpdateInterval h) = Ok (im, t)"
    and run: "(case startMonitor (gnmi_mgr env) im (interfaces h) of (r, reg) \<Rightarrow> (r, h\<lparr>interfaces := reg\<rparr>)) = (Ok (), h')"
    unfolding open_monitor_def bind_state_Ok fatal_err_def by (auto split: outcome.splits)
  then have s: "startMonitor (gnmi_mgr env) im (interfaces h) = (Ok (), interfaces h')"
    by (cases "startMonitor (gnmi_mgr env) im (interfaces h)") auto
  obtain im' where sub: "subscribe_all (gnmi_mgr env) (interfaces h)
      (copyLanInterfaces (interfaces h) @ copyWanInterfaces (interfaces h)) im = Ok im'"
    and reg: "interfaces h' = (interfaces h)\<lparr>monitor := Some im'\<rparr>"
    using s by (auto simp: startMonitor_def split: outcome.splits)
  have "im_UpdateInterval im' = im_UpdateInterval im" by (rule subscribe_all_interval [OF sub])
  with im have "im_UpdateInterval im' = UpdateInterval h"
    by (auto simp: NewInterfaceMonitor_def bind_outcome_Ok_iff)
  with reg registry_inv_startMonitor [OF assms(2) s] show ?thesis by simp
qed

section \<open>Serving\<close>

text \<open>The services of the server, or none when the port cannot be listened on, which is only logged.\<close>

datatype service = StatsService | ManagementService

definition statsServer :: "(string \<Rightarrow> string \<Rightarrow> unit outcome) \<Rightarrow> service list" where
  "statsServer net_Listen =
     (case net_Listen ''tcp'' ''0.0.0.0:7732'' of Ok _ \<Rightarrow> [StatsService, ManagementService] | _ \<Rightarrow> [])"

text \<open>The receiver of NetFlow messages ends the process when it cannot run.\<close>

definition monitorFlows :: "(int \<Rightarrow> string \<Rightarrow> int \<Rightarrow> bool \<Rightarrow> string option) \<Rightarrow> unit outcome" where
  "monitorFlows FlowRoutine =
     (case FlowRoutine 1 ''0.0.0.0'' 2055 True of
        None \<Rightarrow> Ok ()
      | Some err \<Rightarrow> Fatal (''Fatal error: could not monitor flows ('' @ err @ '')''))"

section \<open>The management client\<close>

text \<open>The connection and the client over it are global; a dial gives a connection or an error.\<close>

record 'c mgmt_client =
  grpcConn :: "'c option"
  mgmtClient :: "'c option option"

definition GetMgmtClient :: "(string \<Rightarrow> string + 'c) \<Rightarrow> string \<Rightarrow> 'c mgmt_client \<Rightarrow> 'c option option \<times> 'c mgmt_client" where
  "GetMgmtClient dial dnosAddr st =
     (if grpcConn st = None
      then (let c = (case dial (dnosAddr @ '':7732'') of Inl err \<Rightarrow> None | Inr c \<Rightarrow> Some c);
                st' = st\<lparr>grpcConn := c, mgmtClient := Some c\<rparr>
            in (mgmtClient st', st'))
      else (mgmtClient st, st))"

text \<open>
  A connection that was made is kept, whatever the address is later; a failed dial gives a client
  without a connection, and the next call dials again.
\<close>

lemma GetMgmtClient_keeps:
  assumes "GetMgmtClient dial a st = (c, st')" and "grpcConn st' = Some conn"
  shows "GetMgmtClient dial' b st' = (mgmtClient st', st')"
  using assms by (simp add: GetMgmtClient_def)

lemma GetMgmtClient_retries:
  assumes "grpcConn st = None" and "dial (a @ '':7732'') = Inl err"
  shows "\<exists>st'. GetMgmtClient dial a st = (Some None, st') \<and> grpcConn st' = None"
  using assms by (simp add: GetMgmtClient_def Let_def)

end
