(* ===== verification/SiEnvironment.thy ===== *)
theory SiEnvironment
  imports Steering
begin

text \<open>
  Adding environment entries to a service instance (\<open>AddSiEnvironment\<close> in \<open>pkg/hal/hal.go\<close>). The
  request is the text of a template; a template is kept as its parts, and a field the data does
  not have prints as the template library prints a missing key.
\<close>

section \<open>Templates\<close>

datatype template_part = Text string | Field string

primrec render_part :: "(string \<rightharpoonup> string) \<Rightarrow> template_part \<Rightarrow> string" where
  "render_part data (Text s) = s"
| "render_part data (Field f) = (case data f of Some v \<Rightarrow> v | None \<Rightarrow> ''<no value>'')"

definition render :: "(string \<rightharpoonup> string) \<Rightarrow> template_part list \<Rightarrow> string" where
  "render data tpl = concat (map (render_part data) tpl)"

fun text_lines :: "string list \<Rightarrow> string" where
  "text_lines [] = []"
| "text_lines [l] = l"
| "text_lines (l # ls) = l @ CHR 0x0A # text_lines ls"

definition tabs :: "nat \<Rightarrow> string" where
  "tabs n = replicate n CHR 0x09"

definition xmlns :: "string \<Rightarrow> string" where
  "xmlns p = '' xmlns:'' @ p @ ''='' @ CHR 0x22 # ''http://drivenets.com/ns/yang/'' @ p @ [CHR 0x22]"

definition siEnvironmentAddXml :: "template_part list" where
  "siEnvironmentAddXml =
     [Text (text_lines
       [[],
        ''<edit-config>'',
        ''  <target><candidate/></target>'',
        ''  <default-operation>merge</default-operation>'',
        ''  <error-option>rollback-on-error</error-option>'',
        ''  <config'' @ xmlns ''dn-hyper-instances'' @ xmlns ''dn-top'' @ xmlns ''dn-hyper-service-instances'' @ ''>'',
        ''    <dn-top:drivenets-top>'',
        ''      <dn-hyper-service-instances:service-instances>'',
        ''        <dn-hyper-instances:instances>'',
        ''          <instance>'',
        tabs 3 @ ''<si-name>'']),
      Field ''name'',
      Text (text_lines
       [''</si-name>'',
        ''            <config-items>'',
        ''              <environments>'',
        ''                <environment>'',
        ''                  <entry>'']),
      Field ''entry'',
      Text (text_lines
       [''</entry>'',
        ''                </environment>'',
        ''              </environments>'',
        ''            </config-items>'',
        ''          </instance>'',
        ''        </dn-hyper-instances:instances>'',
        ''      </dn-hyper-service-instances:service-instances>'',
        ''    </dn-top:drivenets-top>'',
        ''  </config>'',
        ''</edit-config>''])]"

section \<open>The requests\<close>

definition MethodSiEnvironmentAdd :: "string \<Rightarrow> string \<Rightarrow> string" where
  "MethodSiEnvironmentAdd name entry = render [''name'' \<mapsto> name] siEnvironmentAddXml"

text \<open>\<open>exec\<close> sends a text to the device; an error comes with what there is of a reply, as printed.\<close>

fun send_entries ::
    "('d \<Rightarrow> string \<Rightarrow> ((string \<times> string) + string) \<times> 'd) \<Rightarrow> string \<Rightarrow> string list \<Rightarrow> 'd steering \<Rightarrow> unit outcome \<times> 'd steering" where
  "send_entries exec name [] st = (Ok (), st)"
| "send_entries exec name (entry # env) st =
     (case exec (device st) (MethodSiEnvironmentAdd name entry) of
        (Inl (reply, err), d) \<Rightarrow> (Err (''reply: '' @ reply @ '', error: '' @ err), st\<lparr>device := d\<rparr>)
      | (Inr reply, d) \<Rightarrow> send_entries exec name env (st\<lparr>device := d\<rparr>))"

definition AddSiEnvironment ::
    "'d netconf \<Rightarrow> ('d \<Rightarrow> string \<Rightarrow> ((string \<times> string) + string) \<times> 'd) \<Rightarrow> string \<Rightarrow> string list \<Rightarrow> 'd steering \<Rightarrow>
     unit outcome \<times> 'd steering" where
  "AddSiEnvironment nc exec name env = bind_state (NetConfConnector nc) (\<lambda>_. send_entries exec name env)"

section \<open>No entry is ever sent\<close>

text \<open>The template would tell entries apart, if it were given them.\<close>

lemma template_tells_entries:
  "render [''name'' \<mapsto> n, ''entry'' \<mapsto> e] siEnvironmentAddXml = render [''name'' \<mapsto> n, ''entry'' \<mapsto> e'] siEnvironmentAddXml \<longleftrightarrow>
   e = e'"
  by (simp add: render_def siEnvironmentAddXml_def)

text \<open>But two lists of as many entries are the same to every device, in its replies and in its state.\<close>

lemma entries_never_sent:
  assumes "length env = length env'"
  shows "AddSiEnvironment nc exec name env st = AddSiEnvironment nc exec name env' st"
proof -
  have "send_entries exec name env st = send_entries exec name env' st" for st
    using assms
    by (induction env env' arbitrary: st rule: list_induct2)
      (auto simp: MethodSiEnvironmentAdd_def split: prod.splits sum.splits)
  then have "send_entries exec name env = send_entries exec name env'" by (rule ext)
  then show ?thesis by (simp add: AddSiEnvironment_def)
qed

end
