(* ===== verification/Mock.thy ===== *)
theory Mock
  imports SteerProps FlowProps
begin

text \<open>
  The mock instance (\<open>pkg/hal/mock.go\<close>) with its canned data, the tests that run on it
  (\<open>pkg/hal/hal_test.go\<close>), and the contract of the visitors that it shares with the real instance.
  What it prints is left out; the orders of the ranges over its maps are arguments.
\<close>

section \<open>The contract of a visit\<close>

text \<open>A visitor sees the entries one after another until it returns an error, which is passed on.\<close>

fun visit_entries :: "('s \<Rightarrow> 'k \<Rightarrow> 't \<Rightarrow> string option \<times> 's) \<Rightarrow> ('k \<times> 't) list \<Rightarrow> 's \<Rightarrow> unit outcome \<times> 's" where
  "visit_entries v [] s = (Ok (), s)"
| "visit_entries v ((k, t) # es) s =
     (case v s k t of (None, s') \<Rightarrow> visit_entries v es s' | (Some e, s') \<Rightarrow> (Err e, s'))"

locale visited =
  fixes valid :: "'a \<Rightarrow> bool" and entries :: "'a \<Rightarrow> ('k \<times> 't) list"
    and visit :: "'a \<Rightarrow> ('s \<Rightarrow> 'k \<Rightarrow> 't \<Rightarrow> string option \<times> 's) \<Rightarrow> 's \<Rightarrow> unit outcome \<times> 's"
  assumes visit_law: "valid a \<Longrightarrow> visit a v s = visit_entries v (entries a) s"
begin

lemma visits_all:
  assumes "valid a" and "\<And>s k t. v s k t = (None, f s k t)"
  shows "visit a v s = (Ok (), foldl (\<lambda>s (k, t). f s k t) s (entries a))"
proof -
  have "visit_entries v es s = (Ok (), foldl (\<lambda>s (k, t). f s k t) s es)" for es s
    by (induction es arbitrary: s) (auto simp: assms(2))
  then show ?thesis by (simp add: visit_law [OF assms(1)])
qed

lemma visit_stops:
  assumes "valid a" and "entries a = es @ (k, t) # rest" and "visit_entries v es s = (Ok (), s')"
    and "v s' k t = (Some e, s'')"
  shows "visit a v s = (Err e, s'')"
proof -
  have "visit_entries v (es @ (k, t) # rest) s = (Err e, s'')"
    using assms(3,4) by (induction es arbitrary: s) (auto split: prod.splits option.splits)
  then show ?thesis by (simp add: visit_law [OF assms(1)] assms(2))
qed

end

text \<open>The real instance satisfies it for its interfaces, LAN first, each kind in the order of names.\<close>

definition registry_entries :: "'m registry \<Rightarrow> (string \<times> InterfaceTelemetry) list" where
  "registry_entries reg = map (\<lambda>i. (Upper i, Stats i))
     (List.map_filter (deref reg) (copyLanInterfaces reg @ copyWanInterfaces reg))"

lemma visit_interfaces_entries:
  "(\<And>p. p \<in> set ps \<Longrightarrow> deref reg p \<noteq> None) \<Longrightarrow>
   visit_interfaces reg v ps s = visit_entries v (map (\<lambda>i. (Upper i, Stats i)) (List.map_filter (deref reg) ps)) s"
proof (induction ps arbitrary: s)
  case (Cons p ps)
  then obtain i where "deref reg p = Some i" by fastforce
  with Cons show ?case by (auto simp: List.map_filter_simps split: option.splits prod.splits)
qed (simp add: List.map_filter_simps)

lemma visit_entries_append:
  "visit_entries v (xs @ ys) s =
   (case visit_entries v xs s of (Ok _, s') \<Rightarrow> visit_entries v ys s' | (r, s') \<Rightarrow> (r, s'))"
  by (induction xs arbitrary: s) (auto split: prod.splits option.splits)

lemma map_filter_append: "List.map_filter f (xs @ ys) = List.map_filter f xs @ List.map_filter f ys"
  by (induction xs) (simp_all add: List.map_filter_simps split: option.splits)

interpretation instance_visit: visited registry_inv registry_entries GetInterfaces
proof unfold_locales
  fix reg :: "'m registry" and v :: "'s InterfaceVisitor" and s :: 's
  assume inv: "registry_inv reg"
  let ?es = "\<lambda>ps. map (\<lambda>i. (Upper i, Stats i)) (List.map_filter (deref reg) ps)"
  have lan: "GetLanInterfaces reg v s = visit_entries v (?es (copyLanInterfaces reg)) s"
    unfolding GetLanInterfaces_def using copies_deref [OF inv] by (intro visit_interfaces_entries) auto
  have wan: "GetWanInterfaces reg v s = visit_entries v (?es (copyWanInterfaces reg)) s" for s
    unfolding GetWanInterfaces_def using copies_deref [OF inv] by (intro visit_interfaces_entries) auto
  have "registry_entries reg = ?es (copyLanInterfaces reg) @ ?es (copyWanInterfaces reg)"
    by (simp add: registry_entries_def map_filter_append)
  then show "GetInterfaces reg v s = visit_entries v (registry_entries reg) s"
    by (simp only: visit_entries_append GetInterfaces_def lan wan)
qed

section \<open>The mock\<close>

record mock =
  mock_initialized :: bool

definition mock_Init :: "mock \<Rightarrow> mock" where
  "mock_Init m = m\<lparr>mock_initialized := True\<rparr>"

definition NewDnHalMock :: "mock \<Rightarrow> mock" where
  "NewDnHalMock m = (if \<not> mock_initialized m then mock_Init m else m)"

definition mock_Steer :: "SteerItem list \<Rightarrow> mock \<Rightarrow> unit outcome \<times> mock" where
  "mock_Steer rules m = (Ok (), m)"

definition mock_RemoveSteer :: "FlowKey list \<Rightarrow> mock \<Rightarrow> unit outcome \<times> mock" where
  "mock_RemoveSteer fks m = (Ok (), m)"

definition mock_GetSteerInterface :: "SteerItem list \<Rightarrow> mock \<Rightarrow> (bool \<times> string list) outcome \<times> mock" where
  "mock_GetSteerInterface rules m = (Ok (True, [[]]), m)"

text \<open>The four delays are the doubles nearest to 30.84, 6.57, 20.91 and 8.22.\<close>

definition itl :: "string \<rightharpoonup> InterfaceTelemetry" where
  "itl =
     [''halo1'' \<mapsto> \<lparr>Speed = 10, RxBytes = 1000, RxBps = 100, TxBytes = 2000, TxBps = 200,
        LinkDelay = F64 0x403ED70A3D70A3D7, LinkJitter = F64 0x401A47AE147AE148\<rparr>,
      ''halo2'' \<mapsto> \<lparr>Speed = 11, RxBytes = 1100, RxBps = 110, TxBytes = 2100, TxBps = 210,
        LinkDelay = F64 0x4034E8F5C28F5C29, LinkJitter = F64 0x402070A3D70A3D71\<rparr>]"

text \<open>The map of flows is keyed by pointers, here the two flows in the order of the source.\<close>

definition ftl :: "(FlowKey \<times> FlowTelemetry) list" where
  "ftl =
     [(\<lparr>Protocol = TCP, SrcAddr = ParseIP ''10.10.0.2'', DstAddr = ParseIP ''10.11.0.2'', SrcPort = 8081, DstPort = 8082\<rparr>,
       \<lparr>RxRatePps = 100, TxRatePps = 200, RxRateBps = 1000, TxRateBps = 1000,
        RxTotalPkts = 1000, TxTotalPkts = 2000, RxTotalBytes = 10000, TxTotalBytes = 20000,
        IngressIf = ''halo1'', EgressIf = ''halo2''\<rparr>),
      (\<lparr>Protocol = TCP, SrcAddr = ParseIP ''10.10.0.3'', DstAddr = ParseIP ''10.11.0.3'', SrcPort = 8181, DstPort = 8182\<rparr>,
       \<lparr>RxRatePps = 110, TxRatePps = 210, RxRateBps = 1100, TxRateBps = 1100,
        RxTotalPkts = 1100, TxTotalPkts = 2100, RxTotalBytes = 11000, TxTotalBytes = 21000,
        IngressIf = ''halo2'', EgressIf = ''halo1''\<rparr>)]"

definition mock_entries :: "string list \<Rightarrow> (string \<times> InterfaceTelemetry) list" where
  "mock_entries order = List.map_filter (\<lambda>n. map_option (Pair n) (itl n)) order"

definition mock_GetInterfaces :: "string list \<Rightarrow> 's InterfaceVisitor \<Rightarrow> 's \<Rightarrow> unit outcome \<times> 's" where
  "mock_GetInterfaces order v s = visit_entries v (mock_entries order) s"

text \<open>\<open>order\<close> is a list of positions of the two flows.\<close>

definition mock_GetFlows :: "nat list \<Rightarrow> 's FlowVisitor \<Rightarrow> 's \<Rightarrow> unit outcome \<times> 's" where
  "mock_GetFlows order v s = visit_entries v (map (\<lambda>i. ftl ! i) order) s"

definition not_implemented :: "mock \<Rightarrow> 'a outcome \<times> mock" where
  "not_implemented m = (Panic ''NOT IMPLEMENTED'', m)"

interpretation mock_visit: visited "\<lambda>_. True" mock_entries mock_GetInterfaces
  by unfold_locales (simp add: mock_GetInterfaces_def)

section \<open>The tests\<close>

definition count_visitor :: "nat \<Rightarrow> 'k \<Rightarrow> 't \<Rightarrow> string option \<times> nat" where
  "count_visitor n k t = (None, Suc n)"

lemma foldl_count: "foldl (\<lambda>n (k, t). Suc n) n es = n + length es"
  by (induction es arbitrary: n) auto

lemma TestSteer: "fst (mock_Steer si (NewDnHalMock m)) = Ok ()"
  by (simp add: mock_Steer_def)

lemma TestGetInterfaces:
  assumes "range_order itl order"
  shows "mock_GetInterfaces order count_visitor 0 = (Ok (), 2)"
proof -
  have d: "set order = {''halo1'', ''halo2''}" "distinct order" using assms by (auto simp: range_order_def itl_def)
  then have "length order = 2" using distinct_card [of order] by simp
  moreover have "length (mock_entries order) = length order"
    using d by (auto simp: mock_entries_def List.map_filter_def itl_def intro!: arg_cong [where f = length] filter_True)
  ultimately show ?thesis
    by (simp add: mock_visit.visits_all [where f = "\<lambda>n k t. Suc n"] count_visitor_def foldl_count)
qed

lemma TestGetFlows:
  assumes "distinct order" and "set order = {0, 1}"
  shows "mock_GetFlows order count_visitor 0 = (Ok (), 2)"
proof -
  have "length order = 2" using assms distinct_card [of order] by simp
  moreover have "visit_entries count_visitor es n = (Ok (), n + length es)" for es :: "(FlowKey \<times> FlowTelemetry) list" and n
    by (induction es arbitrary: n) (auto simp: count_visitor_def)
  ultimately show ?thesis by (simp add: mock_GetFlows_def)
qed

text \<open>The same visitor on the real instance counts its registered interfaces.\<close>

lemma instance_counts:
  "registry_inv reg \<Longrightarrow> GetInterfaces reg count_visitor 0 = (Ok (), length (registry_entries reg))"
  by (simp add: instance_visit.visits_all [where f = "\<lambda>n k t. Suc n"] count_visitor_def foldl_count)

section \<open>Where the mock differs\<close>

text \<open>
  The real \<open>GetFlows\<close> drops the error of its visitor and goes on; the mock returns it and stops.
  And the mock confirms every rule with one empty interface, however many there are.
\<close>

lemma mock_flows_pass_errors:
  assumes "order = i # is" and "\<And>s k t. v s k t = (Some e, s)"
  shows "mock_GetFlows order v s = (Err e, s)"
  using assms by (cases "ftl ! i") (simp add: mock_GetFlows_def)

lemma mock_confirms_anything: "fst (mock_GetSteerInterface rules m) = Ok (True, [[]])"
  by (simp add: mock_GetSteerInterface_def)

end
