(* ===== verification/Viewer.thy ===== *)
theory Viewer
  imports StatsProps
begin

text \<open>
  The main function of the statistics viewer (\<open>cmd/stats/main.go\<close>): three hosts, each polled by a
  goroutine of its own, three groups of charts, and the loop that draws them at every tick of a
  timer until a key ends it. The terminal library is left out: a frame is the titles, charts and
  places handed to it.
\<close>

section \<open>The parts of the screen\<close>

record ScreenRect =
  x1 :: int
  y1 :: int
  x2 :: int
  y2 :: int

definition rect :: "int \<Rightarrow> int \<Rightarrow> int \<Rightarrow> int \<Rightarrow> ScreenRect" where
  "rect a b c d = \<lparr>x1 = a, y1 = b, x2 = c, y2 = d\<rparr>"

type_synonym widget = "(string \<times> Sparkline list) \<times> ScreenRect"

definition viewer_hosts :: "string \<rightharpoonup> HostStats" where
  "viewer_hosts =
     [''halo-a'' \<mapsto> NewHostStats ''halo-a'' (HostStatsUrl ''192.168.50.36''),
      ''halo-b'' \<mapsto> NewHostStats ''halo-b'' (HostStatsUrl ''192.168.50.45''),
      ''halo-c'' \<mapsto> NewHostStats ''halo-c'' (HostStatsUrl ''192.168.50.27'')]"

text \<open>A host missing from the map would be a nil pointer.\<close>

definition host_widget ::
    "(string \<rightharpoonup> HostStats) \<Rightarrow> (HostStats \<Rightarrow> string \<times> Sparkline list) \<Rightarrow> string \<Rightarrow> ScreenRect \<Rightarrow> widget outcome" where
  "host_widget hosts mk name r =
     (case hosts name of None \<Rightarrow> Panic ''nil pointer'' | Some h \<Rightarrow> Ok (mk h, r))"

definition viewer_frame :: "chart_opts \<Rightarrow> (string \<rightharpoonup> HostStats) \<Rightarrow> widget list outcome" where
  "viewer_frame co hosts =
     bind_outcome (host_widget hosts (MakeNodeAWidget co) ''halo-a'' (rect 0 0 50 22)) (\<lambda>a.
     bind_outcome (host_widget hosts (MakeNodeBWidget co) ''halo-b'' (rect 52 0 102 18)) (\<lambda>b.
     bind_outcome (host_widget hosts (MakeNodeCWidget co) ''halo-c'' (rect 104 0 154 22)) (\<lambda>c.
       Ok [a, b, c])))"

section \<open>The loop\<close>

text \<open>
  An event is a tick, a key, or a finished round of the goroutine that polls a host; a round that
  does not finish leaves the host as it is.
\<close>

datatype viewer_event = Tick | Key string | Round string host_env "string list"

definition quits :: "string \<Rightarrow> bool" where
  "quits key \<longleftrightarrow> key = ''q'' \<or> key = ''<C-c>''"

definition host_Close :: "HostStats \<Rightarrow> string list" where
  "host_Close h = (if host_conn h then [host_url h] else [])"

text \<open>The connections that are closed, in the order of the range over the hosts.\<close>

definition cleanup :: "string list \<Rightarrow> (string \<rightharpoonup> HostStats) \<Rightarrow> string list" where
  "cleanup order hosts = concat (map (\<lambda>n. case hosts n of None \<Rightarrow> [] | Some h \<Rightarrow> host_Close h) order)"

definition host_round ::
    "(u64 \<Rightarrow> f64) \<Rightarrow> string \<Rightarrow> host_env \<Rightarrow> string list \<Rightarrow> (string \<rightharpoonup> HostStats) \<Rightarrow> (string \<rightharpoonup> HostStats) outcome" where
  "host_round to_f64 name env order hosts =
     (case hosts name of
        None \<Rightarrow> Ok hosts
      | Some h \<Rightarrow>
          (case update_round to_f64 env order h of
             None \<Rightarrow> Ok hosts
           | Some r \<Rightarrow> bind_outcome r (\<lambda>h'. Ok (hosts(name \<mapsto> h')))))"

text \<open>The frames drawn, the hosts, and the connections closed at the end, if it has come.\<close>

fun viewer_loop ::
    "(u64 \<Rightarrow> f64) \<Rightarrow> chart_opts \<Rightarrow> string list \<Rightarrow> viewer_event list \<Rightarrow> (string \<rightharpoonup> HostStats) \<Rightarrow>
     (widget list list \<times> (string \<rightharpoonup> HostStats) \<times> string list option) outcome" where
  "viewer_loop to_f64 co closing [] hosts = Ok ([], hosts, None)"
| "viewer_loop to_f64 co closing (Tick # es) hosts =
     bind_outcome (viewer_frame co hosts) (\<lambda>w.
     bind_outcome (viewer_loop to_f64 co closing es hosts) (\<lambda>(ws, hosts', e). Ok (w # ws, hosts', e)))"
| "viewer_loop to_f64 co closing (Key key # es) hosts =
     (if quits key then Ok ([], hosts, Some (cleanup closing hosts)) else viewer_loop to_f64 co closing es hosts)"
| "viewer_loop to_f64 co closing (Round name env order # es) hosts =
     bind_outcome (host_round to_f64 name env order hosts) (viewer_loop to_f64 co closing es)"

definition viewer_main ::
    "(u64 \<Rightarrow> f64) \<Rightarrow> chart_opts \<Rightarrow> string list \<Rightarrow> viewer_event list \<Rightarrow>
     (widget list list \<times> (string \<rightharpoonup> HostStats) \<times> string list option) outcome" where
  "viewer_main to_f64 co closing es =
     bind_outcome (viewer_frame co viewer_hosts) (\<lambda>w.
     bind_outcome (viewer_loop to_f64 co closing es viewer_hosts) (\<lambda>(ws, hosts, e). Ok (w # ws, hosts, e)))"

section \<open>What is on the screen\<close>

definition hosts_typed :: "(string \<rightharpoonup> HostStats) \<Rightarrow> bool" where
  "hosts_typed hosts \<longleftrightarrow> dom hosts = {''halo-a'', ''halo-b'', ''halo-c''} \<and>
     (\<forall>n h. hosts n = Some h \<longrightarrow> host_name h = n \<and> host_typed h)"

text \<open>Three groups of charts with their titles, every chart a full window.\<close>

definition full_frame :: "widget list \<Rightarrow> bool" where
  "full_frame w \<longleftrightarrow> map (fst \<circ> fst) w = [''Node: halo-a'', ''Node: halo-b'', ''Node: halo-c''] \<and>
     (\<forall>((t, charts), r) \<in> set w. \<forall>c \<in> set charts. length (ChartData c) = STATS_LEN)"

lemma viewer_hosts_typed: "hosts_typed viewer_hosts"
  using NewHostStats_typed by (auto simp: hosts_typed_def viewer_hosts_def NewHostStats_def split: if_splits)

lemma window_typed:
  assumes "host_typed h" and "n \<in> {''halo_local0'', ''halo0'', ''halo1''}"
  shows "length (rx_bps (host_window h n)) = STATS_LEN" "length (tx_bps (host_window h n)) = STATS_LEN"
proof -
  have "n \<in> dom (host_ifc h)" using assms by (simp add: host_typed_def)
  then obtain st where st: "host_ifc h n = Some st" by auto
  then have "st \<in> ran (host_ifc h)" by (rule ranI)
  with st assms(1) show "length (rx_bps (host_window h n)) = STATS_LEN" "length (tx_bps (host_window h n)) = STATS_LEN"
    by (simp_all add: host_typed_def host_window_def window_ok_def)
qed

lemma acl_window_typed: "host_typed h \<Longrightarrow> length (host_acl h) = STATS_LEN"
  by (simp add: host_typed_def window_ok_def)

lemma viewer_frame_full:
  assumes "hosts_typed hosts"
  shows "\<exists>w. viewer_frame co hosts = Ok w \<and> full_frame w"
proof -
  have "''halo-a'' \<in> dom hosts" "''halo-b'' \<in> dom hosts" "''halo-c'' \<in> dom hosts"
    using assms by (simp_all add: hosts_typed_def)
  then obtain a b c where abc: "hosts ''halo-a'' = Some a" "hosts ''halo-b'' = Some b" "hosts ''halo-c'' = Some c" by auto
  then have "host_name a = ''halo-a''" "host_typed a" "host_name b = ''halo-b''" "host_typed b"
    "host_name c = ''halo-c''" "host_typed c" using assms by (auto simp: hosts_typed_def)
  with abc window_typed acl_window_typed show ?thesis
    by (simp add: viewer_frame_def host_widget_def full_frame_def MakeNodeAWidget_def MakeNodeBWidget_def MakeNodeCWidget_def
        node_title_def rx_line_def tx_line_def acl_line_def)
qed

lemma update_round_name: "update_round to_f64 env order h = Some (Ok h') \<Longrightarrow> host_name h' = host_name h"
  by (auto simp: update_round_def Let_def finish_round_def bind_outcome_Ok_iff poll_acl_def poll_interfaces_def
      Connect_host_def Disconnect_def split: if_splits sum.splits prod.splits)

text \<open>The ranges of the rounds run over all interfaces of the host.\<close>

definition rounds_ok :: "viewer_event list \<Rightarrow> bool" where
  "rounds_ok es \<longleftrightarrow> (\<forall>name env order. Round name env order \<in> set es \<longrightarrow>
     distinct order \<and> set order = {''halo_local0'', ''halo0'', ''halo1''})"

lemma host_round_typed:
  assumes "hosts_typed hosts" and "distinct order" and "set order = {''halo_local0'', ''halo0'', ''halo1''}"
  shows "\<exists>hosts'. host_round to_f64 name env order hosts = Ok hosts' \<and> hosts_typed hosts'"
proof (cases "hosts name")
  case None
  with assms(1) show ?thesis by (simp add: host_round_def)
next
  case (Some h)
  then have h: "host_name h = name" "host_typed h" using assms(1) by (auto simp: hosts_typed_def)
  show ?thesis
  proof (cases "update_round to_f64 env order h")
    case None
    with Some assms(1) show ?thesis by (simp add: host_round_def)
  next
    case r: (Some r)
    have "range_order (host_ifc h) order" using assms(2,3) h(2) by (simp add: range_order_def host_typed_def)
    from update_round_slides [OF h(2) this r] obtain h' where h': "r = Ok h'" "host_typed h'" by blast
    with r update_round_name h(1) have "host_name h' = name" by fastforce
    with assms(1) Some h' have "hosts_typed (hosts(name \<mapsto> h'))" by (auto simp: hosts_typed_def)
    with Some r h' show ?thesis by (simp add: host_round_def)
  qed
qed

fun ticks_until_key :: "viewer_event list \<Rightarrow> nat" where
  "ticks_until_key [] = 0"
| "ticks_until_key (Tick # es) = Suc (ticks_until_key es)"
| "ticks_until_key (Key key # es) = (if quits key then 0 else ticks_until_key es)"
| "ticks_until_key (Round _ _ _ # es) = ticks_until_key es"

lemma viewer_loop_draws:
  "hosts_typed hosts \<Longrightarrow> rounds_ok es \<Longrightarrow>
   \<exists>ws hosts' e. viewer_loop to_f64 co closing es hosts = Ok (ws, hosts', e) \<and> list_all full_frame ws \<and>
     length ws = ticks_until_key es \<and> hosts_typed hosts' \<and> (e \<noteq> None \<longleftrightarrow> (\<exists>k. Key k \<in> set es \<and> quits k))"
proof (induction es arbitrary: hosts)
  case Nil
  then show ?case by simp
next
  case (Cons ev es)
  then have ok: "rounds_ok es" by (auto simp: rounds_ok_def)
  show ?case
  proof (cases ev)
    case Tick
    with Cons.IH [OF Cons.prems(1) ok] viewer_frame_full [OF Cons.prems(1), of co] show ?thesis by fastforce
  next
    case (Key k)
    with Cons.IH [OF Cons.prems(1) ok] Cons.prems(1) show ?thesis by (cases "quits k") auto
  next
    case (Round name env order)
    then have "distinct order" "set order = {''halo_local0'', ''halo0'', ''halo1''}"
      using Cons.prems(2) by (auto simp: rounds_ok_def)
    from host_round_typed [OF Cons.prems(1) this, of to_f64 name env] obtain hosts' where
      "host_round to_f64 name env order hosts = Ok hosts'" "hosts_typed hosts'" by blast
    with Cons.IH [OF this(2) ok] Round show ?thesis by auto
  qed
qed

text \<open>
  The viewer's screen: for every order of ticks, keys and finished rounds, whatever the hosts
  answer, the program never panics; it draws once at the start and once for each tick before the
  key that ends it, every frame shows the three hosts with a full window in each chart, and it
  ends exactly when such a key has come.
\<close>

theorem viewer_draws_full_frames:
  assumes "rounds_ok es"
  shows "\<exists>ws hosts e. viewer_main to_f64 co closing es = Ok (ws, hosts, e) \<and> list_all full_frame ws \<and>
    length ws = Suc (ticks_until_key es) \<and> (e \<noteq> None \<longleftrightarrow> (\<exists>k. Key k \<in> set es \<and> quits k))"
proof -
  obtain w where "viewer_frame co viewer_hosts = Ok w" "full_frame w"
    using viewer_frame_full [OF viewer_hosts_typed] by blast
  with viewer_loop_draws [OF viewer_hosts_typed assms, of to_f64 co closing] show ?thesis
    by (auto simp: viewer_main_def)
qed

text \<open>A session of two ticks, with a host that refuses its first call, ended by a key.\<close>

definition viewer_session :: "viewer_event list" where
  "viewer_session = [Tick, Round ''halo-a'' \<lparr>dial_ok = True, GetInterfaces_call = Inl ''refused'', GetAclCacheSize_call = Inr 3\<rparr>
     [''halo0'', ''halo1'', ''halo_local0''], Key ''x'', Tick, Key ''q'', Tick]"

theorem viewer_draws_full_frames_witness:
  "\<exists>ws hosts e. viewer_main (\<lambda>n. zero_f64) \<lparr>maxBwOpt = zero_f64, maxAclOpt = zero_f64\<rparr> [] viewer_session = Ok (ws, hosts, e) \<and>
     length ws = 3 \<and> e \<noteq> None"
proof -
  have "rounds_ok viewer_session" by (auto simp: rounds_ok_def viewer_session_def)
  from viewer_draws_full_frames [OF this, of "\<lambda>n. zero_f64" "\<lparr>maxBwOpt = zero_f64, maxAclOpt = zero_f64\<rparr>" "[]"] show ?thesis
    by (auto simp: viewer_session_def quits_def)
qed

end
