(* ===== verification/Spec2Isabelle.thy ===== *)
theory Spec2Isabelle
  imports RegistryProps FlowProps SteerProps TwampProps PingProps HalProps ServerProps TunnelProps
    ClientProps BatchProps StatsProps RefineProps TwampToolProps MapLock MonitorLock
    Runtime ClientFlags Connections SiEnvironment Mock Viewer
begin

text \<open>
  A verification development for the traffic steering function \<open>vmw_tsf\<close>: the Go packages
  \<open>pkg/hal\<close> and \<open>pkg/twamp\<close> and the tools \<open>cmd/client\<close>, \<open>cmd/stats\<close> and \<open>cmd/twamp\<close>.

  \<^bold>\<open>The program.\<close> An instance of \<open>DnHalImpl\<close> reads its configuration, registers the LAN and WAN
  interfaces of the system, follows their counters over gNMI and their delay over TWAMP, adds up
  the NetFlow messages of the flows that cross them, and steers single flows to a next hop with
  rules of one access list, which it configures on the device over NETCONF and mirrors in a cache.
  A management service adds and deletes interfaces, a statistics service streams them; the client
  tool runs one command on an instance, the viewer polls the statistics of three hosts.

  \<^bold>\<open>Values.\<close> \<open>Prelude\<close> holds the integers at their width (\<open>u8\<close> to \<open>u64\<close>, \<open>i64\<close>; Go's \<open>int\<close>
  where it cannot overflow is \<open>int\<close>, with the bound stated) and \<open>outcome\<close>: a value, an error, a fatal
  log that ends the process, a panic, or a call that never returns. Go's random order of \<open>range\<close>
  over a map is an argument, a list with \<open>range_order\<close>; \<open>GoStrings\<close>, \<open>NetIP\<close>, \<open>IPNet\<close> and \<open>Wire\<close>
  model the parts of the standard library that are used, \<open>Xml\<close> and \<open>XmlTokens\<close> documents as trees and
  as the tokens of a decoder.

  \<^bold>\<open>The parts.\<close>
  \<^item> \<open>FlowKeys\<close> (\<open>api.go\<close>, \<open>fmt.go\<close>): flows, the text key \<open>AsKey\<close> of a flow, the printed forms.
  \<^item> \<open>Gnmi\<close> (\<open>gnmi.go\<close>): credentials, paths, the monitor's channels of speed and counter updates.
  \<^item> \<open>Registry\<close> (\<open>hal.go\<close>): \<open>NewInterface\<close>, \<open>RemoveInterface\<close>, lookups, visitors, telemetry. The
    store of objects is explicit, since the four lookup maps share pointers. \<open>RegistryProps\<close>: the
    maps and the sorted name lists agree in every reachable state; \<open>RefineProps\<close>: the whole is a
    table from names to interfaces.
  \<^item> \<open>RwLock\<close>, \<open>MapLock\<close> (\<open>hal.go\<close>, \<open>sync.RWMutex\<close>): an object under a lock, and the registry as one. The
    write sections are lists of assignments between which others may move; the result is that
    readers only see what complete operations leave.
  \<^item> \<open>Connections\<close>, \<open>MonitorStart\<close>, \<open>MonitorLock\<close> (\<open>hal.go\<close>, \<open>gnmi.go\<close>): how the monitor and its manager are made,
    its start while interfaces come and go (none is missed, a removed one may be subscribed), and
    its channels, the callback and a removal that holds the lock (when it can hang for ever).
  \<^item> \<open>Flows\<close> (\<open>hal.go\<close>): \<open>Publish\<close>, \<open>ToTelemetry\<close>, \<open>GetFlows\<close>. \<open>FlowProps\<close>: exact totals per
    IPv4 flow, which flows a round reports, where every byte goes (reported, dropped with a flow
    below the threshold, or still held), bounds of the rates, and the interleaving of the two in
    which a message is lost.
  \<^item> \<open>AclXml\<close>, \<open>AclReply\<close> (\<open>structs.go\<close>): the access list documents in both directions.
  \<^item> \<open>Steering\<close> (\<open>hal.go\<close>): \<open>Steer\<close>, \<open>RemoveSteer\<close>, \<open>GetSteerInterface\<close>, \<open>InitNetConf\<close>, the cleanup, over
    any device. \<open>SteerFacts\<close>, \<open>SteerRuns\<close> and \<open>SteerDevice\<close> carry the invariant of the cache, the step
    relation over both operations and what is read back from a device; \<open>SteerProps\<close> states the
    results, \<open>RefineProps\<close> that the cache is the set of steered flows.
  \<^item> \<open>Tunnels\<close> (\<open>hal.go\<close>): tunnel requests, searches in replies, the service instance, flow monitoring.
    \<open>SiEnvironment\<close>: the environment requests, as text. \<open>TunnelProps\<close>: the searches find the first
    interface that qualifies, and adding a VXLAN tunnel is a plan of requests that stops at the first
    refusal and commits last.
  \<^item> \<open>TwampTime\<close>, \<open>TwampControl\<close>, \<open>TwampTest\<close> (\<open>pkg/twamp\<close>): timestamps by the code's calendar arithmetic,
    the control connection over a scripted stream, probes and their statistics. \<open>TwampProps\<close> and
    \<open>PingFacts\<close>, \<open>PingProps\<close>: round trips of the formats, what the negotiation accepts, what a series of
    probes reports and when it ends.
  \<^item> \<open>TwampTool\<close> (\<open>cmd/twamp/main.go\<close>, \<open>test.go\<close>): the tool's run and its printed report. \<open>TwampToolProps\<close>: it
    completes in ping mode against a server that answers, and measures what the monitor's series
    measures.
  \<^item> \<open>Config\<close> (\<open>config.go\<close>), \<open>HalInit\<close>, \<open>HalMonitor\<close> (\<open>hal.go\<close>), \<open>Servers\<close> (\<open>mgmt_server.go\<close>,
    \<open>stats_server.go\<close>): the instance that composes the parts, its start, the event loop of the
    interface monitor, the two services; \<open>ConfigLog\<close>: the defaults and the log of a configuration.
    \<open>HalFacts\<close>, \<open>HalProps\<close> and \<open>ServerProps\<close> state what a start leaves registered and what the services do
    to it.
  \<^item> \<open>Runtime\<close>: all events of a running instance (services, monitor, NetFlow receiver, client calls) in
    any order, the invariant they keep, and what an added interface is used for from then on.
  \<^item> \<open>Batch\<close>, \<open>Client\<close>, \<open>ClientFlags\<close> (\<open>cmd/client/main.go\<close>): samples and their accumulation, what the
    commands do, the tree of commands and their flags. \<open>BatchProps\<close>, \<open>ClientProps\<close>; \<open>ClientFlags\<close> follows a
    command line to the registry of the instance that serves it.
  \<^item> \<open>StatsTool\<close>, \<open>Viewer\<close> (\<open>cmd/stats/main.go\<close>): hosts, sliding windows, polling rounds, the loop that draws
    them. \<open>StatsProps\<close>.
  \<^item> \<open>Mock\<close> (\<open>mock.go\<close>, \<open>hal_test.go\<close>): the mock instance, its tests, where it differs from the real one.

  \<^bold>\<open>Interfaces.\<close> Five locales state what one part relies on of another: \<open>key_encoding\<close>
  (\<open>KeyedMaps\<close>, for maps filled under a text key) is interpreted on \<open>AsKey\<close>, \<open>byte_codec\<close> (\<open>Wire\<close>, for
  fields of a byte buffer) on the two integer widths of the TWAMP messages, and \<open>simulation\<close>
  (\<open>KeyedMaps\<close>, an operation on states that an abstract one follows) on the registry and its table,
  \<open>guarded_object\<close> (\<open>RwLock\<close>, the sections of an object under a lock) on the registry and its write
  sections, and \<open>visited\<close> (\<open>Mock\<close>, the contract of a visitor) on the real instance and on the mock.

  \<^bold>\<open>Parameters.\<close> What is not in the repository is an argument: the NETCONF device (a state and
  its answer to each request), the gNMI client and manager, the network and the clock of a probe,
  the values viper reads, the reader of the flags, the system's interfaces, and floating-point arithmetic (a value of type
  \<open>f64\<close> is only passed on or handed to the operations given). The theorems hold for all of them, or
  under a hypothesis on the answers that a witness meets with a concrete device.

  \<^bold>\<open>Conditions.\<close> Three conditions recur because the code fails without them, each with a theorem that
  shows it. \<open>batch_ok\<close>: one call of \<open>Steer\<close> does not name a flow twice (\<open>repeated_flow_gets_two_ids\<close>) and
  does not take the rule ids to \<open>2 ^ 63\<close>. \<open>cache_inv\<close>: no flow has two ids and every id is below the
  next one, which all calls keep from an empty cache, but which a restart can break
  (\<open>restart_overwrites_rule\<close>). Different lower ports and indices: interfaces that share one lose it
  together (\<open>shared_lower_lost\<close>). Statements on text keys are for IPv4 flows (\<open>AsKey_merges_v6\<close>), those
  on rules read back from the device for TCP and UDP (\<open>other_protocols_never_verify\<close>).

  \<^bold>\<open>Bounds.\<close> Rule ids are Go's \<open>int\<close>; statements on \<open>Steer\<close> ask that the next id plus ten for each rule
  of the call stays below \<open>2 ^ 63\<close>. Loops are structural, or follow a list that shrinks, with two
  exceptions that may not end in the code: the series of probes and the receive loop of the viewer
  return \<open>Blocked\<close> then, and \<open>RunX_returns\<close> and \<open>broken_stream_never_ends\<close> say exactly when. Endless
  outer loops (monitor, batch, polling) take the sequence of their events or rounds, so that a
  statement about every sequence is one about every moment of the run.

  \<^bold>\<open>Concurrency.\<close> Goroutines are modelled where they share state: \<open>Publish\<close> against \<open>GetFlows\<close>, the sections
  under the map lock, the start of the monitor, its channels. Their steps are single assignments or
  channel operations in any order, on a memory that is sequentially consistent. Elsewhere an
  operation is one step.

  \<^bold>\<open>Not modelled.\<close> The indentation of documents and the missing escaping of the tunnel templates; the
  mutexes that guard nothing but the creation of the instance; the calls of \<open>log\<close> that do not end the
  process, but for the log of the configuration; how cobra reads a command line (its documented
  behaviour is the hypothesis \<open>reads_flags\<close>) and the alignment of tables; the drawing of the viewer's
  terminal; the transport of gRPC and its generated code; the request templates of
  \<open>netconf_api.go\<close>, all of them comments; the empty tool \<open>cmd/nop\<close>.
\<close>

end
